(* ===== verification/Go_Prelude.thy ===== *)
theory Go_Prelude
  imports Main
begin

text \<open>
  Shared vocabulary of the development: the types that stand for Go's built-in types, the result
  type for fallible functions, the collections of facts the component proofs draw on, and generic
  lemmas on lists that more than one component uses.

  A Go string is a sequence of bytes, so it is a \<^typ>\<open>char list\<close> whose elements are the bytes
  (\<open>char\<close> has exactly 256 values).  A rune is a natural number.  A Go slice that the code only
  appends to and ranges over is a list, a Go map a partial function.
\<close>

section \<open>Types\<close>

type_synonym byte = char
type_synonym rune = nat

abbreviation byte_val :: "byte \<Rightarrow> nat" where
  "byte_val c \<equiv> of_char c"

text \<open>A fallible Go function returns \<open>Inl err\<close> or \<open>Inr value\<close>.\<close>

type_synonym ('e, 'a) go_result = "'e + 'a"

abbreviation is_err :: "('e, 'a) go_result \<Rightarrow> bool" where
  "is_err r \<equiv> isl r"

section \<open>Collections of facts\<close>

named_theorems go_len "bounds on the lengths of the remainders that scanners return"
named_theorems go_eval "definitions to unfold when a model is evaluated on a concrete input"
named_theorems go_fold "case-folding facts"
named_theorems pipeline_simps "unfolding of the stages of the request pipeline"

section \<open>Lists\<close>

text \<open>The loop \<open>for _, x := range xs { if p(x) { return ... } }\<close> is \<open>find\<close>.\<close>

lemma find_Some_mem:
  "List.find P xs = Some x \<Longrightarrow> x \<in> set xs \<and> P x"
  by (auto simp: find_Some_iff)

lemma find_None_all:
  "List.find P xs = None \<longleftrightarrow> (\<forall>x\<in>set xs. \<not> P x)"
  by (auto simp: find_None_iff)

lemma find_None_empty_filter:
  "List.find P xs = None \<longleftrightarrow> filter P xs = []"
  by (auto simp: find_None_iff filter_empty_conv)

lemma length_dropWhile_less_Cons [go_len]:
  "length (dropWhile P xs) < Suc (length xs)"
  by (simp add: le_imp_less_Suc length_dropWhile_le)

lemma length_dropWhile_le_Suc [go_len]:
  "length (dropWhile P xs) \<le> Suc (length xs)"
  by (simp add: le_SucI length_dropWhile_le)

lemma distinct_snoc:
  "distinct (xs @ [x]) \<longleftrightarrow> distinct xs \<and> x \<notin> set xs"
  by auto

lemma last_in_set_split:
  "xs \<noteq> [] \<Longrightarrow> \<exists>ys. xs = ys @ [last xs]"
  by (metis append_butlast_last_id)

lemma dropWhile_append_stop:
  assumes "\<forall>x\<in>set xs. P x" and "\<not> P y"
  shows "dropWhile P (xs @ y # ys) = y # ys"
  using assms by (induction xs) auto

lemma takeWhile_append_stop:
  assumes "\<forall>x\<in>set xs. P x" and "\<not> P y"
  shows "takeWhile P (xs @ y # ys) = xs"
  using assms by (induction xs) auto

lemma dropWhile_all: "\<forall>x\<in>set xs. P x \<Longrightarrow> dropWhile P xs = []"
  by (induction xs) auto

lemma dropWhile_append_all: "\<forall>x\<in>set xs. P x \<Longrightarrow> dropWhile P (xs @ ys) = dropWhile P ys"
  by (induction xs) auto

lemma dropWhile_snoc: "\<not> P a \<Longrightarrow> dropWhile P (xs @ [a]) = dropWhile P xs @ [a]"
  by (induction xs) auto

text \<open>Trimming at both ends: the order does not matter and the right end needs it once.\<close>

lemma dropWhile_snoc_if:
  "dropWhile P (xs @ [c]) =
     (if P c \<and> (\<forall>x\<in>set xs. P x) then [] else dropWhile P xs @ [c])"
proof (cases "\<forall>x\<in>set xs. P x")
  case True
  then show ?thesis by (auto simp: dropWhile_append_all dropWhile_all)
next
  case False
  then obtain x where "x \<in> set xs" "\<not> P x" by auto
  then show ?thesis using False by (auto simp: dropWhile_append1)
qed

lemma dropWhile_rev_commute:
  "dropWhile P (rev (dropWhile P xs)) = rev (dropWhile P (rev (dropWhile P (rev xs))))"
  by (induction xs) (auto simp: dropWhile_snoc_if dropWhile_all)

lemma trim_rtrim:
  "dropWhile P (rev (dropWhile P (rev (dropWhile P (rev xs))))) = dropWhile P (rev (dropWhile P xs))"
  by (metis dropWhile_idem dropWhile_rev_commute rev_rev_ident)

lemma take_one_append:
  "(d = [] \<longrightarrow> N = []) \<Longrightarrow> drop 1 (take 1 d @ N) = N \<and> take 1 (take 1 d @ N) = take 1 d"
  by (cases d) auto

section \<open>Loops that only add\<close>

text \<open>
  A loop whose body adds to what a projection of the state holds, and never removes, adds the union
  over the list; appending bodies add the concatenation.
\<close>

lemma fold_collect:
  assumes "\<And>x r. x \<in> set xs \<Longrightarrow> proj (f x r) = proj r \<union> g x"
  shows "proj (fold f xs r) = proj r \<union> (\<Union>x\<in>set xs. g x)"
  using assms by (induction xs arbitrary: r) auto

lemma fold_keeps:
  assumes "\<And>x r. x \<in> set xs \<Longrightarrow> proj (f x r) = proj r"
  shows "proj (fold f xs r) = proj r"
  using assms by (induction xs arbitrary: r) auto

text \<open>An operation that appends a list to a state, and what a loop over such operations appends.\<close>

locale append_action =
  fixes add :: "'a list \<Rightarrow> 's \<Rightarrow> 's"
  assumes add_Nil: "add [] r = r"
    and add_add: "add ys (add xs r) = add (xs @ ys) r"
begin

lemma fold_add:
  assumes "\<And>x r. x \<in> set xs \<Longrightarrow> f x r = add (g x) r"
  shows "fold f xs r = add (concat (map g xs)) r"
  using assms by (induction xs arbitrary: r) (simp_all add: add_Nil add_add)

end

end
