(* ===== verification/Go_Strings.thy ===== *)
theory Go_Strings
  imports Go_Prelude
begin

text \<open>
  The functions of Go's standard library packages \<open>unicode/utf8\<close>, \<open>unicode\<close> and \<open>strings\<close> that
  the program calls, on byte strings.  UTF-8 decoding follows \<open>utf8.DecodeRune\<close> (an invalid byte
  decodes to U+FFFD of width 1).  Case mapping takes the ASCII branch of the library first and
  otherwise looks the rune up in the simple case mappings of Unicode 15.0, listed below as ranges
  (first, last, stride, delta).  Case-insensitive comparison (\<open>strings.EqualFold\<close>) compares the
  runes of the two strings under simple folding.
\<close>

section \<open>Simple case mappings outside ASCII\<close>

definition unicode_upper_ranges :: "(nat \<times> nat \<times> nat \<times> int) list" where
  "unicode_upper_ranges = [
    (181, 181, 1, 743), (224, 246, 1, -32), (248, 254, 1, -32), (255, 255, 1, 121), (257, 303, 2, -1),
    (305, 305, 1, -232), (307, 311, 2, -1), (314, 328, 2, -1), (331, 375, 2, -1), (378, 382, 2, -1),
    (383, 383, 1, -300), (384, 384, 1, 195), (387, 389, 2, -1), (392, 392, 1, -1), (396, 396, 1, -1),
    (402, 402, 1, -1), (405, 405, 1, 97), (409, 409, 1, -1), (410, 410, 1, 163), (414, 414, 1, 130),
    (417, 421, 2, -1), (424, 424, 1, -1), (429, 429, 1, -1), (432, 432, 1, -1), (436, 438, 2, -1),
    (441, 441, 1, -1), (445, 445, 1, -1), (447, 447, 1, 56), (453, 453, 1, -1), (454, 454, 1, -2),
    (456, 456, 1, -1), (457, 457, 1, -2), (459, 459, 1, -1), (460, 460, 1, -2), (462, 476, 2, -1),
    (477, 477, 1, -79), (479, 495, 2, -1), (498, 498, 1, -1), (499, 499, 1, -2), (501, 501, 1, -1),
    (505, 543, 2, -1), (547, 563, 2, -1), (572, 572, 1, -1), (575, 576, 1, 10815), (578, 578, 1, -1),
    (583, 591, 2, -1), (592, 592, 1, 10783), (593, 593, 1, 10780), (594, 594, 1, 10782), (595, 595, 1, -210),
    (596, 596, 1, -206), (598, 599, 1, -205), (601, 601, 1, -202), (603, 603, 1, -203), (604, 604, 1, 42319),
    (608, 608, 1, -205), (609, 609, 1, 42315), (611, 611, 1, -207), (613, 613, 1, 42280), (614, 614, 1, 42308),
    (616, 616, 1, -209), (617, 617, 1, -211), (618, 618, 1, 42308), (619, 619, 1, 10743), (620, 620, 1, 42305),
    (623, 623, 1, -211), (625, 625, 1, 10749), (626, 626, 1, -213), (629, 629, 1, -214), (637, 637, 1, 10727),
    (640, 640, 1, -218), (642, 642, 1, 42307), (643, 643, 1, -218), (647, 647, 1, 42282), (648, 648, 1, -218),
    (649, 649, 1, -69), (650, 651, 1, -217), (652, 652, 1, -71), (658, 658, 1, -219), (669, 669, 1, 42261),
    (670, 670, 1, 42258), (837, 837, 1, 84), (881, 883, 2, -1), (887, 887, 1, -1), (891, 893, 1, 130),
    (940, 940, 1, -38), (941, 943, 1, -37), (945, 961, 1, -32), (962, 962, 1, -31), (963, 971, 1, -32),
    (972, 972, 1, -64), (973, 974, 1, -63), (976, 976, 1, -62), (977, 977, 1, -57), (981, 981, 1, -47),
    (982, 982, 1, -54), (983, 983, 1, -8), (985, 1007, 2, -1), (1008, 1008, 1, -86), (1009, 1009, 1, -80),
    (1010, 1010, 1, 7), (1011, 1011, 1, -116), (1013, 1013, 1, -96), (1016, 1016, 1, -1), (1019, 1019, 1, -1),
    (1072, 1103, 1, -32), (1104, 1119, 1, -80), (1121, 1153, 2, -1), (1163, 1215, 2, -1), (1218, 1230, 2, -1),
    (1231, 1231, 1, -15), (1233, 1327, 2, -1), (1377, 1414, 1, -48), (4304, 4346, 1, 3008), (4349, 4351, 1, 3008),
    (5112, 5117, 1, -8), (7296, 7296, 1, -6254), (7297, 7297, 1, -6253), (7298, 7298, 1, -6244), (7299, 7300, 1, -6242),
    (7301, 7301, 1, -6243), (7302, 7302, 1, -6236), (7303, 7303, 1, -6181), (7304, 7304, 1, 35266), (7545, 7545, 1, 35332),
    (7549, 7549, 1, 3814), (7566, 7566, 1, 35384), (7681, 7829, 2, -1), (7835, 7835, 1, -59), (7841, 7935, 2, -1),
    (7936, 7943, 1, 8), (7952, 7957, 1, 8), (7968, 7975, 1, 8), (7984, 7991, 1, 8), (8000, 8005, 1, 8),
    (8017, 8023, 2, 8), (8032, 8039, 1, 8), (8048, 8049, 1, 74), (8050, 8053, 1, 86), (8054, 8055, 1, 100),
    (8056, 8057, 1, 128), (8058, 8059, 1, 112), (8060, 8061, 1, 126), (8064, 8071, 1, 8), (8080, 8087, 1, 8),
    (8096, 8103, 1, 8), (8112, 8113, 1, 8), (8115, 8115, 1, 9), (8126, 8126, 1, -7205), (8131, 8131, 1, 9),
    (8144, 8145, 1, 8), (8160, 8161, 1, 8), (8165, 8165, 1, 7), (8179, 8179, 1, 9), (8526, 8526, 1, -28),
    (8560, 8575, 1, -16), (8580, 8580, 1, -1), (9424, 9449, 1, -26), (11312, 11359, 1, -48), (11361, 11361, 1, -1),
    (11365, 11365, 1, -10795), (11366, 11366, 1, -10792), (11368, 11372, 2, -1), (11379, 11379, 1, -1), (11382, 11382, 1, -1),
    (11393, 11491, 2, -1), (11500, 11502, 2, -1), (11507, 11507, 1, -1), (11520, 11557, 1, -7264), (11559, 11559, 1, -7264),
    (11565, 11565, 1, -7264), (42561, 42605, 2, -1), (42625, 42651, 2, -1), (42787, 42799, 2, -1), (42803, 42863, 2, -1),
    (42874, 42876, 2, -1), (42879, 42887, 2, -1), (42892, 42892, 1, -1), (42897, 42899, 2, -1), (42900, 42900, 1, 48),
    (42903, 42921, 2, -1), (42933, 42947, 2, -1), (42952, 42954, 2, -1), (42961, 42961, 1, -1), (42967, 42969, 2, -1),
    (42998, 42998, 1, -1), (43859, 43859, 1, -928), (43888, 43967, 1, -38864), (65345, 65370, 1, -32), (66600, 66639, 1, -40),
    (66776, 66811, 1, -40), (66967, 67003, 2, -39), (66968, 66976, 2, -39), (66980, 66992, 2, -39), (66996, 67000, 2, -39),
    (67004, 67004, 1, -39), (68800, 68850, 1, -64), (71872, 71903, 1, -32), (93792, 93823, 1, -32), (125218, 125251, 1, -34)]"

definition unicode_lower_ranges :: "(nat \<times> nat \<times> nat \<times> int) list" where
  "unicode_lower_ranges = [
    (192, 214, 1, 32), (216, 222, 1, 32), (256, 302, 2, 1), (304, 304, 1, -199), (306, 310, 2, 1),
    (313, 327, 2, 1), (330, 374, 2, 1), (376, 376, 1, -121), (377, 381, 2, 1), (385, 385, 1, 210),
    (386, 388, 2, 1), (390, 390, 1, 206), (391, 391, 1, 1), (393, 394, 1, 205), (395, 395, 1, 1),
    (398, 398, 1, 79), (399, 399, 1, 202), (400, 400, 1, 203), (401, 401, 1, 1), (403, 403, 1, 205),
    (404, 404, 1, 207), (406, 406, 1, 211), (407, 407, 1, 209), (408, 408, 1, 1), (412, 412, 1, 211),
    (413, 413, 1, 213), (415, 415, 1, 214), (416, 420, 2, 1), (422, 422, 1, 218), (423, 423, 1, 1),
    (425, 425, 1, 218), (428, 428, 1, 1), (430, 430, 1, 218), (431, 431, 1, 1), (433, 434, 1, 217),
    (435, 437, 2, 1), (439, 439, 1, 219), (440, 440, 1, 1), (444, 444, 1, 1), (452, 452, 1, 2),
    (453, 453, 1, 1), (455, 455, 1, 2), (456, 456, 1, 1), (458, 458, 1, 2), (459, 475, 2, 1),
    (478, 494, 2, 1), (497, 497, 1, 2), (498, 500, 2, 1), (502, 502, 1, -97), (503, 503, 1, -56),
    (504, 542, 2, 1), (544, 544, 1, -130), (546, 562, 2, 1), (570, 570, 1, 10795), (571, 571, 1, 1),
    (573, 573, 1, -163), (574, 574, 1, 10792), (577, 577, 1, 1), (579, 579, 1, -195), (580, 580, 1, 69),
    (581, 581, 1, 71), (582, 590, 2, 1), (880, 882, 2, 1), (886, 886, 1, 1), (895, 895, 1, 116),
    (902, 902, 1, 38), (904, 906, 1, 37), (908, 908, 1, 64), (910, 911, 1, 63), (913, 929, 1, 32),
    (931, 939, 1, 32), (975, 975, 1, 8), (984, 1006, 2, 1), (1012, 1012, 1, -60), (1015, 1015, 1, 1),
    (1017, 1017, 1, -7), (1018, 1018, 1, 1), (1021, 1023, 1, -130), (1024, 1039, 1, 80), (1040, 1071, 1, 32),
    (1120, 1152, 2, 1), (1162, 1214, 2, 1), (1216, 1216, 1, 15), (1217, 1229, 2, 1), (1232, 1326, 2, 1),
    (1329, 1366, 1, 48), (4256, 4293, 1, 7264), (4295, 4295, 1, 7264), (4301, 4301, 1, 7264), (5024, 5103, 1, 38864),
    (5104, 5109, 1, 8), (7312, 7354, 1, -3008), (7357, 7359, 1, -3008), (7680, 7828, 2, 1), (7838, 7838, 1, -7615),
    (7840, 7934, 2, 1), (7944, 7951, 1, -8), (7960, 7965, 1, -8), (7976, 7983, 1, -8), (7992, 7999, 1, -8),
    (8008, 8013, 1, -8), (8025, 8031, 2, -8), (8040, 8047, 1, -8), (8072, 8079, 1, -8), (8088, 8095, 1, -8),
    (8104, 8111, 1, -8), (8120, 8121, 1, -8), (8122, 8123, 1, -74), (8124, 8124, 1, -9), (8136, 8139, 1, -86),
    (8140, 8140, 1, -9), (8152, 8153, 1, -8), (8154, 8155, 1, -100), (8168, 8169, 1, -8), (8170, 8171, 1, -112),
    (8172, 8172, 1, -7), (8184, 8185, 1, -128), (8186, 8187, 1, -126), (8188, 8188, 1, -9), (8486, 8486, 1, -7517),
    (8490, 8490, 1, -8383), (8491, 8491, 1, -8262), (8498, 8498, 1, 28), (8544, 8559, 1, 16), (8579, 8579, 1, 1),
    (9398, 9423, 1, 26), (11264, 11311, 1, 48), (11360, 11360, 1, 1), (11362, 11362, 1, -10743), (11363, 11363, 1, -3814),
    (11364, 11364, 1, -10727), (11367, 11371, 2, 1), (11373, 11373, 1, -10780), (11374, 11374, 1, -10749), (11375, 11375, 1, -10783),
    (11376, 11376, 1, -10782), (11378, 11378, 1, 1), (11381, 11381, 1, 1), (11390, 11391, 1, -10815), (11392, 11490, 2, 1),
    (11499, 11501, 2, 1), (11506, 11506, 1, 1), (42560, 42604, 2, 1), (42624, 42650, 2, 1), (42786, 42798, 2, 1),
    (42802, 42862, 2, 1), (42873, 42875, 2, 1), (42877, 42877, 1, -35332), (42878, 42886, 2, 1), (42891, 42891, 1, 1),
    (42893, 42893, 1, -42280), (42896, 42898, 2, 1), (42902, 42920, 2, 1), (42922, 42922, 1, -42308), (42923, 42923, 1, -42319),
    (42924, 42924, 1, -42315), (42925, 42925, 1, -42305), (42926, 42926, 1, -42308), (42928, 42928, 1, -42258), (42929, 42929, 1, -42282),
    (42930, 42930, 1, -42261), (42931, 42931, 1, 928), (42932, 42946, 2, 1), (42948, 42948, 1, -48), (42949, 42949, 1, -42307),
    (42950, 42950, 1, -35384), (42951, 42953, 2, 1), (42960, 42960, 1, 1), (42966, 42968, 2, 1), (42997, 42997, 1, 1),
    (65313, 65338, 1, 32), (66560, 66599, 1, 40), (66736, 66771, 1, 40), (66928, 66964, 2, 39), (66929, 66937, 2, 39),
    (66941, 66953, 2, 39), (66957, 66961, 2, 39), (66965, 66965, 1, 39), (68736, 68786, 1, 64), (71840, 71871, 1, 32),
    (93760, 93791, 1, 32), (125184, 125217, 1, 34)]"

fun range_lookup :: "(nat \<times> nat \<times> nat \<times> int) list \<Rightarrow> rune \<Rightarrow> rune" where
  "range_lookup [] r = r"
| "range_lookup ((lo, hi, stride, delta) # rs) r =
     (if lo \<le> r \<and> r \<le> hi \<and> (r - lo) mod stride = 0 then nat (int r + delta)
      else range_lookup rs r)"

definition unicode_ToUpper :: "rune \<Rightarrow> rune" where
  "unicode_ToUpper r =
     (if r < 128 then (if 97 \<le> r \<and> r \<le> 122 then r - 32 else r)
      else range_lookup unicode_upper_ranges r)"

definition unicode_ToLower :: "rune \<Rightarrow> rune" where
  "unicode_ToLower r =
     (if r < 128 then (if 65 \<le> r \<and> r \<le> 90 then r + 32 else r)
      else range_lookup unicode_lower_ranges r)"

text \<open>
  The representative of a rune's orbit under \<open>unicode.SimpleFold\<close>.  The dotted capital I and the
  dotless small i (U+0130, U+0131) have case mappings but fold only to themselves.
\<close>

definition fold_rune :: "rune \<Rightarrow> rune" where
  "fold_rune r = (if r = 304 \<or> r = 305 then r else unicode_ToLower (unicode_ToUpper r))"

definition unicode_IsSpace :: "rune \<Rightarrow> bool" where
  "unicode_IsSpace r \<longleftrightarrow>
     (9 \<le> r \<and> r \<le> 13) \<or> r = 32 \<or> r = 133 \<or> r = 160 \<or> r = 5760 \<or> (8192 \<le> r \<and> r \<le> 8202) \<or>
     r = 8232 \<or> r = 8233 \<or> r = 8239 \<or> r = 8287 \<or> r = 12288"

text \<open>\<open>unicode.IsLetter\<close> and \<open>unicode.IsDigit\<close> on the runes up to 255, all the code asks of them.\<close>

definition latin1_IsLetter :: "rune \<Rightarrow> bool" where
  "latin1_IsLetter r \<longleftrightarrow>
     (97 \<le> r \<and> r \<le> 122) \<or> (65 \<le> r \<and> r \<le> 90) \<or> r = 170 \<or> r = 181 \<or> r = 186 \<or>
     (192 \<le> r \<and> r \<le> 214) \<or> (216 \<le> r \<and> r \<le> 246) \<or> (248 \<le> r \<and> r \<le> 255)"

definition latin1_IsDigit :: "rune \<Rightarrow> bool" where
  "latin1_IsDigit r \<longleftrightarrow> 48 \<le> r \<and> r \<le> 57"

section \<open>UTF-8\<close>

definition RuneError :: rune where
  "RuneError = 65533"

definition cont_byte :: "nat \<Rightarrow> bool" where
  "cont_byte b \<longleftrightarrow> 128 \<le> b \<and> b \<le> 191"

text \<open>
  \<open>utf8.DecodeRune\<close>: the first rune of the string and its width in bytes.  The ranges of the
  second byte exclude overlong forms, surrogates and values above U+10FFFF.
\<close>

definition decode_rune :: "string \<Rightarrow> rune \<times> nat" where
  "decode_rune s =
     (case map byte_val (take 4 s) of
        [] \<Rightarrow> (RuneError, 0)
      | b0 # bs \<Rightarrow>
          if b0 < 128 then (b0, 1)
          else if 194 \<le> b0 \<and> b0 \<le> 223 then
            (case bs of b1 # _ \<Rightarrow> if cont_byte b1 then ((b0 - 192) * 64 + (b1 - 128), 2) else (RuneError, 1)
             | _ \<Rightarrow> (RuneError, 1))
          else if 224 \<le> b0 \<and> b0 \<le> 239 then
            (case bs of b1 # b2 # _ \<Rightarrow>
               if (if b0 = 224 then 160 else 128) \<le> b1 \<and> b1 \<le> (if b0 = 237 then 159 else 191)
                  \<and> cont_byte b2
               then ((b0 - 224) * 4096 + (b1 - 128) * 64 + (b2 - 128), 3) else (RuneError, 1)
             | _ \<Rightarrow> (RuneError, 1))
          else if 240 \<le> b0 \<and> b0 \<le> 244 then
            (case bs of b1 # b2 # b3 # _ \<Rightarrow>
               if (if b0 = 240 then 144 else 128) \<le> b1 \<and> b1 \<le> (if b0 = 244 then 143 else 191)
                  \<and> cont_byte b2 \<and> cont_byte b3
               then ((b0 - 240) * 262144 + (b1 - 128) * 4096 + (b2 - 128) * 64 + (b3 - 128), 4)
               else (RuneError, 1)
             | _ \<Rightarrow> (RuneError, 1))
          else (RuneError, 1))"

lemma decode_rune_width:
  assumes "s \<noteq> []"
  shows "1 \<le> snd (decode_rune s)"
  using assms by (cases s) (auto simp: decode_rune_def split: list.splits)

lemma decode_rune_step:
  assumes "(r, w) = decode_rune s" and "s \<noteq> []"
  shows "0 < w"
  using decode_rune_width [OF assms(2)] by (simp flip: assms(1))

text \<open>The runes of \<open>for _, r := range s\<close>.\<close>

function runes :: "string \<Rightarrow> rune list" where
  "runes s = (if s = [] then []
              else (case decode_rune s of (r, w) \<Rightarrow> r # runes (drop w s)))"
  by pat_completeness auto
termination
  by (relation "measure length") (auto simp: decode_rune_step)

declare runes.simps [simp del]

lemma runes_Nil [simp]: "runes [] = []"
  by (simp add: runes.simps)

definition encode_rune :: "rune \<Rightarrow> string" where
  "encode_rune r =
     (let r = (if (55296 \<le> r \<and> r \<le> 57343) \<or> 1114111 < r then RuneError else r) in
      map char_of
        (if r < 128 then [r]
         else if r < 2048 then [192 + r div 64, 128 + r mod 64]
         else if r < 65536 then [224 + r div 4096, 128 + r div 64 mod 64, 128 + r mod 64]
         else [240 + r div 262144, 128 + r div 4096 mod 64, 128 + r div 64 mod 64, 128 + r mod 64]))"

definition is_ascii :: "string \<Rightarrow> bool" where
  "is_ascii s \<longleftrightarrow> list_all (\<lambda>c. byte_val c < 128) s"

text \<open>\<open>utf8.DecodeLastRune\<close>: back up over at most three continuation bytes.\<close>

definition decode_last_rune :: "string \<Rightarrow> rune \<times> nat" where
  "decode_last_rune s =
     (if s = [] then (RuneError, 0)
      else if byte_val (last s) < 128 then (byte_val (last s), 1)
      else (case List.find (\<lambda>k. k \<le> length s \<and> \<not> cont_byte (byte_val (s ! (length s - k)))) [2, 3, 4] of
              None \<Rightarrow> (RuneError, 1)
            | Some k \<Rightarrow> (case decode_rune (drop (length s - k) s) of
                (r, w) \<Rightarrow> if w = k then (r, w) else (RuneError, 1))))"

lemma decode_last_rune_width:
  assumes "s \<noteq> []"
  shows "1 \<le> snd (decode_last_rune s)"
  using assms
  by (auto simp: decode_last_rune_def split: option.splits prod.splits dest!: find_Some_mem)

lemma decode_last_rune_step:
  assumes "(r, w) = decode_last_rune s" and "s \<noteq> []"
  shows "0 < w"
  using decode_last_rune_width [OF assms(2)] by (simp flip: assms(1))

section \<open>Package strings\<close>

definition ascii_upper :: "byte \<Rightarrow> byte" where
  "ascii_upper c = (if 97 \<le> byte_val c \<and> byte_val c \<le> 122 then char_of (byte_val c - 32) else c)"

definition ascii_lower :: "byte \<Rightarrow> byte" where
  "ascii_lower c = (if 65 \<le> byte_val c \<and> byte_val c \<le> 90 then char_of (byte_val c + 32) else c)"

definition ToUpper :: "string \<Rightarrow> string" where
  "ToUpper s = (if is_ascii s then map ascii_upper s
                else concat (map (\<lambda>r. encode_rune (unicode_ToUpper r)) (runes s)))"

definition ToLower :: "string \<Rightarrow> string" where
  "ToLower s = (if is_ascii s then map ascii_lower s
                else concat (map (\<lambda>r. encode_rune (unicode_ToLower r)) (runes s)))"

definition fold_key :: "string \<Rightarrow> rune list" where
  "fold_key s = map fold_rune (if is_ascii s then map byte_val s else runes s)"

definition EqualFold :: "string \<Rightarrow> string \<Rightarrow> bool" where
  "EqualFold s t \<longleftrightarrow> fold_key s = fold_key t"

function trim_left_space :: "string \<Rightarrow> string" where
  "trim_left_space s =
     (if s = [] then []
      else (case decode_rune s of (r, w) \<Rightarrow>
        if unicode_IsSpace r then trim_left_space (drop w s) else s))"
  by pat_completeness auto
termination
  by (relation "measure length") (auto simp: decode_rune_step)

function trim_right_space :: "string \<Rightarrow> string" where
  "trim_right_space s =
     (if s = [] then []
      else (case decode_last_rune s of (r, w) \<Rightarrow>
        if unicode_IsSpace r then trim_right_space (take (length s - w) s) else s))"
  by pat_completeness auto
termination
  by (relation "measure length") (auto simp: decode_last_rune_step)

declare trim_left_space.simps [simp del] trim_right_space.simps [simp del]

definition TrimSpace :: "string \<Rightarrow> string" where
  "TrimSpace s = trim_right_space (trim_left_space s)"

text \<open>\<open>strings.TrimRight\<close> with a cutset of ASCII characters.\<close>

definition TrimRight :: "string \<Rightarrow> string \<Rightarrow> string" where
  "TrimRight s cutset = rev (dropWhile (\<lambda>c. c \<in> set cutset) (rev s))"

fun HasPrefix :: "string \<Rightarrow> string \<Rightarrow> bool" where
  "HasPrefix s [] = True"
| "HasPrefix [] (p # ps) = False"
| "HasPrefix (c # cs) (p # ps) = (c = p \<and> HasPrefix cs ps)"

text \<open>\<open>strings.Index\<close>: the first position where the pattern occurs.\<close>

fun Index :: "string \<Rightarrow> string \<Rightarrow> nat option" where
  "Index [] p = (if p = [] then Some 0 else None)"
| "Index (c # cs) p = (if HasPrefix (c # cs) p then Some 0 else map_option Suc (Index cs p))"

text \<open>\<open>strings.Split(s, sep)\<close> with a one-byte separator: always at least one part.\<close>

fun split_on :: "byte \<Rightarrow> string \<Rightarrow> string list" where
  "split_on d [] = [[]]"
| "split_on d (c # cs) =
     (if c = d then [] # split_on d cs
      else (case split_on d cs of [] \<Rightarrow> [[c]] | p # ps \<Rightarrow> (c # p) # ps))"

fun join_with :: "string \<Rightarrow> string list \<Rightarrow> string" where
  "join_with sep [] = []"
| "join_with sep [p] = p"
| "join_with sep (p # q # ps) = p @ sep @ join_with sep (q # ps)"

section \<open>Facts\<close>

lemma EqualFold_refl [simp]: "EqualFold s s"
  by (simp add: EqualFold_def)

lemma EqualFold_sym: "EqualFold s t \<longleftrightarrow> EqualFold t s"
  by (auto simp: EqualFold_def)

lemma EqualFold_trans: "EqualFold s t \<Longrightarrow> EqualFold t u \<Longrightarrow> EqualFold s u"
  by (simp add: EqualFold_def)

lemma EqualFold_cong_left: "EqualFold s s' \<Longrightarrow> EqualFold s t \<longleftrightarrow> EqualFold s' t"
  by (auto simp: EqualFold_def)

lemma EqualFold_cong_right: "EqualFold t t' \<Longrightarrow> EqualFold s t \<longleftrightarrow> EqualFold s t'"
  by (auto simp: EqualFold_def)

lemma is_ascii_simps [simp]:
  "is_ascii []"
  "is_ascii (c # s) \<longleftrightarrow> byte_val c < 128 \<and> is_ascii s"
  "is_ascii (s @ t) \<longleftrightarrow> is_ascii s \<and> is_ascii t"
  by (auto simp: is_ascii_def)

lemma runes_ascii: "is_ascii s \<Longrightarrow> runes s = map byte_val s"
proof (induction s)
  case Nil
  show ?case by (simp add: runes.simps)
next
  case (Cons c s)
  then have "decode_rune (c # s) = (byte_val c, 1)" by (simp add: decode_rune_def)
  with Cons show ?case by (subst runes.simps) simp
qed

lemma fold_key_runes: "fold_key s = map fold_rune (runes s)"
  by (simp add: fold_key_def runes_ascii)

lemma byte_val_shift:
  "byte_val c \<le> 122 \<Longrightarrow> (byte_val c - 32) mod 256 = byte_val c - (32::nat)"
  "byte_val c \<le> 90 \<Longrightarrow> (byte_val c + 32) mod 256 = byte_val c + (32::nat)"
  by (rule mod_less, arith)+

lemma byte_val_ascii_upper:
  "byte_val (ascii_upper c) = (if 97 \<le> byte_val c \<and> byte_val c \<le> 122 then byte_val c - 32 else byte_val c)"
  by (simp add: ascii_upper_def byte_val_shift)

lemma byte_val_ascii_lower:
  "byte_val (ascii_lower c) = (if 65 \<le> byte_val c \<and> byte_val c \<le> 90 then byte_val c + 32 else byte_val c)"
  by (simp add: ascii_lower_def byte_val_shift)

lemma fold_ascii_upper [go_fold]:
  "byte_val c < 128 \<Longrightarrow> fold_rune (byte_val (ascii_upper c)) = fold_rune (byte_val c)"
  by (auto simp: fold_rune_def unicode_ToUpper_def unicode_ToLower_def byte_val_ascii_upper)

lemma fold_ascii_lower [go_fold]:
  "byte_val c < 128 \<Longrightarrow> fold_rune (byte_val (ascii_lower c)) = fold_rune (byte_val c)"
  by (auto simp: fold_rune_def unicode_ToUpper_def unicode_ToLower_def byte_val_ascii_lower)

text \<open>On ASCII text, upper- and lower-casing do not change what a name matches.\<close>

lemma EqualFold_ToUpper [go_fold]: "is_ascii s \<Longrightarrow> EqualFold (ToUpper s) s"
proof -
  assume a: "is_ascii s"
  then have "is_ascii (map ascii_upper s)"
    by (induction s) (auto simp: byte_val_ascii_upper)
  moreover from a have "map (fold_rune \<circ> byte_val) (map ascii_upper s) = map (fold_rune \<circ> byte_val) s"
    by (simp add: is_ascii_def list_all_iff fold_ascii_upper)
  ultimately show "EqualFold (ToUpper s) s"
    using a by (simp add: EqualFold_def fold_key_def ToUpper_def)
qed

lemma EqualFold_ToLower [go_fold]: "is_ascii s \<Longrightarrow> EqualFold (ToLower s) s"
proof -
  assume a: "is_ascii s"
  then have "is_ascii (map ascii_lower s)"
    by (induction s) (auto simp: byte_val_ascii_lower)
  moreover from a have "map (fold_rune \<circ> byte_val) (map ascii_lower s) = map (fold_rune \<circ> byte_val) s"
    by (simp add: is_ascii_def list_all_iff fold_ascii_lower)
  ultimately show "EqualFold (ToLower s) s"
    using a by (simp add: EqualFold_def fold_key_def ToLower_def)
qed

lemma split_on_nonempty [simp]: "split_on d s \<noteq> []"
  by (induction s) (auto split: list.splits)

lemma split_on_no_sep: "d \<notin> set s \<Longrightarrow> split_on d s = [s]"
  by (induction s) auto

lemma split_on_append:
  "d \<notin> set s \<Longrightarrow> split_on d (s @ d # t) = s # split_on d t"
  by (induction s) auto

lemma split_on_parts: "p \<in> set (split_on d s) \<Longrightarrow> d \<notin> set p"
  by (induction s arbitrary: p) (auto split: list.splits if_splits)

lemma join_split_on: "join_with [d] (split_on d s) = s"
proof (induction s)
  case Nil
  show ?case by simp
next
  case (Cons c s)
  obtain p ps where sp: "split_on d s = p # ps"
    using split_on_nonempty by (cases "split_on d s") blast+
  show ?case
  proof (cases "c = d")
    case True
    with sp Cons show ?thesis by simp
  next
    case False
    with sp Cons show ?thesis by (cases ps) auto
  qed
qed

lemma HasPrefix_iff: "HasPrefix s p \<longleftrightarrow> (\<exists>t. s = p @ t)"
  by (induction s p rule: HasPrefix.induct) auto

lemma Index_bound: "Index s p = Some i \<Longrightarrow> i + length p \<le> length s"
proof (induction s arbitrary: i)
  case Nil
  then show ?case by (auto split: if_splits)
next
  case (Cons c cs)
  then show ?case by (auto simp: HasPrefix_iff dest: arg_cong [where f = length] split: if_splits)
qed

lemma length_trim_left_space: "length (trim_left_space s) \<le> length s"
proof (induction s rule: trim_left_space.induct)
  case (1 s)
  obtain r w where rw: "decode_rune s = (r, w)" by (cases "decode_rune s")
  show ?case
  proof (cases "s \<noteq> [] \<and> unicode_IsSpace r")
    case True
    with 1 rw have "length (trim_left_space (drop w s)) \<le> length (drop w s)" by simp
    with True rw show ?thesis by (subst trim_left_space.simps) simp
  next
    case False
    with rw show ?thesis by (subst trim_left_space.simps) auto
  qed
qed

lemma length_trim_right_space: "length (trim_right_space s) \<le> length s"
proof (induction s rule: trim_right_space.induct)
  case (1 s)
  obtain r w where rw: "decode_last_rune s = (r, w)" by (cases "decode_last_rune s")
  show ?case
  proof (cases "s \<noteq> [] \<and> unicode_IsSpace r")
    case True
    with 1 rw have "length (trim_right_space (take (length s - w) s)) \<le> length (take (length s - w) s)"
      by simp
    with True rw show ?thesis by (subst trim_right_space.simps) simp
  next
    case False
    with rw show ?thesis by (subst trim_right_space.simps) auto
  qed
qed

lemma length_TrimSpace [go_len]: "length (TrimSpace s) \<le> length s"
  using length_trim_left_space [of s] length_trim_right_space [of "trim_left_space s"]
  by (simp add: TrimSpace_def)

lemma TrimRight_idem: "TrimRight (TrimRight s cs) cs = TrimRight s cs"
  by (simp add: TrimRight_def)

lemma TrimRight_prefix: "\<exists>t. s = TrimRight s cs @ t \<and> set t \<subseteq> set cs"
proof -
  let ?P = "\<lambda>c. c \<in> set cs"
  have "rev s = takeWhile ?P (rev s) @ dropWhile ?P (rev s)" by simp
  then have "s = rev (dropWhile ?P (rev s)) @ rev (takeWhile ?P (rev s))"
    by (metis rev_append rev_rev_ident)
  moreover have "set (rev (takeWhile ?P (rev s))) \<subseteq> set cs"
    by (auto dest: set_takeWhileD)
  ultimately show ?thesis unfolding TrimRight_def by blast
qed

section \<open>ASCII text\<close>

text \<open>On ASCII text the Unicode-aware functions are bytewise; these are the rules evaluation uses.\<close>

abbreviation ascii_space :: "byte \<Rightarrow> bool" where
  "ascii_space c \<equiv> unicode_IsSpace (byte_val c)"

lemma decode_rune_ascii: "byte_val c < 128 \<Longrightarrow> decode_rune (c # s) = (byte_val c, 1)"
  by (simp add: decode_rune_def)

lemma trim_left_ascii: "is_ascii s \<Longrightarrow> trim_left_space s = dropWhile ascii_space s"
proof (induction s)
  case Nil
  show ?case by (simp add: trim_left_space.simps)
next
  case (Cons c s)
  then have "decode_rune (c # s) = (byte_val c, 1)" by (simp add: decode_rune_ascii)
  with Cons show ?case by (subst trim_left_space.simps) simp
qed

lemma trim_right_snoc:
  "byte_val c < 128 \<Longrightarrow>
     trim_right_space (s @ [c]) = (if ascii_space c then trim_right_space s else s @ [c])"
  by (subst trim_right_space.simps) (simp add: decode_last_rune_def)

lemma trim_right_ascii: "is_ascii s \<Longrightarrow> trim_right_space s = rev (dropWhile ascii_space (rev s))"
proof (induction s rule: rev_induct)
  case Nil
  show ?case by (simp add: trim_right_space.simps)
qed (simp add: trim_right_snoc)

lemma is_ascii_dropWhile: "is_ascii s \<Longrightarrow> is_ascii (dropWhile P s)"
  by (induction s) auto

lemma is_ascii_rev [simp]: "is_ascii (rev s) = is_ascii s"
  by (simp add: is_ascii_def)

lemma is_ascii_drop: "is_ascii s \<Longrightarrow> is_ascii (drop n s)"
  by (auto simp: is_ascii_def list_all_iff dest: in_set_dropD)

lemma TrimSpace_ascii [go_eval]:
  "is_ascii s \<Longrightarrow> TrimSpace s = rev (dropWhile ascii_space (rev (dropWhile ascii_space s)))"
  by (simp add: TrimSpace_def trim_left_ascii trim_right_ascii is_ascii_dropWhile)

lemma is_ascii_TrimSpace: "is_ascii s \<Longrightarrow> is_ascii (TrimSpace s)"
  by (simp add: TrimSpace_ascii is_ascii_dropWhile)

lemma dropWhile_rev_append:
  "\<exists>c\<in>set s. \<not> P c \<Longrightarrow> rev (dropWhile P (rev (p @ s))) = p @ rev (dropWhile P (rev s))"
  by (auto simp: dropWhile_append1)

lemma encode_rune_ascii [go_eval]: "r < 128 \<Longrightarrow> encode_rune r = [char_of r]"
  by (simp add: encode_rune_def Let_def)

lemma encode_upper_ascii:
  "byte_val c < 128 \<Longrightarrow> encode_rune (unicode_ToUpper (byte_val c)) = [ascii_upper c]"
  by (auto simp: encode_rune_ascii unicode_ToUpper_def ascii_upper_def)

lemma concat_upper_ascii:
  "is_ascii s \<Longrightarrow> concat (map (\<lambda>r. encode_rune (unicode_ToUpper r)) (map byte_val s)) = ToUpper s"
proof -
  assume a: "is_ascii s"
  then have "concat (map (\<lambda>r. encode_rune (unicode_ToUpper r)) (map byte_val s)) = map ascii_upper s"
    by (induction s) (auto simp: encode_upper_ascii)
  with a show ?thesis by (simp add: ToUpper_def)
qed

lemma ToUpper_ascii [go_eval]: "is_ascii s \<Longrightarrow> ToUpper s = map ascii_upper s"
  by (simp add: ToUpper_def)

lemma ToLower_ascii [go_eval]: "is_ascii s \<Longrightarrow> ToLower s = map ascii_lower s"
  by (simp add: ToLower_def)

lemma is_ascii_ToUpper: "is_ascii s \<Longrightarrow> is_ascii (ToUpper s)"
  by (induction s) (auto simp: ToUpper_ascii byte_val_ascii_upper)

lemma Index_single:
  "d \<notin> set a \<Longrightarrow> Index (a @ d # b) [d] = Some (length a)"
  by (induction a) auto

lemma Index_single_None: "d \<notin> set a \<Longrightarrow> Index a [d] = None"
  by (induction a) auto

text \<open>Case folding of ASCII text: the lower-case letters.\<close>

lemma fold_rune_ascii:
  "byte_val c < 128 \<Longrightarrow> fold_rune (byte_val c) = byte_val (ascii_lower c)"
  by (auto simp: fold_rune_def unicode_ToUpper_def unicode_ToLower_def byte_val_ascii_lower)

lemma EqualFold_ascii [go_eval]:
  assumes "is_ascii s" and "is_ascii t"
  shows "EqualFold s t \<longleftrightarrow> map ascii_lower s = map ascii_lower t"
proof -
  have "map fold_rune (map byte_val u) = map byte_val (map ascii_lower u)" if "is_ascii u" for u
    using that by (induction u) (auto simp: fold_rune_ascii)
  moreover have "inj (byte_val :: byte \<Rightarrow> nat)" by (rule inj_of_char)
  ultimately show ?thesis
    using assms by (simp add: EqualFold_def fold_key_def inj_map_eq_map del: map_map)
qed

text \<open>Evaluation of the bytewise case mappings on literal characters.\<close>

lemma char_of_nat_eval [go_eval]:
  "char_of (n :: nat) =
     Char (odd n) (odd (n div 2)) (odd (n div 4)) (odd (n div 8)) (odd (n div 16))
       (odd (n div 32)) (odd (n div 64)) (odd (n div 128))"
  by (simp add: char_of_def bit_iff_odd)

lemmas ascii_case_eval [go_eval] = ascii_upper_def ascii_lower_def unicode_IsSpace_def

section \<open>Names up to case\<close>

text \<open>
  What the policy checks rely on when they compare names: an equivalence.  A list of patterns then gives
  the same verdict on equivalent names, and replacing a pattern by an equivalent one changes nothing.
\<close>

locale name_equivalence =
  fixes same :: "'n \<Rightarrow> 'n \<Rightarrow> bool"
  assumes same_refl: "same x x"
    and same_sym: "same x y \<Longrightarrow> same y x"
    and same_trans: "same x y \<Longrightarrow> same y z \<Longrightarrow> same x z"
begin

lemma same_left: "same x x' \<Longrightarrow> same x y \<longleftrightarrow> same x' y"
  using same_sym same_trans by blast

lemma same_right: "same y y' \<Longrightarrow> same x y \<longleftrightarrow> same x y'"
  using same_sym same_trans by blast

lemma listed_cong: "same x x' \<Longrightarrow> list_ex (same x) ps \<longleftrightarrow> list_ex (same x') ps"
  unfolding list_ex_iff using same_left by blast

lemma listed_patterns: "list_all2 same ps qs \<Longrightarrow> list_ex (same x) ps \<longleftrightarrow> list_ex (same x) qs"
proof (induction ps arbitrary: qs)
  case (Cons p ps)
  then obtain q qs' where "qs = q # qs'" and "same p q" and "list_all2 same ps qs'"
    by (auto simp: list_all2_Cons1)
  then show ?case using Cons.IH [of qs'] same_right [of p q x] by simp
qed simp

lemma any_listed_cong:
  "list_all2 same xs ys \<Longrightarrow> list_all2 same ps qs \<Longrightarrow>
    list_ex (\<lambda>x. list_ex (same x) ps) xs \<longleftrightarrow> list_ex (\<lambda>x. list_ex (same x) qs) ys"
proof (induction xs arbitrary: ys)
  case (Cons x xs)
  then obtain y ys' where "ys = y # ys'" and "same x y" and "list_all2 same xs ys'"
    by (auto simp: list_all2_Cons1)
  then show ?case using Cons listed_cong [of x y ps] listed_patterns [of ps qs y] by simp
qed simp

end

interpretation folded: name_equivalence EqualFold
  using EqualFold_trans by unfold_locales (auto simp: EqualFold_sym)

end
