(* ===== verification/Parser_Tokenizer.thy ===== *)
theory Parser_Tokenizer
  imports Go_Strings
begin

text \<open>
  The raw tokenizer of \<open>internal/parser/tables.go\<close> (\<open>tokenizeRaw\<close>) with the identifier classes
  of \<open>internal/parser/normalize.go\<close>.  The index \<open>i\<close> of the Go loop is represented by the suffix of
  the statement that it points at; each inner loop is a scanner that returns the suffix behind it.
  The string builder \<open>current\<close> and the slice \<open>tokens\<close> are the accumulators of \<open>tokenize_loop\<close>.
  \<open>lex_sql\<close> is a builder-free reference lexer, \<open>lexes\<close> the rules for the tokens without any scanner;
  \<open>tokenizeRaw\<close> computes the same tokens.
\<close>

section \<open>Identifier classes (normalize.go)\<close>

definition isIdentStart :: "byte \<Rightarrow> bool" where
  "isIdentStart b \<longleftrightarrow> latin1_IsLetter (byte_val b) \<or> b = CHR ''_''"

definition isIdentPart :: "byte \<Rightarrow> bool" where
  "isIdentPart b \<longleftrightarrow> latin1_IsLetter (byte_val b) \<or> latin1_IsDigit (byte_val b) \<or>
     b = CHR ''_'' \<or> b = CHR ''$'' \<or> b = CHR ''.''"

section \<open>Scanners\<close>

definition is_blank :: "byte \<Rightarrow> bool" where
  "is_blank c \<longleftrightarrow> c = CHR '' '' \<or> c = CHR 0x09 \<or> c = CHR 0x0A \<or> c = CHR 0x0D"

definition is_punct :: "byte \<Rightarrow> bool" where
  "is_punct c \<longleftrightarrow> c \<in> set ''(),;=<>!+-*/''"

abbreviation squote :: byte where "squote \<equiv> CHR 0x27"
abbreviation dquote :: byte where "dquote \<equiv> CHR 0x22"
abbreviation bquote :: byte where "bquote \<equiv> CHR 0x60"
abbreviation bslash :: byte where "bslash \<equiv> CHR 0x5C"
abbreviation newline :: byte where "newline \<equiv> CHR 0x0A"

text \<open>Two-byte lookahead \<open>i+1 < len(sql) && sql[i] == a && sql[i+1] == b\<close>.\<close>

definition starts2 :: "byte \<Rightarrow> byte \<Rightarrow> string \<Rightarrow> bool" where
  "starts2 a b s = (case s of c # d # _ \<Rightarrow> c = a \<and> d = b | _ \<Rightarrow> False)"

text \<open>The body of a line comment ends before the newline.\<close>

definition skip_line :: "string \<Rightarrow> string" where
  "skip_line s = dropWhile (\<lambda>c. c \<noteq> newline) s"

text \<open>
  The body of a block comment, from behind the opening marker.  The loop stops at the closing
  marker or when a single byte is left, and \<open>i += 2\<close> then passes either.
\<close>

fun skip_block :: "string \<Rightarrow> string" where
  "skip_block (c # d # r) =
     (if c = CHR ''*'' \<and> d = CHR ''/'' then r else skip_block (d # r))"
| "skip_block s = []"

text \<open>
  The body of a single-quoted literal, from behind the opening quote: a backslash skips the byte
  that follows it.
\<close>

fun skip_string :: "string \<Rightarrow> string" where
  "skip_string [] = []"
| "skip_string (c # r) =
     (if c = squote then r
      else if c = bslash then skip_string (drop 1 r)
      else skip_string r)"

lemma length_skip_line [go_len]: "length (skip_line s) \<le> length s"
  by (simp add: skip_line_def length_dropWhile_le)

lemma length_skip_block [go_len]: "length (skip_block s) \<le> length s"
  by (induction s rule: skip_block.induct) auto

lemma length_skip_string [go_len]: "length (skip_string s) \<le> length s"
proof (induction s rule: length_induct)
  case (1 s)
  show ?case
  proof (cases s)
    case (Cons c r)
    have "length (skip_string (drop 1 r)) \<le> length (drop 1 r)"
      by (rule 1 [rule_format]) (simp add: Cons)
    moreover have "length (skip_string r) \<le> length r"
      by (rule 1 [rule_format]) (simp add: Cons)
    ultimately show ?thesis by (auto simp: Cons)
  qed simp
qed

lemma length_drop_less [go_len]: "0 < n \<Longrightarrow> s \<noteq> [] \<Longrightarrow> length (drop n s) < length s"
  by (cases s) auto

lemma starts2_Cons: "starts2 a b s \<longleftrightarrow> (\<exists>r. s = a # b # r)"
  by (auto simp: starts2_def split: list.splits)

section \<open>tokenizeRaw\<close>

text \<open>The closure \<open>flush\<close>.\<close>

definition flush :: "string \<Rightarrow> string list \<Rightarrow> string list" where
  "flush cur toks = (if cur \<noteq> [] then toks @ [cur] else toks)"

text \<open>\<open>string(ch)\<close> of a byte is the UTF-8 encoding of the code point with that number.\<close>

definition byte_string :: "byte \<Rightarrow> string" where
  "byte_string c = encode_rune (byte_val c)"

function tokenize_loop :: "string \<Rightarrow> string list \<Rightarrow> string \<Rightarrow> string list" where
  "tokenize_loop cur toks [] = flush cur toks"
| "tokenize_loop cur toks (ch # r) =
     (if is_blank ch then tokenize_loop [] (flush cur toks) r
      else if starts2 (CHR ''-'') (CHR ''-'') (ch # r) then
        tokenize_loop [] (flush cur toks) (skip_line (ch # r))
      else if starts2 (CHR ''/'') (CHR ''*'') (ch # r) then
        tokenize_loop [] (flush cur toks) (skip_block (drop 1 r))
      else if ch = squote then
        tokenize_loop [] (flush cur toks @ [[squote]]) (skip_string r)
      else if is_punct ch then
        tokenize_loop [] (flush cur toks @ [byte_string ch]) r
      else if ch = bquote \<or> ch = dquote then
        (let rest = dropWhile (\<lambda>c. c \<noteq> ch) r
         in tokenize_loop []
              (flush (ch # takeWhile (\<lambda>c. c \<noteq> ch) r @ take 1 rest) (flush cur toks))
              (drop 1 rest))
      else if isIdentStart ch then
        tokenize_loop [] (flush (cur @ takeWhile (\<lambda>c. isIdentPart c \<or> c = CHR ''.'') (ch # r)) toks)
          (dropWhile (\<lambda>c. isIdentPart c \<or> c = CHR ''.'') (ch # r))
      else tokenize_loop [] (flush cur toks @ [byte_string ch]) r)"
  by pat_completeness auto

lemma ident_start_part: "isIdentStart c \<Longrightarrow> isIdentPart c"
  by (auto simp: isIdentStart_def isIdentPart_def)

lemma length_dropWhile_ident:
  "isIdentStart ch \<Longrightarrow>
     length (dropWhile (\<lambda>c. isIdentPart c \<or> c = CHR ''.'') (ch # r)) < Suc (length r)"
  by (simp add: ident_start_part go_len)

lemma length_skip_line_dash:
  "starts2 (CHR ''-'') (CHR ''-'') (ch # r) \<Longrightarrow> length (skip_line (ch # r)) < Suc (length r)"
  by (auto simp: starts2_Cons skip_line_def go_len less_SucI)

lemma length_skip_block_drop: "length (skip_block (drop n r)) < Suc (length r)"
  using length_skip_block [of "drop n r"] by simp

lemma length_skip_string_less: "length (skip_string r) < Suc (length r)"
  using length_skip_string [of r] by simp

lemma length_drop_dropWhile: "length (drop n (dropWhile P r)) < Suc (length r)"
  using length_dropWhile_le [of P r] by simp

termination tokenize_loop
  by (relation "measure (\<lambda>(_, _, s). length s)")
    (simp_all only: in_measure split_conv length_dropWhile_ident length_skip_line_dash
       length_skip_block_drop length_skip_string_less length_drop_dropWhile list.size add_0_right
       add_Suc_right lessI wf_measure)

declare tokenize_loop.simps [simp del]

definition tokenizeRaw :: "string \<Rightarrow> string list" where
  "tokenizeRaw sql = tokenize_loop [] [] sql"

section \<open>The reference lexer\<close>

text \<open>One token or separator at a time, with neither builder nor token accumulator.\<close>

function lex_sql :: "string \<Rightarrow> string list" where
  "lex_sql [] = []"
| "lex_sql (ch # r) =
     (if is_blank ch then lex_sql r
      else if starts2 (CHR ''-'') (CHR ''-'') (ch # r) then lex_sql (skip_line (ch # r))
      else if starts2 (CHR ''/'') (CHR ''*'') (ch # r) then lex_sql (skip_block (drop 1 r))
      else if ch = squote then [squote] # lex_sql (skip_string r)
      else if is_punct ch then byte_string ch # lex_sql r
      else if ch = bquote \<or> ch = dquote then
        (ch # takeWhile (\<lambda>c. c \<noteq> ch) r @ take 1 (dropWhile (\<lambda>c. c \<noteq> ch) r))
          # lex_sql (drop 1 (dropWhile (\<lambda>c. c \<noteq> ch) r))
      else if isIdentStart ch then
        takeWhile (\<lambda>c. isIdentPart c \<or> c = CHR ''.'') (ch # r)
          # lex_sql (dropWhile (\<lambda>c. isIdentPart c \<or> c = CHR ''.'') (ch # r))
      else byte_string ch # lex_sql r)"
  by pat_completeness auto

termination lex_sql
  by (relation "measure length")
    (simp_all only: in_measure split_conv length_dropWhile_ident length_skip_line_dash
       length_skip_block_drop length_skip_string_less length_drop_dropWhile list.size add_0_right
       add_Suc_right lessI wf_measure)

declare lex_sql.simps [simp del]

lemma flush_simps [simp]:
  "flush [] toks = toks"
  "flush (c # cs) toks = toks @ [c # cs]"
  by (simp_all add: flush_def)

lemma flush_ident:
  assumes "isIdentStart ch"
  shows "flush (takeWhile (\<lambda>c. isIdentPart c \<or> c = CHR ''.'') (ch # r)) toks
    = toks @ [takeWhile (\<lambda>c. isIdentPart c \<or> c = CHR ''.'') (ch # r)]"
  using assms by (simp add: ident_start_part)

lemma if_eq_append:
  "(c \<Longrightarrow> x = xs @ a) \<Longrightarrow> (\<not> c \<Longrightarrow> y = xs @ b) \<Longrightarrow> (if c then x else y) = xs @ (if c then a else b)"
  by simp

text \<open>The builder is empty whenever the loop head is reached, so every leading flush is idle.\<close>

lemma tokenize_loop_lex: "tokenize_loop [] toks s = toks @ lex_sql s"
proof (induction s arbitrary: toks rule: lex_sql.induct)
  case 1
  show ?case by (simp add: tokenize_loop.simps lex_sql.simps)
next
  case (2 ch r)
  show ?case
    unfolding tokenize_loop.simps(2) lex_sql.simps(2) Let_def flush_simps append_Nil
    by (intro if_eq_append; simp only: 2 flush_ident flush_simps append_Cons append_Nil append_assoc simp_thms)
qed

text \<open>The builder and its flushes add nothing: the tokens are those of the reference lexer.\<close>

lemma tokenizeRaw_lex: "tokenizeRaw sql = lex_sql sql"
  by (simp add: tokenizeRaw_def tokenize_loop_lex)

section \<open>What the tokens of a statement are\<close>

lemma isIdentStart_disjoint:
  assumes "isIdentStart c"
  shows "\<not> is_blank c" and "\<not> is_punct c" and "c \<noteq> squote" and "c \<noteq> dquote" and "c \<noteq> bquote"
  using assms
  by (auto simp: is_blank_def is_punct_def isIdentStart_def latin1_IsLetter_def)

lemma not_starts2_head:
  "c \<noteq> a \<Longrightarrow> \<not> starts2 a b (c # r)"
  by (simp add: starts2_Cons)

lemma isIdentStart_no_comment:
  "isIdentStart c \<Longrightarrow> \<not> starts2 (CHR ''-'') (CHR ''-'') (c # r)"
  "isIdentStart c \<Longrightarrow> \<not> starts2 (CHR ''/'') (CHR ''*'') (c # r)"
  using isIdentStart_disjoint(2) [of c]
  by (auto simp: is_punct_def intro!: not_starts2_head)

lemma lex_blank: "is_blank c \<Longrightarrow> lex_sql (c # s) = lex_sql s"
  by (simp add: lex_sql.simps)

lemma lex_blanks: "\<forall>c\<in>set ws. is_blank c \<Longrightarrow> lex_sql (ws @ s) = lex_sql s"
  by (induction ws) (auto simp: lex_blank)

lemma skip_line_comment:
  "newline \<notin> set c \<Longrightarrow> skip_line (c @ newline # s) = newline # s"
  unfolding skip_line_def by (rule dropWhile_append_stop) auto

lemma lex_line_comment:
  assumes "newline \<notin> set c"
  shows "lex_sql (''--'' @ c @ newline # s) = lex_sql s"
proof -
  have "skip_line (''--'' @ c @ newline # s) = newline # s"
    using skip_line_comment [of "''--'' @ c"] assms by simp
  moreover have "starts2 (CHR ''-'') (CHR ''-'') (''--'' @ c @ newline # s)"
    by (simp add: starts2_Cons)
  ultimately show ?thesis
    by (simp add: lex_sql.simps(2) [of "CHR ''-''"] lex_blank is_blank_def)
qed

lemma skip_block_comment:
  "Index c ''*/'' = None \<Longrightarrow> skip_block (c @ ''*/'' @ s) = s"
proof (induction c)
  case (Cons x c)
  then show ?case by (cases c) (auto split: if_splits)
qed simp

lemma lex_block_comment:
  assumes "Index c ''*/'' = None"
  shows "lex_sql (''/*'' @ c @ ''*/'' @ s) = lex_sql s"
proof -
  have "starts2 (CHR ''/'') (CHR ''*'') (''/*'' @ c @ ''*/'' @ s)"
    by (simp add: starts2_Cons)
  moreover have "\<not> starts2 (CHR ''-'') (CHR ''-'') (''/*'' @ c @ ''*/'' @ s)"
    by (simp add: starts2_Cons)
  ultimately show ?thesis
    using skip_block_comment [OF assms, of s]
    by (simp add: lex_sql.simps(2) [of "CHR ''/''"] is_blank_def)
qed

lemma skip_string_plain:
  "\<forall>c\<in>set l. c \<noteq> squote \<and> c \<noteq> bslash \<Longrightarrow> skip_string (l @ squote # s) = s"
  by (induction l) auto

lemma lex_literal:
  assumes "\<forall>c\<in>set l. c \<noteq> squote \<and> c \<noteq> bslash"
  shows "lex_sql (squote # l @ squote # s) = [squote] # lex_sql s"
  using skip_string_plain [OF assms, of s]
  by (simp add: lex_sql.simps(2) [of squote] is_blank_def starts2_Cons)

text \<open>An identifier or dotted name, as the tokenizer delimits it.\<close>

definition is_name :: "string \<Rightarrow> bool" where
  "is_name w \<longleftrightarrow> (case w of [] \<Rightarrow> False | c # cs \<Rightarrow> isIdentStart c \<and> list_all isIdentPart cs)"

lemma isIdentPart_dot [simp]: "isIdentPart (CHR ''.'')"
  by (simp add: isIdentPart_def)

lemma ident_or_dot: "(\<lambda>c. isIdentPart c \<or> c = CHR ''.'') = isIdentPart"
  by auto

lemma is_name_parts: "is_name w \<Longrightarrow> \<forall>c\<in>set w. isIdentPart c"
  by (auto simp: is_name_def list_all_iff ident_start_part split: list.splits)

lemma lex_ident:
  assumes "isIdentStart c"
  shows "lex_sql (c # r) = takeWhile isIdentPart (c # r) # lex_sql (dropWhile isIdentPart (c # r))"
  using isIdentStart_disjoint [OF assms] isIdentStart_no_comment [OF assms, of r] assms
  unfolding lex_sql.simps(2) ident_or_dot by (simp only: if_False if_True simp_thms)

lemma lex_name:
  assumes "is_name w" and "\<not> isIdentPart d"
  shows "lex_sql (w @ d # s) = w # lex_sql (d # s)"
proof -
  obtain c cs where w: "w = c # cs" and c: "isIdentStart c"
    using assms(1) by (auto simp: is_name_def split: list.splits)
  have "\<forall>c\<in>set w. isIdentPart c" using assms(1) by (rule is_name_parts)
  then have "takeWhile isIdentPart (w @ d # s) = w" and "dropWhile isIdentPart (w @ d # s) = d # s"
    using assms(2) by (simp_all add: takeWhile_append_stop dropWhile_append_stop)
  with lex_ident [OF c, of "cs @ d # s"] w show ?thesis by simp
qed

lemma lex_name_end:
  assumes "is_name w"
  shows "lex_sql w = [w]"
proof -
  obtain c cs where w: "w = c # cs" and c: "isIdentStart c"
    using assms by (auto simp: is_name_def split: list.splits)
  have "\<forall>c\<in>set w. isIdentPart c" using assms by (rule is_name_parts)
  then have "takeWhile isIdentPart w = w" and "dropWhile isIdentPart w = []"
    by simp_all
  with lex_ident [OF c, of cs] w show ?thesis by (simp add: lex_sql.simps(1))
qed

lemma byte_string_ascii: "byte_val c < 128 \<Longrightarrow> byte_string c = [c]"
  by (simp add: byte_string_def encode_rune_def)

lemma lex_punct:
  assumes "is_punct c" and "\<not> starts2 (CHR ''-'') (CHR ''-'') (c # s)"
    and "\<not> starts2 (CHR ''/'') (CHR ''*'') (c # s)"
  shows "lex_sql (c # s) = [c] # lex_sql s"
proof -
  have "\<not> is_blank c" and "c \<noteq> squote" and "byte_val c < 128"
    using assms(1) by (auto simp: is_punct_def is_blank_def)
  then have "byte_string c = [c]" by (simp add: byte_string_ascii)
  with assms \<open>\<not> is_blank c\<close> \<open>c \<noteq> squote\<close> show ?thesis by (simp add: lex_sql.simps(2))
qed

lemma isIdentPart_blank [simp]: "\<not> isIdentPart (CHR '' '')"
  by (simp add: isIdentPart_def latin1_IsLetter_def latin1_IsDigit_def)

text \<open>
  The tokens of a statement that is written with single spaces between names and punctuation are
  those names and punctuation marks.
\<close>

definition plain_token :: "string \<Rightarrow> bool" where
  "plain_token w \<longleftrightarrow> is_name w \<or> (\<exists>c. w = [c] \<and> is_punct c)"

lemma lex_plain_token:
  assumes "plain_token w"
  shows "lex_sql (w @ CHR '' '' # s) = w # lex_sql s" and "lex_sql w = [w]"
proof -
  have "lex_sql (w @ CHR '' '' # s) = w # lex_sql s \<and> lex_sql w = [w]"
  proof (cases "is_name w")
    case True
    then show ?thesis
      by (simp add: lex_name lex_name_end lex_blank is_blank_def)
  next
    case False
    with assms obtain c where "w = [c]" and "is_punct c" by (auto simp: plain_token_def)
    then show ?thesis
      by (simp add: lex_punct starts2_def lex_blank is_blank_def lex_sql.simps(1))
  qed
  then show "lex_sql (w @ CHR '' '' # s) = w # lex_sql s" and "lex_sql w = [w]" by simp_all
qed

lemma lex_join_words:
  "list_all plain_token ws \<Longrightarrow> lex_sql (join_with '' '' ws) = ws"
proof (induction "'' ''" ws rule: join_with.induct)
  case (3 p q ps)
  then have "lex_sql (p @ CHR '' '' # join_with '' '' (q # ps)) = p # lex_sql (join_with '' '' (q # ps))"
    by (intro lex_plain_token(1)) simp
  with 3 show ?case by simp
qed (auto simp: lex_sql.simps(1) lex_plain_token(2))

lemma encode_rune_nonempty [simp]: "encode_rune r \<noteq> []"
  by (simp add: encode_rune_def Let_def)

lemma lex_tokens_nonempty: "t \<in> set (lex_sql s) \<Longrightarrow> t \<noteq> []"
proof (induction s rule: lex_sql.induct)
  case 1
  then show ?case by (simp add: lex_sql.simps)
next
  case (2 ch r)
  have ne: "byte_string ch \<noteq> []" by (simp add: byte_string_def)
  have "isIdentStart ch \<Longrightarrow> takeWhile (\<lambda>c. isIdentPart c \<or> c = CHR ''.'') (ch # r) \<noteq> []"
    by (simp add: ident_start_part)
  with 2 ne show ?case
    unfolding lex_sql.simps(2) by (auto split: if_splits simp del: takeWhile.simps dropWhile.simps)
qed

text \<open>The tokens of a prefix of words, followed by anything.\<close>

definition words :: "string list \<Rightarrow> string" where
  "words ws = concat (map (\<lambda>w. w @ '' '') ws)"

lemma words_simps [simp]:
  "words [] = []"
  "words (w # ws) = w @ CHR '' '' # words ws"
  by (simp_all add: words_def)

lemma lex_words: "list_all plain_token ws \<Longrightarrow> lex_sql (words ws @ s) = ws @ lex_sql s"
  by (induction ws) (simp_all add: lex_plain_token(1))

lemma plain_token_punct: "is_punct c \<Longrightarrow> plain_token [c]"
  by (simp add: plain_token_def)

lemma plain_token_name: "is_name w \<Longrightarrow> plain_token w"
  by (simp add: plain_token_def)

section \<open>What the tokens of a statement are, without a scanner\<close>

definition blank_byte :: "byte \<Rightarrow> bool" where
  "blank_byte c \<longleftrightarrow> c \<in> {CHR '' '', CHR 0x09, CHR 0x0A, CHR 0x0D}"

definition name_start :: "byte \<Rightarrow> bool" where
  "name_start c \<longleftrightarrow> latin1_IsLetter (byte_val c) \<or> c = CHR ''_''"

definition name_byte :: "byte \<Rightarrow> bool" where
  "name_byte c \<longleftrightarrow> latin1_IsLetter (byte_val c) \<or> latin1_IsDigit (byte_val c) \<or> c \<in> {CHR ''_'', CHR ''$'', CHR ''.''}"

text \<open>The inside of a literal: bytes other than quote and backslash, and pairs of a backslash and any byte.\<close>

inductive literal_body :: "string \<Rightarrow> bool" where
  "literal_body []"
| "literal_body (c # b)" if "c \<noteq> squote" and "c \<noteq> bslash" and "literal_body b"
| "literal_body (bslash # c # b)" if "literal_body b"

definition comment_start :: "string \<Rightarrow> bool" where
  "comment_start s \<longleftrightarrow> (\<exists>r. s = ''--'' @ r \<or> s = ''/*'' @ r)"

definition block_body :: "string \<Rightarrow> bool" where
  "block_body b \<longleftrightarrow> \<not> (\<exists>u v. b = u @ ''*/'' @ v)"

text \<open>
  \<open>lexes s ts\<close>: the statement \<open>s\<close> is cut, from the left, into blanks, comments, literals, quoted names, names
  and single bytes, and \<open>ts\<close> are the tokens of these regions.  The rules write each region out as a
  concatenation and use no scanner; comments, literals and quoted names may also be left open by the
  end of the statement.
\<close>

inductive lexes :: "string \<Rightarrow> string list \<Rightarrow> bool" where
  lexes_end: "lexes [] []"
| lexes_blank: "lexes (c # s) ts" if "blank_byte c" and "lexes s ts"
| lexes_line: "lexes (''--'' @ b @ s) ts"
    if "newline \<notin> set b" and "s = [] \<or> hd s = newline" and "lexes s ts"
| lexes_block: "lexes (''/*'' @ b @ ''*/'' @ s) ts" if "block_body b" and "lexes s ts"
| lexes_block_open: "lexes (''/*'' @ b) []" if "block_body b"
| lexes_literal: "lexes (squote # b @ squote # s) ([squote] # ts)" if "literal_body b" and "lexes s ts"
| lexes_literal_open: "lexes (squote # b) [[squote]]" if "literal_body b"
| lexes_literal_cut: "lexes (squote # b @ [bslash]) [[squote]]" if "literal_body b"
| lexes_quoted: "lexes (q # b @ q # s) ((q # b @ [q]) # ts)"
    if "q \<in> {bquote, dquote}" and "q \<notin> set b" and "lexes s ts"
| lexes_quoted_open: "lexes (q # b) [q # b]" if "q \<in> {bquote, dquote}" and "q \<notin> set b"
| lexes_name: "lexes (c # w @ s) ((c # w) # ts)"
    if "name_start c" and "\<forall>d\<in>set w. name_byte d" and "s = [] \<or> \<not> name_byte (hd s)" and "lexes s ts"
| lexes_byte: "lexes (c # s) (encode_rune (byte_val c) # ts)"
    if "\<not> blank_byte c" and "c \<notin> {squote, bquote, dquote}" and "\<not> name_start c"
      and "\<not> comment_start (c # s)" and "lexes s ts"

lemma byte_classes:
  "is_blank = blank_byte" "isIdentStart = name_start" "isIdentPart = name_byte"
  by (auto simp: fun_eq_iff is_blank_def blank_byte_def isIdentStart_def name_start_def isIdentPart_def name_byte_def)

lemma comment_start_starts2:
  "comment_start s \<longleftrightarrow> starts2 (CHR ''-'') (CHR ''-'') s \<or> starts2 (CHR ''/'') (CHR ''*'') s"
  by (auto simp: comment_start_def starts2_Cons)

lemma dropWhile_stop: "\<forall>c\<in>set b. P c \<Longrightarrow> s = [] \<or> \<not> P (hd s) \<Longrightarrow> dropWhile P (b @ s) = s \<and> takeWhile P (b @ s) = b"
  by (cases s) (simp_all add: takeWhile_append_stop dropWhile_append_stop)

text \<open>Each scanner passes exactly the region of its rule.\<close>

lemma skip_string_body: "literal_body b \<Longrightarrow> skip_string (b @ squote # s) = s"
  and skip_string_open: "literal_body b \<Longrightarrow> skip_string b = []"
  and skip_string_escape: "literal_body b \<Longrightarrow> skip_string (b @ [bslash]) = []"
  by (induction rule: literal_body.induct) simp_all

lemma skip_string_split:
  "\<exists>b. literal_body b \<and> (r = b @ squote # skip_string r \<or> skip_string r = [] \<and> (r = b \<or> r = b @ [bslash]))"
proof (induction r rule: length_induct)
  case (1 r)
  show ?case
  proof (cases r)
    case Nil
    then show ?thesis by (auto intro: literal_body.intros)
  next
    case (Cons c u)
    consider "c = squote" | "c = bslash" "u = []" | d v where "c = bslash" "u = d # v" | "c \<noteq> squote" "c \<noteq> bslash"
      by (cases u) auto
    then show ?thesis
    proof cases
      case 1
      then show ?thesis using Cons by (auto intro!: exI [of _ "[]"] literal_body.intros)
    next
      case 2
      then show ?thesis using Cons by (auto intro!: exI [of _ "[]"] literal_body.intros)
    next
      case 3
      with 1 Cons obtain b where "literal_body b"
        and "v = b @ squote # skip_string v \<or> skip_string v = [] \<and> (v = b \<or> v = b @ [bslash])"
        by (metis length_Cons less_Suc_eq)
      then show ?thesis using Cons 3 by (intro exI [of _ "bslash # d # b"]) (auto intro: literal_body.intros)
    next
      case 4
      with 1 Cons obtain b where "literal_body b"
        and "u = b @ squote # skip_string u \<or> skip_string u = [] \<and> (u = b \<or> u = b @ [bslash])"
        by (metis length_Cons lessI)
      then show ?thesis using Cons 4 by (intro exI [of _ "c # b"]) (auto intro: literal_body.intros)
    qed
  qed
qed

lemma block_body_Cons: "block_body (c # d # r) \<longleftrightarrow> \<not> (c = CHR ''*'' \<and> d = CHR ''/'') \<and> block_body (d # r)"
proof -
  have "(\<exists>u v. c # d # r = u @ ''*/'' @ v) \<longleftrightarrow> (c = CHR ''*'' \<and> d = CHR ''/'') \<or> (\<exists>u v. d # r = u @ ''*/'' @ v)"
    by (auto simp: Cons_eq_append_conv)
  then show ?thesis by (simp add: block_body_def)
qed

lemma block_body_short [simp]: "block_body []" "block_body [c]"
  by (auto simp: block_body_def Cons_eq_append_conv)

lemma skip_block_body: "block_body b \<Longrightarrow> skip_block (b @ ''*/'' @ s) = s"
proof (induction b rule: skip_block.induct)
  case (1 c d r)
  then show ?case by (auto simp: block_body_Cons)
qed auto

lemma skip_block_open: "block_body b \<Longrightarrow> skip_block b = []"
  by (induction b rule: skip_block.induct) (auto simp: block_body_Cons)

lemma skip_block_split:
  "\<exists>b. block_body b \<and> (r = b @ ''*/'' @ skip_block r \<or> skip_block r = [] \<and> r = b)"
proof (induction r rule: skip_block.induct)
  case (1 c d r)
  show ?case
  proof (cases "c = CHR ''*'' \<and> d = CHR ''/''")
    case True
    then show ?thesis by (intro exI [of _ "[]"]) simp
  next
    case False
    with 1 obtain b where b: "block_body b"
      "d # r = b @ ''*/'' @ skip_block (d # r) \<or> skip_block (d # r) = [] \<and> d # r = b" by blast
    have "block_body (c # b)"
      using b False by (cases b) (auto simp: block_body_Cons)
    then show ?thesis using b(2) False by (intro exI [of _ "c # b"]) auto
  qed
qed auto

text \<open>The reference lexer satisfies the rules.\<close>

lemma lex_sql_byte:
  assumes "\<not> blank_byte c" and "c \<notin> {squote, bquote, dquote}" and "\<not> name_start c" and "\<not> comment_start (c # s)"
  shows "lex_sql (c # s) = encode_rune (byte_val c) # lex_sql s"
  using assms by (simp add: lex_sql.simps(2) byte_classes comment_start_starts2 byte_string_def)

lemma lex_sql_quote:
  "lex_sql (squote # r) = [squote] # lex_sql (skip_string r)"
  by (simp add: lex_sql.simps(2) is_blank_def starts2_Cons)

lemma lex_sql_block: "lex_sql (''/*'' @ r) = lex_sql (skip_block r)"
  by (simp add: lex_sql.simps(2) is_blank_def starts2_Cons)

lemma lex_sql_dash: "lex_sql (''--'' @ r) = lex_sql (skip_line r)"
  by (simp add: lex_sql.simps(2) is_blank_def starts2_Cons skip_line_def)

lemma lex_sql_quoted:
  assumes q: "q \<in> {bquote, dquote}"
  shows "lex_sql (q # r) = (q # takeWhile (\<lambda>c. c \<noteq> q) r @ take 1 (dropWhile (\<lambda>c. c \<noteq> q) r))
    # lex_sql (drop 1 (dropWhile (\<lambda>c. c \<noteq> q) r))"
proof -
  have "\<not> is_blank q" "\<not> starts2 (CHR ''-'') (CHR ''-'') (q # r)" "\<not> starts2 (CHR ''/'') (CHR ''*'') (q # r)"
    "q \<noteq> squote" "\<not> is_punct q" "q = bquote \<or> q = dquote"
    using q by (auto simp: is_blank_def starts2_Cons is_punct_def)
  then show ?thesis unfolding lex_sql.simps(2) by (simp only: if_False if_True simp_thms)
qed

lemma lexes_lex_sql: "lexes s ts \<Longrightarrow> ts = lex_sql s"
proof (induction rule: lexes.induct)
  case (lexes_line b s ts)
  have "\<forall>c\<in>set b. c \<noteq> newline" using lexes_line(1) by auto
  moreover have "s = [] \<or> \<not> hd s \<noteq> newline" using lexes_line(2) by simp
  ultimately have "skip_line (b @ s) = s"
    unfolding skip_line_def by (rule conjunct1 [OF dropWhile_stop [where P = "\<lambda>c. c \<noteq> newline"]])
  then show ?case unfolding lex_sql_dash using lexes_line by simp
next
  case (lexes_quoted q b s ts)
  have "\<forall>c\<in>set b. c \<noteq> q" and "\<not> hd (q # s) \<noteq> q" using lexes_quoted(2) by auto
  then have "dropWhile (\<lambda>c. c \<noteq> q) (b @ q # s) = q # s" and "takeWhile (\<lambda>c. c \<noteq> q) (b @ q # s) = b"
    using dropWhile_stop [of b "\<lambda>c. c \<noteq> q" "q # s"] by blast+
  then show ?case using lexes_quoted(4) unfolding lex_sql_quoted [OF lexes_quoted(1)] by simp
next
  case (lexes_quoted_open q b)
  then have "\<forall>c\<in>set b. c \<noteq> q" by auto
  then have bare: "dropWhile (\<lambda>c. c \<noteq> q) b = []" "takeWhile (\<lambda>c. c \<noteq> q) b = b"
    using dropWhile_stop [of b "\<lambda>c. c \<noteq> q" "[]"] by simp_all
  show ?case unfolding lex_sql_quoted [OF lexes_quoted_open(1)] bare by (simp add: lex_sql.simps(1))
next
  case (lexes_name c w s ts)
  have "\<forall>d\<in>set (c # w). name_byte d" using lexes_name(1,2) by (auto simp: name_start_def name_byte_def)
  from dropWhile_stop [OF this lexes_name(3)] show ?case
    using lexes_name lex_ident [of c "w @ s"] by (simp add: byte_classes)
next
  case (lexes_byte c s ts)
  then show ?case using lex_sql_byte [of c s] by simp
qed (simp_all only: lex_sql.simps(1) lex_blank byte_classes lex_sql_block skip_block_body skip_block_open lex_sql_quote
    skip_string_body skip_string_open skip_string_escape)

text \<open>And nothing else satisfies them.\<close>

lemma lex_sql_lexes: "lexes s (lex_sql s)"
proof (induction s rule: length_induct)
  case (1 s)
  then have IH: "length u < length s \<Longrightarrow> lexes u (lex_sql u)" for u by blast
  show ?case
  proof (cases s)
    case Nil
    then show ?thesis by (simp add: lex_sql.simps lexes_end)
  next
    case (Cons c r)
    consider (blank) "blank_byte c" | (line) u where "s = ''--'' @ u" | (block) u where "s = ''/*'' @ u"
      | (lit) "c = squote" | (quoted) "c \<in> {bquote, dquote}" | (name) "name_start c"
      | (byte) "\<not> blank_byte c" "c \<notin> {squote, bquote, dquote}" "\<not> name_start c" "\<not> comment_start (c # r)"
      using Cons by (auto simp: comment_start_def)
    then show ?thesis
    proof cases
      case blank
      then show ?thesis using IH [of r] Cons by (simp add: lexes_blank lex_blank byte_classes)
    next
      case line
      have "lexes (skip_line u) (lex_sql (skip_line u))" using IH line length_skip_line [of u] by simp
      moreover have "u = takeWhile (\<lambda>c. c \<noteq> newline) u @ skip_line u" by (simp add: skip_line_def)
      moreover have "skip_line u = [] \<or> hd (skip_line u) = newline"
        using hd_dropWhile [of "\<lambda>c. c \<noteq> newline" u] by (auto simp: skip_line_def)
      moreover have "newline \<notin> set (takeWhile (\<lambda>c. c \<noteq> newline) u)" by (auto dest: set_takeWhileD)
      ultimately show ?thesis unfolding line lex_sql_dash by (metis lexes_line)
    next
      case block
      have sub: "lexes (skip_block u) (lex_sql (skip_block u))" using IH block length_skip_block [of u] by simp
      obtain b where b: "block_body b" "u = b @ ''*/'' @ skip_block u \<or> skip_block u = [] \<and> u = b"
        using skip_block_split by blast
      from b(2) show ?thesis
      proof
        assume "u = b @ ''*/'' @ skip_block u"
        then show ?thesis using lexes_block [OF b(1) sub] unfolding block lex_sql_block by simp
      next
        assume "skip_block u = [] \<and> u = b"
        then show ?thesis using lexes_block_open [OF b(1)] unfolding block lex_sql_block
          by (auto simp: lex_sql.simps(1))
      qed
    next
      case lit
      have sub: "lexes (skip_string r) (lex_sql (skip_string r))" using IH Cons length_skip_string [of r] by simp
      obtain b where b: "literal_body b"
        "r = b @ squote # skip_string r \<or> skip_string r = [] \<and> (r = b \<or> r = b @ [bslash])"
        using skip_string_split by blast
      from b(2) show ?thesis
      proof
        assume "r = b @ squote # skip_string r"
        then show ?thesis using lexes_literal [OF b(1) sub] unfolding Cons lit lex_sql_quote by simp
      next
        assume "skip_string r = [] \<and> (r = b \<or> r = b @ [bslash])"
        then show ?thesis using lexes_literal_open [OF b(1)] lexes_literal_cut [OF b(1)] unfolding Cons lit lex_sql_quote
          by (auto simp: lex_sql.simps(1))
      qed
    next
      case quoted
      define b u where "b = takeWhile (\<lambda>d. d \<noteq> c) r" and "u = dropWhile (\<lambda>d. d \<noteq> c) r"
      have r: "r = b @ u" and nb: "c \<notin> set b" by (auto simp: b_def u_def dest: set_takeWhileD)
      have lex: "lex_sql s = (c # b @ take 1 u) # lex_sql (drop 1 u)"
        unfolding Cons lex_sql_quoted [OF quoted] b_def u_def ..
      show ?thesis
      proof (cases u)
        case Nil
        then show ?thesis using lexes_quoted_open [OF quoted nb] lex Cons r by (simp add: lex_sql.simps(1))
      next
        case (Cons d v)
        then have "d = c" using hd_dropWhile [of "\<lambda>d. d \<noteq> c" r] by (simp add: u_def)
        then show ?thesis using lexes_quoted [OF quoted nb IH [of v]] lex \<open>s = c # r\<close> r Cons by simp
      qed
    next
      case name
      define w u where "w = takeWhile name_byte r" and "u = dropWhile name_byte r"
      have r: "r = w @ u" and wb: "\<forall>d\<in>set w. name_byte d" by (auto simp: w_def u_def dest: set_takeWhileD)
      have ub: "u = [] \<or> \<not> name_byte (hd u)" using hd_dropWhile [of name_byte r] by (auto simp: u_def)
      have "lex_sql s = (c # w) # lex_sql u"
        using lex_ident [of c r] name Cons ident_start_part [of c] by (simp add: byte_classes w_def u_def)
      then show ?thesis using lexes_name [OF name wb ub IH [of u]] Cons r by simp
    next
      case byte
      then show ?thesis using lexes_byte [OF byte IH [of r]] lex_sql_byte [OF byte] Cons by simp
    qed
  qed
qed

text \<open>C32. The tokens of a statement are exactly those that its regions determine, read from the left: blanks and
  comments (a line comment up to its newline, a block comment up to the first closing marker) yield none, a
  literal with backslash escapes yields the single token of its quote, a quoted name yields its bytes with the
  quotes, a name is the longest run of letters, digits, underscores, dollars and dots from a letter or an
  underscore, and any other byte is a token of its own.  Each statement has exactly one such list of tokens, and
  the loop over the bytes returns it.\<close>

theorem tokenizeRaw_lexes: "lexes sql ts \<longleftrightarrow> ts = tokenizeRaw sql"
  using lexes_lex_sql [of sql ts] lex_sql_lexes [of sql] by (auto simp: tokenizeRaw_lex)

lemmas lex_eval [go_eval] = lex_sql.simps is_blank_def starts2_def is_punct_def isIdentStart_def
  isIdentPart_def latin1_IsLetter_def latin1_IsDigit_def byte_string_ascii skip_line_def

end
