(* ===== verification/Parser_Classifier.thy ===== *)
theory Parser_Classifier
  imports Parser_Tokenizer
begin

text \<open>
  \<open>internal/parser/classifier.go\<close>: the statement classes, the verb extraction that skips leading
  comments, the classification of a statement by its verb (by the outermost verb behind the CTE
  block for \<open>WITH\<close>), and the two predicates that steer the request pipeline, \<open>IsBypass\<close> and
  \<open>IsMutating\<close>.
\<close>

section \<open>StatementClass\<close>

datatype StatementClass =
    StatementUnknown | StatementSelect | StatementInsert | StatementUpdate | StatementDelete
  | StatementCreate | StatementAlter | StatementDrop | StatementCall | StatementShow
  | StatementDescribe | StatementExplain | StatementUse | StatementSet | StatementTruncate
  | StatementOther

text \<open>The constants are numbered by \<open>iota\<close>; the numbering orders them.\<close>

primrec class_number :: "StatementClass \<Rightarrow> nat" where
  "class_number StatementUnknown = 0"
| "class_number StatementSelect = 1"
| "class_number StatementInsert = 2"
| "class_number StatementUpdate = 3"
| "class_number StatementDelete = 4"
| "class_number StatementCreate = 5"
| "class_number StatementAlter = 6"
| "class_number StatementDrop = 7"
| "class_number StatementCall = 8"
| "class_number StatementShow = 9"
| "class_number StatementDescribe = 10"
| "class_number StatementExplain = 11"
| "class_number StatementUse = 12"
| "class_number StatementSet = 13"
| "class_number StatementTruncate = 14"
| "class_number StatementOther = 15"

lemma class_number_inject: "class_number c = class_number d \<Longrightarrow> c = d"
  by (cases c; cases d; simp)

instantiation StatementClass :: linorder
begin

definition less_eq_StatementClass :: "StatementClass \<Rightarrow> StatementClass \<Rightarrow> bool" where
  "c \<le> d \<longleftrightarrow> class_number c \<le> class_number d"

definition less_StatementClass :: "StatementClass \<Rightarrow> StatementClass \<Rightarrow> bool" where
  "c < d \<longleftrightarrow> class_number c < class_number d"

instance
  by standard (auto simp: less_eq_StatementClass_def less_StatementClass_def class_number_inject)

end

primrec class_String :: "StatementClass \<Rightarrow> string" where
  "class_String StatementSelect = ''SELECT''"
| "class_String StatementInsert = ''INSERT''"
| "class_String StatementUpdate = ''UPDATE''"
| "class_String StatementDelete = ''DELETE''"
| "class_String StatementCreate = ''CREATE''"
| "class_String StatementAlter = ''ALTER''"
| "class_String StatementDrop = ''DROP''"
| "class_String StatementCall = ''CALL''"
| "class_String StatementShow = ''SHOW''"
| "class_String StatementDescribe = ''DESCRIBE''"
| "class_String StatementExplain = ''EXPLAIN''"
| "class_String StatementUse = ''USE''"
| "class_String StatementSet = ''SET''"
| "class_String StatementTruncate = ''TRUNCATE''"
| "class_String StatementOther = ''OTHER''"
| "class_String StatementUnknown = ''UNKNOWN''"

section \<open>Verbs\<close>

definition verbClass :: "string \<Rightarrow> StatementClass option" where
  "verbClass verb =
     (if verb = ''SELECT'' then Some StatementSelect
      else if verb = ''INSERT'' then Some StatementInsert
      else if verb = ''UPDATE'' then Some StatementUpdate
      else if verb = ''DELETE'' then Some StatementDelete
      else if verb = ''CREATE'' then Some StatementCreate
      else if verb = ''ALTER'' then Some StatementAlter
      else if verb = ''DROP'' then Some StatementDrop
      else if verb = ''CALL'' then Some StatementCall
      else if verb = ''SHOW'' then Some StatementShow
      else if verb = ''DESCRIBE'' \<or> verb = ''DESC'' then Some StatementDescribe
      else if verb = ''EXPLAIN'' then Some StatementExplain
      else if verb = ''USE'' then Some StatementUse
      else if verb = ''SET'' then Some StatementSet
      else if verb = ''TRUNCATE'' then Some StatementTruncate
      else None)"

text \<open>The loop that strips leading comments; \<open>None\<close> for a comment that is never closed.\<close>

function strip_comments :: "string \<Rightarrow> string option" where
  "strip_comments s =
     (if HasPrefix s ''--'' then
        (case Index s [newline] of None \<Rightarrow> None
         | Some idx \<Rightarrow> strip_comments (TrimSpace (drop (idx + 1) s)))
      else if HasPrefix s ''/*'' then
        (case Index s ''*/'' of None \<Rightarrow> None
         | Some idx \<Rightarrow> strip_comments (TrimSpace (drop (idx + 2) s)))
      else Some s)"
  by pat_completeness auto

lemma length_TrimSpace_drop:
  "HasPrefix s (c # p) \<Longrightarrow> 0 < n \<Longrightarrow> length (TrimSpace (drop n s)) < length s"
  by (rule le_less_trans [OF length_TrimSpace]) (auto simp: HasPrefix_iff)

termination strip_comments
  by (relation "measure length") (simp_all only: in_measure wf_measure length_TrimSpace_drop
      add_gr_0 zero_less_one zero_less_numeral simp_thms)

declare strip_comments.simps [simp del]

definition extractVerb :: "string \<Rightarrow> string" where
  "extractVerb sql =
     (let s = TrimSpace sql in
      if s = [] then []
      else (case strip_comments s of None \<Rightarrow> []
            | Some s' \<Rightarrow>
                concat (map (\<lambda>r. encode_rune (unicode_ToUpper r))
                  (takeWhile (\<lambda>r. \<not> unicode_IsSpace r) (runes s')))))"

section \<open>Classification\<close>

text \<open>The token loop of \<open>classifyWith\<close>; \<open>i\<close> is the index and \<open>depth\<close> the parenthesis depth.\<close>

fun with_loop :: "nat \<Rightarrow> int \<Rightarrow> string list \<Rightarrow> StatementClass" where
  "with_loop i depth [] = StatementSelect"
| "with_loop i depth (tok # toks) =
     (let up = ToUpper tok in
      if up = ''('' then with_loop (i + 1) (depth + 1) toks
      else if up = '')'' then with_loop (i + 1) (depth - 1) toks
      else if depth > 0 then with_loop (i + 1) depth toks
      else if i = 0 then with_loop (i + 1) depth toks
      else (case verbClass up of Some c \<Rightarrow> c | None \<Rightarrow> with_loop (i + 1) depth toks))"

definition classifyWith :: "string \<Rightarrow> StatementClass" where
  "classifyWith sql = with_loop 0 0 (tokenizeRaw sql)"

definition Classify :: "string \<Rightarrow> StatementClass" where
  "Classify sql =
     (let verb = extractVerb sql in
      if verb = [] then StatementUnknown
      else if verb = ''WITH'' then classifyWith sql
      else (case verbClass verb of Some c \<Rightarrow> c | None \<Rightarrow> StatementOther))"

definition IsBypass :: "StatementClass \<Rightarrow> bool" where
  "IsBypass c \<longleftrightarrow>
     (case c of StatementShow \<Rightarrow> True | StatementDescribe \<Rightarrow> True | StatementExplain \<Rightarrow> True
      | StatementUse \<Rightarrow> True | StatementSet \<Rightarrow> True | _ \<Rightarrow> False)"

definition IsMutating :: "StatementClass \<Rightarrow> bool" where
  "IsMutating c \<longleftrightarrow>
     (case c of StatementInsert \<Rightarrow> True | StatementUpdate \<Rightarrow> True | StatementDelete \<Rightarrow> True
      | StatementCreate \<Rightarrow> True | StatementAlter \<Rightarrow> True | StatementDrop \<Rightarrow> True
      | StatementTruncate \<Rightarrow> True | _ \<Rightarrow> False)"

section \<open>Names of classes\<close>

lemma verbClass_class_String:
  "verbClass (class_String c) = (if c = StatementUnknown \<or> c = StatementOther then None else Some c)"
  by (cases c) (simp_all add: verbClass_def)

lemma verbClass_Some:
  "verbClass v = Some c \<Longrightarrow> v = class_String c \<or> (v = ''DESC'' \<and> c = StatementDescribe)"
  by (auto simp: verbClass_def split: if_splits)

lemma class_String_inject: "class_String c = class_String d \<Longrightarrow> c = d"
  by (cases c; cases d; simp)

section \<open>Leading blanks and comments\<close>

definition verb_of :: "string option \<Rightarrow> string" where
  "verb_of s = (case s of None \<Rightarrow> []
     | Some s' \<Rightarrow> concat (map (\<lambda>r. encode_rune (unicode_ToUpper r))
         (takeWhile (\<lambda>r. \<not> unicode_IsSpace r) (runes s'))))"

lemma strip_comments_Nil: "strip_comments [] = Some []"
  by (simp add: strip_comments.simps)

lemma extractVerb_alt: "extractVerb sql = verb_of (strip_comments (TrimSpace sql))"
  by (simp add: extractVerb_def verb_of_def strip_comments_Nil Let_def)

text \<open>Trimming a statement whose first byte is not blank keeps that prefix.\<close>

lemma TrimSpace_append:
  assumes "is_ascii p" and "is_ascii s" and "p \<noteq> []" and "\<not> ascii_space (hd p)"
    and "\<exists>c\<in>set s. \<not> ascii_space c"
  shows "TrimSpace (p @ s) = p @ rev (dropWhile ascii_space (rev s))"
proof -
  have "dropWhile ascii_space (p @ s) = p @ s"
    using assms(3,4) by (cases p) auto
  then show ?thesis
    using assms(1,2) dropWhile_rev_append [OF assms(5), of p] by (simp add: TrimSpace_ascii)
qed

lemma TrimSpace_rtrim:
  "is_ascii s \<Longrightarrow> TrimSpace (rev (dropWhile ascii_space (rev s))) = TrimSpace s"
  by (simp add: TrimSpace_ascii is_ascii_dropWhile trim_rtrim)

lemma TrimSpace_blank: "is_ascii s \<Longrightarrow> \<forall>c\<in>set s. ascii_space c \<Longrightarrow> TrimSpace s = []"
  by (simp add: TrimSpace_ascii dropWhile_all)

lemma extractVerb_blank: "ascii_space c \<Longrightarrow> is_ascii (c # s) \<Longrightarrow> extractVerb (c # s) = extractVerb s"
  by (simp add: extractVerb_alt TrimSpace_ascii)

text \<open>
  A comment \<open>p\<close> that the loop strips from the front of any statement; \<open>p\<close> starts with a byte that is
  not blank and, on its own, is not closed when only its blank tail is missing.
\<close>

lemma extractVerb_comment:
  assumes ascii: "is_ascii p" "is_ascii s" and p: "p \<noteq> []" "\<not> ascii_space (hd p)"
    and strip: "\<And>t. strip_comments (p @ t) = strip_comments (TrimSpace t)"
    and alone: "verb_of (strip_comments (TrimSpace p)) = []"
  shows "extractVerb (p @ s) = extractVerb s"
proof (cases "\<exists>c\<in>set s. \<not> ascii_space c")
  case True
  then show ?thesis
    using TrimSpace_append [OF ascii p True] strip TrimSpace_rtrim [OF ascii(2)]
    by (simp add: extractVerb_alt)
next
  case False
  then have "dropWhile ascii_space (rev (p @ s)) = dropWhile ascii_space (rev p)"
    by (simp add: dropWhile_append_all)
  moreover have "dropWhile ascii_space (p @ s) = p @ s" and "dropWhile ascii_space p = p"
    using p by (cases p; simp)+
  ultimately have "TrimSpace (p @ s) = TrimSpace p"
    using ascii by (simp add: TrimSpace_ascii)
  moreover have "extractVerb s = []"
    using False ascii(2) by (simp add: extractVerb_alt TrimSpace_blank strip_comments_Nil verb_of_def)
  ultimately show ?thesis using alone by (simp add: extractVerb_alt)
qed

lemma space_of_marker [simp]:
  "\<not> unicode_IsSpace 42" "\<not> unicode_IsSpace 45" "\<not> unicode_IsSpace 47" "unicode_IsSpace 10"
  by (simp_all add: unicode_IsSpace_def)

lemma strip_line_comment:
  assumes "newline \<notin> set c"
  shows "strip_comments ((''--'' @ c @ [newline]) @ t) = strip_comments (TrimSpace t)"
  using Index_single [of newline "''--'' @ c" t] assms
  by (subst strip_comments.simps) simp

lemma Index_close:
  "Index (x # c) ''*/'' = None \<Longrightarrow> Index (x # c @ ''*/'' @ t) ''*/'' = Some (Suc (length c))"
proof (induction c arbitrary: x)
  case (Cons y c)
  from Cons.prems have "Index (y # c) ''*/'' = None" and head: "\<not> (x = CHR ''*'' \<and> y = CHR ''/'')"
    by (auto simp: Index.simps(2) [of x] simp del: Index.simps split: if_splits)
  then have "Index (y # c @ ''*/'' @ t) ''*/'' = Some (Suc (length c))"
    by (intro Cons.IH)
  with head show ?case by (auto simp: Index.simps(2) [of x] simp del: Index.simps)
qed simp

lemma strip_block_comment:
  assumes "Index (''*'' @ c) ''*/'' = None"
  shows "strip_comments ((''/*'' @ c @ ''*/'') @ t) = strip_comments (TrimSpace t)"
proof -
  have "Index ((''/*'' @ c @ ''*/'') @ t) ''*/'' = Some (length c + 2)"
    using Index_close [of "CHR ''*''" c t] assms by simp
  then show ?thesis by (subst strip_comments.simps) simp
qed

lemma TrimSpace_line_comment:
  assumes "is_ascii c"
  shows "TrimSpace (''--'' @ c @ [newline]) = ''--'' @ rev (dropWhile ascii_space (rev c))"
  using assms dropWhile_snoc [of ascii_space "CHR ''-''" "rev c @ ''-''"]
    dropWhile_snoc [of ascii_space "CHR ''-''" "rev c"]
  by (simp add: TrimSpace_ascii)

lemma extractVerb_line_comment:
  assumes "is_ascii c" and "is_ascii s" and "newline \<notin> set c"
  shows "extractVerb (''--'' @ c @ newline # s) = extractVerb s"
proof -
  have "newline \<notin> set (rev (dropWhile ascii_space (rev c)))"
    using assms(3) by (auto dest: set_dropWhileD)
  then have "strip_comments (TrimSpace (''--'' @ c @ [newline])) = None"
    unfolding TrimSpace_line_comment [OF assms(1)]
    by (subst strip_comments.simps) (simp add: Index_single_None)
  then have "extractVerb ((''--'' @ c @ [newline]) @ s) = extractVerb s"
    using assms by (intro extractVerb_comment strip_line_comment) (simp_all add: verb_of_def)
  then show ?thesis by simp
qed

lemma extractVerb_block_comment:
  assumes "is_ascii c" and "is_ascii s" and "Index (''*'' @ c) ''*/'' = None"
  shows "extractVerb (''/*'' @ c @ ''*/'' @ s) = extractVerb s"
proof -
  have "TrimSpace (''/*'' @ c @ ''*/'') = ''/*'' @ c @ ''*/''"
    using assms(1) by (simp add: TrimSpace_ascii)
  then have "strip_comments (TrimSpace (''/*'' @ c @ ''*/'')) = Some []"
    using strip_block_comment [OF assms(3), of "[]"] by (simp add: TrimSpace_ascii strip_comments_Nil)
  then have "extractVerb ((''/*'' @ c @ ''*/'') @ s) = extractVerb s"
    using assms by (intro extractVerb_comment strip_block_comment) (simp_all add: verb_of_def)
  then show ?thesis by simp
qed

lemma Index_star: "Index (''*'' @ c) ''*/'' = None \<Longrightarrow> Index c ''*/'' = None"
  by (simp split: if_splits)

text \<open>C35. Comments in front of a statement do not change its class: a line comment up to its newline,
  and a block comment whose body neither closes early nor starts with a slash, are invisible to
  \<open>Classify\<close> (ASCII statements).\<close>

theorem Classify_skips_comments:
  assumes "is_ascii c" and "is_ascii s"
  shows "(newline \<notin> set c \<longrightarrow> Classify (''--'' @ c @ newline # s) = Classify s) \<and>
    (Index (''*'' @ c) ''*/'' = None \<longrightarrow> Classify (''/*'' @ c @ ''*/'' @ s) = Classify s)"
proof (intro conjI impI)
  show "Classify (''--'' @ c @ newline # s) = Classify s" if "newline \<notin> set c"
    unfolding Classify_def classifyWith_def tokenizeRaw_def tokenize_loop_lex
      extractVerb_line_comment [OF assms that] lex_line_comment [OF that] by (rule refl)
  show "Classify (''/*'' @ c @ ''*/'' @ s) = Classify s" if "Index (''*'' @ c) ''*/'' = None"
    unfolding Classify_def classifyWith_def tokenizeRaw_def tokenize_loop_lex
      extractVerb_block_comment [OF assms that] lex_block_comment [OF Index_star [OF that]] by (rule refl)
qed

lemma Classify_skips_comments_witness:
  "Classify (''--'' @ ''show'' @ newline # ''DROP TABLE t'') = Classify ''DROP TABLE t''"
  using Classify_skips_comments [of "''show''" "''DROP TABLE t''"] by (simp add: is_ascii_def)

section \<open>The outermost verb behind a CTE block\<close>

fun paren_depth :: "string list \<Rightarrow> int" where
  "paren_depth [] = 0"
| "paren_depth (t # ts) =
     (if ToUpper t = ''('' then 1 else if ToUpper t = '')'' then -1 else 0) + paren_depth ts"

definition verb_at :: "string list \<Rightarrow> int \<Rightarrow> nat \<Rightarrow> bool" where
  "verb_at toks d k \<longleftrightarrow> d + paren_depth (take k toks) \<le> 0 \<and> verbClass (ToUpper (toks ! k)) \<noteq> None"

definition outermost_class :: "string list \<Rightarrow> int \<Rightarrow> nat \<Rightarrow> StatementClass" where
  "outermost_class toks d n =
     (case List.find (verb_at toks d) [n..<length toks] of None \<Rightarrow> StatementSelect
      | Some k \<Rightarrow> the (verbClass (ToUpper (toks ! k))))"

lemma verbClass_paren [simp]: "verbClass ''('' = None" "verbClass '')'' = None"
  by (simp_all add: verbClass_def)

lemma find_map: "List.find P (map f xs) = map_option f (List.find (P \<circ> f) xs)"
  by (induction xs) auto

lemma outermost_class_Cons:
  "outermost_class (t # ts) d 0 =
     (if d \<le> 0 \<and> verbClass (ToUpper t) \<noteq> None then the (verbClass (ToUpper t))
      else outermost_class ts (d + paren_depth [t]) 0)"
proof -
  have shift: "verb_at (t # ts) d \<circ> Suc = verb_at ts (d + paren_depth [t])"
    by (auto simp: verb_at_def fun_eq_iff)
  have "[0..<length (t # ts)] = 0 # map Suc [0..<length ts]"
    by (simp add: upt_conv_Cons map_Suc_upt del: upt_Suc)
  then show ?thesis
    by (auto simp: outermost_class_def verb_at_def find_map shift option.case_eq_if simp del: upt_Suc)
qed

lemma outermost_class_Cons_Suc:
  "outermost_class (t # ts) d (Suc 0) = outermost_class ts (d + paren_depth [t]) 0"
proof -
  have shift: "verb_at (t # ts) d \<circ> Suc = verb_at ts (d + paren_depth [t])"
    by (auto simp: verb_at_def fun_eq_iff)
  have "[Suc 0..<length (t # ts)] = map Suc [0..<length ts]"
    by (simp add: map_Suc_upt)
  then show ?thesis
    by (auto simp: outermost_class_def find_map shift option.case_eq_if simp del: upt_Suc)
qed

lemma with_loop_outermost: "with_loop (Suc i) d toks = outermost_class toks d 0"
proof (induction toks arbitrary: i d)
  case Nil
  show ?case by (simp add: outermost_class_def)
next
  case (Cons t ts)
  then show ?case
    by (auto simp: outermost_class_Cons Let_def split: option.split)
qed

text \<open>C36. \<open>classifyWith\<close> returns the class of the first statement verb behind the first token that
  stands at parenthesis depth zero or below, and SELECT when there is none.\<close>

theorem classifyWith_outermost_verb:
  assumes "tokenizeRaw sql = t # ts" and "paren_depth [t] = 0"
  shows "classifyWith sql =
    (case List.find (\<lambda>k. paren_depth (take k (t # ts)) \<le> 0 \<and> verbClass (ToUpper ((t # ts) ! k)) \<noteq> None)
            [1..<length (t # ts)] of
       None \<Rightarrow> StatementSelect
     | Some k \<Rightarrow> the (verbClass (ToUpper ((t # ts) ! k))))"
proof -
  have "classifyWith sql = outermost_class (t # ts) 0 (Suc 0)"
    using assms by (auto simp: classifyWith_def with_loop_outermost outermost_class_Cons_Suc Let_def
        split: if_splits)
  then show ?thesis by (simp add: outermost_class_def verb_at_def [abs_def])
qed

lemma demo_with_tokens:
  "tokenizeRaw ''WITH a AS (SELECT b) DELETE'' =
    [''WITH'', ''a'', ''AS'', ''('', ''SELECT'', ''b'', '')'', ''DELETE'']"
  by (simp add: tokenizeRaw_def tokenize_loop_lex go_eval)

lemma classifyWith_outermost_verb_witness: "classifyWith ''WITH a AS (SELECT b) DELETE'' = StatementDelete"
proof -
  have "paren_depth [''WITH''] = 0" by (simp add: go_eval)
  from classifyWith_outermost_verb [OF demo_with_tokens this]
  show ?thesis by (simp add: go_eval verbClass_def)
qed

section \<open>Statements that start with a verb\<close>

lemma strip_comments_word:
  "w \<noteq> [] \<Longrightarrow> hd w \<noteq> CHR ''-'' \<Longrightarrow> hd w \<noteq> CHR ''/'' \<Longrightarrow> strip_comments (w @ s) = Some (w @ s)"
  by (cases w) (simp_all add: strip_comments.simps)

lemma map_takeWhile_nonspace:
  assumes "\<forall>c\<in>set w. \<not> ascii_space c"
  shows "takeWhile (\<lambda>r. \<not> unicode_IsSpace r) (map byte_val w) = map byte_val w"
    and "ascii_space b \<Longrightarrow>
      takeWhile (\<lambda>r. \<not> unicode_IsSpace r) (map byte_val (w @ b # t)) = map byte_val w"
  using assms by (induction w) auto

text \<open>The first word of a statement, up to white space, is its verb.\<close>

lemma extractVerb_word:
  assumes w: "w \<noteq> []" "is_ascii w" "\<forall>c\<in>set w. \<not> ascii_space c"
      "hd w \<noteq> CHR ''-''" "hd w \<noteq> CHR ''/''"
    and s: "is_ascii s" "ascii_space b" "byte_val b < 128"
  shows "extractVerb (w @ b # s) = ToUpper w" and "extractVerb w = ToUpper w"
proof -
  have hd: "\<not> ascii_space (hd w)" using w by (cases w) auto
  have "dropWhile ascii_space (rev w) = rev w"
    using w by (simp add: dropWhile_eq_self_iff hd_rev)
  moreover have "dropWhile ascii_space w = w"
    using hd by (simp add: dropWhile_eq_self_iff)
  ultimately have "TrimSpace w = w"
    using w by (simp add: TrimSpace_ascii)
  then show "extractVerb w = ToUpper w"
    using w strip_comments_word [of w "[]"] concat_upper_ascii [of w]
    by (simp add: extractVerb_alt verb_of_def runes_ascii map_takeWhile_nonspace(1))
  show "extractVerb (w @ b # s) = ToUpper w"
  proof (cases "\<exists>c\<in>set s. \<not> ascii_space c")
    case True
    then have "\<exists>c\<in>set (b # s). \<not> ascii_space c" by simp
    moreover have "rev (dropWhile ascii_space (rev (b # s))) = b # rev (dropWhile ascii_space (rev s))"
      using True by (auto simp: dropWhile_snoc_if)
    ultimately have "TrimSpace (w @ b # s) = w @ b # rev (dropWhile ascii_space (rev s))"
      using TrimSpace_append [of w "b # s"] w s hd by simp
    moreover have "is_ascii (w @ b # rev (dropWhile ascii_space (rev s)))"
      using w s by (simp add: is_ascii_dropWhile)
    ultimately show ?thesis
      using w s strip_comments_word [of w] concat_upper_ascii [of w] map_takeWhile_nonspace(2) [OF w(3) s(2)]
      by (simp add: extractVerb_alt verb_of_def runes_ascii)
  next
    case False
    then have "dropWhile ascii_space (rev (w @ b # s)) = dropWhile ascii_space (rev w)"
      using s by (simp add: dropWhile_append_all)
    moreover have "dropWhile ascii_space (w @ b # s) = w @ b # s" and "dropWhile ascii_space w = w"
      using w hd by (cases w; simp)+
    ultimately have "TrimSpace (w @ b # s) = TrimSpace w"
      using w s by (simp add: TrimSpace_ascii)
    then show ?thesis
      using \<open>extractVerb w = ToUpper w\<close> by (simp add: extractVerb_alt)
  qed
qed

text \<open>A statement whose first word is a verb of the table, in any case, has the class of that verb,
  whatever follows the white space behind it.\<close>

lemma Classify_first_word:
  assumes "is_ascii w" and "is_ascii s" and "ascii_space b" and "byte_val b < 128"
    and "\<forall>c\<in>set w. \<not> ascii_space c" and "verbClass (ToUpper w) = Some c"
  shows "Classify (w @ b # s) = c"
proof -
  have up: "ToUpper w = map ascii_upper w" using assms(1) by (simp add: ToUpper_ascii)
  have ne: "w \<noteq> []" and nowith: "ToUpper w \<noteq> ''WITH''"
    using assms(6) by (auto simp: up verbClass_def)
  have "hd (ToUpper w) \<in> set ''SIUDCAET''"
    using assms(6) by (auto simp: verbClass_def split: if_splits)
  then have "ascii_upper (hd w) \<in> set ''SIUDCAET''"
    using up ne by (simp add: hd_map)
  then have "hd w \<noteq> CHR ''-'' \<and> hd w \<noteq> CHR ''/''"
    by (auto simp: ascii_upper_def)
  then have "extractVerb (w @ b # s) = ToUpper w"
    using assms ne by (intro extractVerb_word) auto
  then show ?thesis using nowith ne assms(6) by (simp add: Classify_def up)
qed

section \<open>Limits of the classification\<close>

lemmas classify_eval = go_eval Classify_def extractVerb_def strip_comments.simps runes_ascii encode_rune_def
  unicode_ToUpper_def verbClass_def

text \<open>
  The verb is the first run of non-blank bytes, so punctuation sticks to it: a SELECT without a blank behind
  the verb, or in parentheses, has the class OTHER and is never costed.
\<close>

lemma glued_select_is_other:
  "Classify ''SELECT* FROM t'' = StatementOther" "Classify ''(SELECT a FROM t)'' = StatementOther"
  by (simp_all add: classify_eval)

text \<open>The name of a CTE can pass for the verb, and EXPLAIN ANALYZE, which runs its statement, is a bypass class.\<close>

lemma named_cte_is_bypass: "Classify ''WITH show AS (SELECT a) DELETE FROM t'' = StatementShow"
proof -
  have "tokenizeRaw ''WITH show AS (SELECT a) DELETE FROM t'' =
      [''WITH'', ''show'', ''AS'', ''('', ''SELECT'', ''a'', '')'', ''DELETE'', ''FROM'', ''t'']"
    by (simp add: tokenizeRaw_def tokenize_loop_lex go_eval)
  then have "classifyWith ''WITH show AS (SELECT a) DELETE FROM t'' = StatementShow"
    by (simp add: classifyWith_def with_loop_outermost go_eval verbClass_def)
  then show ?thesis by (simp add: classify_eval)
qed

lemma explain_analyze_is_bypass: "IsBypass (Classify ''EXPLAIN ANALYZE DELETE FROM t'')"
  by (simp add: classify_eval IsBypass_def)

end
