(* ===== verification/Parser_Tables.thy ===== *)
theory Parser_Tables
  imports Parser_Tokenizer
begin

text \<open>
  The raw table scanner of \<open>internal/parser/tables.go\<close>: the names behind FROM, INTO, TABLE, UPDATE
  and the JOIN variants, read from the tokens of the original statement.  The Go map \<open>seen\<close> holds
  exactly the elements of the slice \<open>tables\<close>, so membership in \<open>tables\<close> stands for it; \<open>skipSet\<close> is
  the set of upper-cased CTE aliases.  \<open>candidate\<close> is the declarative reading of one position, and
  \<open>extractTableNamesRaw\<close> is shown to return the candidates in order of first occurrence.
\<close>

section \<open>Keywords and joins\<close>

definition isKeyword :: "string \<Rightarrow> bool" where
  "isKeyword upper \<longleftrightarrow> upper \<in> set [
     ''SELECT'', ''WHERE'', ''AND'', ''OR'', ''NOT'', ''IN'', ''IS'', ''NULL'',
     ''AS'', ''ON'', ''SET'', ''VALUES'', ''GROUP'', ''ORDER'', ''BY'', ''HAVING'',
     ''LIMIT'', ''OFFSET'', ''UNION'', ''ALL'', ''DISTINCT'', ''CASE'', ''WHEN'',
     ''THEN'', ''ELSE'', ''END'', ''EXISTS'', ''BETWEEN'', ''LIKE'', ''AT'',
     ''WITH'', ''RECURSIVE'', ''TABLE'', ''FROM'', ''INTO'', ''JOIN'', ''LEFT'',
     ''RIGHT'', ''INNER'', ''OUTER'', ''CROSS'', ''FULL'', ''NATURAL'', ''LATERAL'',
     ''USING'', ''EXCEPT'', ''INTERSECT'', ''MINUS'', ''FOR'', ''DESC'', ''ASC'',
     ''TRUE'', ''FALSE'', ''TIMESTAMP'', ''DATE'', ''TIME'', ''INTERVAL'',
     ''CAST'', ''TRY_CAST'', ''ROW'', ''ARRAY'', ''MAP'', ''STRUCT'',
     ''CREATE'', ''ALTER'', ''DROP'', ''TRUNCATE'', ''INSERT'', ''UPDATE'', ''DELETE'',
     ''REPLACE'', ''MERGE'', ''CALL'', ''SHOW'', ''DESCRIBE'', ''EXPLAIN'',
     ''USE'', ''GRANT'', ''REVOKE'', ''COMMIT'', ''ROLLBACK'', ''BEGIN'',
     ''START'', ''TRANSACTION'', ''SESSION'', ''UNNEST'']"

definition isJoinPrefix :: "string \<Rightarrow> bool" where
  "isJoinPrefix upper \<longleftrightarrow> upper \<in> set [
     ''JOIN'', ''LEFT'', ''RIGHT'', ''FULL'', ''INNER'', ''CROSS'', ''NATURAL'', ''LATERAL'']"

text \<open>The index of the table name behind a join prefix; 0 when there is none.\<close>

definition findJoinIdx :: "string list \<Rightarrow> nat \<Rightarrow> nat" where
  "findJoinIdx tokens i =
     (let upper = ToUpper (tokens ! i) in
      if upper = ''JOIN'' \<or> upper = ''LATERAL'' then i + 1
      else if upper = ''LEFT'' \<or> upper = ''RIGHT'' \<or> upper = ''FULL'' then
        (if i + 2 < length tokens \<and> ToUpper (tokens ! (i + 2)) = ''JOIN'' then
           (if i + 1 < length tokens \<and> ToUpper (tokens ! (i + 1)) = ''OUTER'' then i + 3
            else i + 2)
         else 0)
      else if upper = ''INNER'' \<or> upper = ''CROSS'' \<or> upper = ''NATURAL'' then
        (if i + 1 < length tokens \<and> ToUpper (tokens ! (i + 1)) = ''JOIN'' then i + 2 else 0)
      else 0)"

section \<open>The scanner\<close>

definition skip_set :: "string list \<Rightarrow> string set" where
  "skip_set skipAliases = set (map ToUpper skipAliases)"

definition from_prefix :: "string \<Rightarrow> bool" where
  "from_prefix upper \<longleftrightarrow> upper = ''FROM'' \<or> upper = ''INTO'' \<or> upper = ''TABLE'' \<or> upper = ''UPDATE''"

text \<open>\<open>if !seen[next] { seen[next] = true; tables = append(tables, next) }\<close>\<close>

definition add_table :: "string \<Rightarrow> string list \<Rightarrow> string list" where
  "add_table t tables = (if t \<in> set tables then tables else tables @ [t])"

text \<open>
  One iteration of the token loop.  Every path through the body of the inner loop over \<open>j\<close> ends in
  \<open>break\<close>, so it looks at the token \<open>i + 1\<close> only.
\<close>

definition scan_step :: "string list \<Rightarrow> string set \<Rightarrow> string list \<Rightarrow> nat \<Rightarrow> string list" where
  "scan_step tokens skip tables i =
     (let upper = ToUpper (tokens ! i) in
      if from_prefix upper then
        (if i + 1 < length tokens then
           (let next = tokens ! (i + 1) in
            if next = '','' \<or> next = ''('' \<or> next = '')'' \<or> next = '';'' then tables
            else if next = [] \<or> isKeyword (ToUpper next) then tables
            else if ToUpper next \<in> skip then tables
            else add_table next tables)
         else tables)
      else if isJoinPrefix upper then
        (let joinIdx = findJoinIdx tokens i in
         if 0 < joinIdx \<and> joinIdx < length tokens then
           (let next = tokens ! joinIdx in
            if \<not> isKeyword (ToUpper next) \<and> ToUpper next \<notin> skip then add_table next tables
            else tables)
         else tables)
      else tables)"

definition extractTableNamesRaw :: "string \<Rightarrow> string list \<Rightarrow> string list" where
  "extractTableNamesRaw sql skipAliases =
     (let tokens = tokenizeRaw sql; skip = skip_set skipAliases
      in foldl (scan_step tokens skip) [] [0..<length tokens])"

section \<open>The names the scanner reports\<close>

text \<open>The token that position \<open>i\<close> introduces as a table name, if any.\<close>

definition name_pos :: "string list \<Rightarrow> nat \<Rightarrow> nat" where
  "name_pos tokens i =
     (if from_prefix (ToUpper (tokens ! i)) then i + 1
      else if isJoinPrefix (ToUpper (tokens ! i)) then findJoinIdx tokens i
      else 0)"

definition table_token :: "string set \<Rightarrow> bool \<Rightarrow> string \<Rightarrow> bool" where
  "table_token skip behind_from t \<longleftrightarrow>
     \<not> isKeyword (ToUpper t) \<and> ToUpper t \<notin> skip \<and>
     \<not> (behind_from \<and> t \<in> {[], '','', ''('', '')'', '';''})"

definition candidate :: "string list \<Rightarrow> string set \<Rightarrow> nat \<Rightarrow> string option" where
  "candidate tokens skip i =
     (if 0 < name_pos tokens i \<and> name_pos tokens i < length tokens \<and>
         table_token skip (from_prefix (ToUpper (tokens ! i))) (tokens ! name_pos tokens i)
      then Some (tokens ! name_pos tokens i) else None)"

definition candidates :: "string list \<Rightarrow> string set \<Rightarrow> string list" where
  "candidates tokens skip = List.map_filter (candidate tokens skip) [0..<length tokens]"

lemma scan_step_candidate:
  "scan_step tokens skip tables i =
     (case candidate tokens skip i of None \<Rightarrow> tables | Some t \<Rightarrow> add_table t tables)"
  by (auto simp: scan_step_def candidate_def name_pos_def table_token_def Let_def)

lemma foldl_scan_step:
  "foldl (scan_step tokens skip) tables is =
     foldl (\<lambda>ts t. add_table t ts) tables (List.map_filter (candidate tokens skip) is)"
  by (induction "is" arbitrary: tables)
    (auto simp: scan_step_candidate map_filter_simps split: option.split)

lemma foldl_add_table:
  "foldl (\<lambda>ts t. add_table t ts) tables cs = tables @ filter (\<lambda>t. t \<notin> set tables) (rev (remdups (rev cs)))"
proof (induction cs arbitrary: tables rule: rev_induct)
  case Nil
  show ?case by simp
next
  case (snoc c cs)
  then show ?case by (auto simp: add_table_def)
qed

lemma extractTableNamesRaw_candidates:
  "extractTableNamesRaw sql skipAliases =
     rev (remdups (rev (candidates (tokenizeRaw sql) (skip_set skipAliases))))"
  by (simp add: extractTableNamesRaw_def Let_def foldl_scan_step foldl_add_table candidates_def)

lemma set_candidates:
  "set (candidates tokens skip) = {t. \<exists>i<length tokens. candidate tokens skip i = Some t}"
  by (force simp: candidates_def List.map_filter_def image_iff)

lemma findJoinIdx_shift:
  "findJoinIdx (t # ts) (Suc i) = (if findJoinIdx ts i = 0 then 0 else Suc (findJoinIdx ts i))"
  by (simp add: findJoinIdx_def Let_def)

lemma candidate_shift: "candidate (t # ts) skip (Suc i) = candidate ts skip i"
  by (simp add: candidate_def name_pos_def findJoinIdx_shift)

lemma map_filter_map: "List.map_filter f (map g xs) = List.map_filter (f \<circ> g) xs"
  by (induction xs) (auto simp: map_filter_simps split: option.split)

lemma candidates_simps:
  "candidates [] skip = []"
  "candidates (t # ts) skip =
     (case candidate (t # ts) skip 0 of None \<Rightarrow> candidates ts skip | Some x \<Rightarrow> x # candidates ts skip)"
proof -
  show "candidates [] skip = []" by (simp add: candidates_def map_filter_simps)
  have "[0..<length (t # ts)] = 0 # map Suc [0..<length ts]"
    by (simp add: upt_conv_Cons map_Suc_upt del: upt_Suc)
  moreover have "List.map_filter (candidate (t # ts) skip) (map Suc [0..<length ts]) = candidates ts skip"
    by (simp add: candidates_def map_filter_map candidate_shift comp_def)
  ultimately show "candidates (t # ts) skip =
     (case candidate (t # ts) skip 0 of None \<Rightarrow> candidates ts skip | Some x \<Rightarrow> x # candidates ts skip)"
    by (simp add: candidates_def [of "t # ts"] map_filter_simps del: upt_Suc split: option.split)
qed

lemmas candidates_eval = candidates_simps candidate_def name_pos_def table_token_def from_prefix_def isJoinPrefix_def
  isKeyword_def findJoinIdx_def skip_set_def


lemma demo_tables_tokens: "tokenizeRaw ''INSERT INTO t SELECT a'' = [''INSERT'', ''INTO'', ''t'', ''SELECT'', ''a'']"
  by (simp add: tokenizeRaw_def tokenize_loop_lex go_eval)


section \<open>Statements written as words\<close>

lemma tables_lex:
  "lex_sql s = lex_sql t \<Longrightarrow> extractTableNamesRaw s al = extractTableNamesRaw t al"
  by (simp add: extractTableNamesRaw_def tokenizeRaw_def tokenize_loop_lex)

text \<open>A name behind FROM, INTO, TABLE or UPDATE is always found: in a statement that starts with
  any words \<open>ws\<close>, one of these four and a name that is neither reserved nor a CTE alias, the name is
  in the table list, whatever the rest of the statement holds.\<close>

lemma extractTableNamesRaw_finds:
  assumes "list_all plain_token ws" and "plain_token k" and "from_prefix (ToUpper k)"
    and "is_name t" and "\<not> isKeyword (ToUpper t)" and "ToUpper t \<notin> skip_set aliases"
  shows "t \<in> set (extractTableNamesRaw (words (ws @ [k, t]) @ s) aliases)"
proof -
  have toks: "tokenizeRaw (words (ws @ [k, t]) @ s) = ws @ k # t # lex_sql s"
    using lex_words [of "ws @ [k, t]" s] assms(1,2,4)
    by (simp add: tokenizeRaw_def tokenize_loop_lex plain_token_def)
  have "t \<noteq> []" and "t \<notin> {'','', ''('', '')'', '';''}"
    using assms(4) by (auto simp: is_name_def isIdentStart_def latin1_IsLetter_def)
  then have "candidate (ws @ k # t # lex_sql s) (skip_set aliases) (length ws) = Some t"
    using assms(3,5,6) by (simp add: candidate_def name_pos_def table_token_def nth_append)
  then show ?thesis
    by (auto simp: extractTableNamesRaw_candidates set_candidates toks
        intro!: exI [where x = "length ws"])
qed

lemma extractTableNamesRaw_finds_witness:
  "''web.t'' \<in> set (extractTableNamesRaw (words ([''SELECT'', ''a''] @ [''from'', ''web.t'']) @ '', (x'') [''cte''])"
  by (rule extractTableNamesRaw_finds)
    (simp_all add: plain_token_def is_name_def from_prefix_def isKeyword_def skip_set_def go_eval)



section \<open>Limits of the scanner\<close>

lemma prefix_isKeyword:
  "from_prefix u \<Longrightarrow> isKeyword u" "isJoinPrefix u \<Longrightarrow> isKeyword u"
  by (auto simp: from_prefix_def isJoinPrefix_def isKeyword_def)

lemma candidate_not_keyword:
  "\<not> isKeyword (ToUpper t) \<Longrightarrow> candidate (t # ts) skip 0 = None"
  using prefix_isKeyword by (auto simp: candidate_def name_pos_def)

lemma comma_tokens:
  assumes "is_name a" and "is_name b"
  shows "tokenizeRaw (words [''SELECT'', ''*'', ''FROM''] @ a @ '', '' @ b)
    = [''SELECT'', ''*'', ''FROM'', a, '','', b]"
proof -
  have "is_name ''SELECT''" and "is_name ''FROM''" and "is_punct (CHR ''*'')"
    by (simp_all add: is_name_def lex_eval)
  then have "lex_sql (words [''SELECT'', ''*'', ''FROM''] @ a @ '', '' @ b)
      = [''SELECT'', ''*'', ''FROM''] @ lex_sql (a @ '', '' @ b)"
    by (intro lex_words) (simp add: plain_token_def)
  moreover have "\<not> isIdentPart (CHR '','')" and "is_punct (CHR '','')"
    by (simp_all add: lex_eval)
  then have "lex_sql (a @ CHR '','' # CHR '' '' # b) = [a, '','', b]"
    using assms by (simp add: lex_name lex_punct lex_blank lex_name_end is_blank_def starts2_def)
  ultimately show ?thesis by (simp add: tokenizeRaw_def tokenize_loop_lex)
qed

lemma not_keyword_punct: "\<not> isKeyword (ToUpper ''*'')" "\<not> isKeyword (ToUpper '','')"
  by (simp_all add: go_eval isKeyword_def)

text \<open>Only the first table of a comma-separated FROM list is reported: the second table of
  \<open>SELECT * FROM a, b\<close> never reaches the blocklists.\<close>

lemma extractTableNamesRaw_comma_join:
  assumes "is_name a" and "is_name b" and "\<not> isKeyword (ToUpper a)" and "\<not> isKeyword (ToUpper b)"
  shows "extractTableNamesRaw (''SELECT * FROM '' @ a @ '', '' @ b) [] = [a]"
proof -
  have from_upper: "ToUpper ''FROM'' = ''FROM''" and "ToUpper ''SELECT'' = ''SELECT''"
    by (simp_all add: go_eval)
  have "a \<noteq> [] \<and> a \<notin> {'','', ''('', '')'', '';''}"
    using assms(1) by (auto simp: is_name_def isIdentStart_def latin1_IsLetter_def)
  then have "candidate [''FROM'', a, '','', b] {} 0 = Some a"
    using assms(3) by (simp add: candidate_def name_pos_def table_token_def from_upper from_prefix_def)
  moreover have "candidate (''SELECT'' # ts) {} 0 = None" for ts
    by (simp add: candidate_def name_pos_def \<open>ToUpper ''SELECT'' = ''SELECT''\<close> from_prefix_def isJoinPrefix_def)
  ultimately have "candidates [''SELECT'', ''*'', ''FROM'', a, '','', b] {} = [a]"
    using assms(3,4) by (simp add: candidates_simps candidate_not_keyword not_keyword_punct)
  then show ?thesis
    using comma_tokens [OF assms(1,2)] by (simp add: extractTableNamesRaw_candidates skip_set_def)
qed

lemma extractTableNamesRaw_comma_join_witness:
  "extractTableNamesRaw (''SELECT * FROM '' @ ''clicks'' @ '', '' @ ''secret.keys'') [] = [''clicks'']"
  by (rule extractTableNamesRaw_comma_join) (simp_all add: is_name_def isKeyword_def go_eval)

text \<open>Three more shapes the scanner does not see through.\<close>

lemma drop_if_exists_tokens:
  "tokenizeRaw ''DROP TABLE IF EXISTS lineitem'' = [''DROP'', ''TABLE'', ''IF'', ''EXISTS'', ''lineitem'']"
  by (simp add: tokenizeRaw_def tokenize_loop_lex go_eval)

lemma drop_if_exists_misses_table:
  "extractTableNamesRaw ''DROP TABLE IF EXISTS lineitem'' [] = [''IF'']"
  by (simp add: extractTableNamesRaw_candidates drop_if_exists_tokens candidates_eval go_eval)

text \<open>A string literal that ends in a backslash, which SQL does not escape, hides what follows it.\<close>

lemma backslash_hides_tables:
  "tokenizeRaw (''SELECT '' @ [squote, bslash, squote] @ '' FROM keys'') = [''SELECT'', [squote]]"
  "extractTableNamesRaw (''SELECT '' @ [squote, bslash, squote] @ '' FROM keys'') [] = []"
proof -
  show toks: "tokenizeRaw (''SELECT '' @ [squote, bslash, squote] @ '' FROM keys'') = [''SELECT'', [squote]]"
    by (simp add: tokenizeRaw_def tokenize_loop_lex go_eval)
  show "extractTableNamesRaw (''SELECT '' @ [squote, bslash, squote] @ '' FROM keys'') [] = []"
    by (simp only: extractTableNamesRaw_candidates toks) (simp add: candidates_eval go_eval)
qed

end
