(* ===== verification/Parser_Normalize.thy ===== *)
theory Parser_Normalize
  imports Parser_Tokenizer
begin

text \<open>
  \<open>internal/parser/normalize.go\<close>: the rewriting of three-part names (\<open>catalog.schema.table\<close>) to
  two-part names before the statement is handed to the vitess parser.  As in the tokenizer, the index
  \<open>i\<close> is the suffix it points at; the bytes an inner loop writes while \<open>i\<close> moves from the suffix
  \<open>s\<close> to the suffix \<open>rest\<close> are \<open>copied s rest\<close>.  The main fact relates the two scanners: the
  tokens of the normalised text are the tokens of the original with each catalog stripped.
\<close>

section \<open>Definitions\<close>

definition copied :: "string \<Rightarrow> string \<Rightarrow> string" where
  "copied s rest = take (length s - length rest) s"

text \<open>
  The block-comment loop of the normaliser: without a closing marker it stops before the last byte,
  which the main loop then handles like any other byte.
\<close>

fun pass_block :: "string \<Rightarrow> string" where
  "pass_block (c # d # r) =
     (if c = CHR ''*'' \<and> d = CHR ''/'' then r else pass_block (d # r))"
| "pass_block s = s"

text \<open>Strip the first component of a segment with at least two dots.\<close>

definition strip_segment :: "string \<Rightarrow> string" where
  "strip_segment segment =
     (if 2 \<le> count_list segment (CHR ''.'')
      then drop 1 (dropWhile (\<lambda>c. c \<noteq> CHR ''.'') segment) else segment)"

lemma length_pass_block: "length (pass_block s) \<le> length s"
  by (induction s rule: pass_block.induct) auto

lemma length_pass_block_drop: "length (pass_block (drop n r)) < Suc (length r)"
  using length_pass_block [of "drop n r"] by simp

lemma length_skip_line_drop: "length (skip_line (drop n r)) < Suc (length r)"
  using length_skip_line [of "drop n r"] by simp

function normalizeForVitess :: "string \<Rightarrow> string" where
  "normalizeForVitess [] = []"
| "normalizeForVitess (ch # r) =
     (if ch = squote then
        copied (ch # r) (skip_string r) @ normalizeForVitess (skip_string r)
      else if ch = dquote \<or> ch = bquote then
        copied (ch # r) (drop 1 (dropWhile (\<lambda>c. c \<noteq> ch) r))
          @ normalizeForVitess (drop 1 (dropWhile (\<lambda>c. c \<noteq> ch) r))
      else if starts2 (CHR ''-'') (CHR ''-'') (ch # r) then
        copied (ch # r) (skip_line (drop 1 r)) @ normalizeForVitess (skip_line (drop 1 r))
      else if starts2 (CHR ''/'') (CHR ''*'') (ch # r) then
        copied (ch # r) (pass_block (drop 1 r)) @ normalizeForVitess (pass_block (drop 1 r))
      else if isIdentStart ch then
        strip_segment (takeWhile (\<lambda>c. isIdentPart c \<or> c = CHR ''.'') (ch # r))
          @ normalizeForVitess (dropWhile (\<lambda>c. isIdentPart c \<or> c = CHR ''.'') (ch # r))
      else ch # normalizeForVitess r)"
  by pat_completeness auto

termination normalizeForVitess
  by (relation "measure length")
    (simp_all only: in_measure split_conv length_dropWhile_ident length_pass_block_drop
       length_skip_line_drop length_skip_string_less length_drop_dropWhile list.size add_0_right
       add_Suc_right lessI wf_measure)

declare normalizeForVitess.simps [simp del]

section \<open>Scanners return suffixes\<close>

text \<open>
  Each scanner splits its input into the part it passes and the suffix it returns, and it passes the
  same part in front of another suffix.
\<close>

lemma copied_split: "copied (w @ rest) rest = w"
  by (simp add: copied_def)

lemma copied_Cons_split: "s = w @ rest \<Longrightarrow> copied (c # s) rest = c # w"
  using copied_split [of "c # w" rest] by simp

lemma copied_Cons: "length rest \<le> length r \<Longrightarrow> copied (c # r) rest = c # copied r rest"
  by (simp add: copied_def Suc_diff_le)

lemma skip_string_frame:
  "\<exists>w. s = w @ skip_string s \<and> (\<forall>X. (skip_string s = [] \<longrightarrow> X = []) \<longrightarrow> skip_string (w @ X) = X)"
proof (induction s rule: length_induct)
  case (1 s)
  consider "s = []" | r where "s = squote # r" | "s = [bslash]" | d r where "s = bslash # d # r"
    | c r where "s = c # r" "c \<noteq> squote" "c \<noteq> bslash"
    by (metis list.exhaust)
  then show ?case
  proof cases
    case (2 r)
    then show ?thesis by (intro exI [of _ "[squote]"]) simp
  next
    case 3
    then show ?thesis by (intro exI [of _ "[bslash]"]) simp
  next
    case (4 d r)
    then obtain w where "r = w @ skip_string r"
      "\<forall>X. (skip_string r = [] \<longrightarrow> X = []) \<longrightarrow> skip_string (w @ X) = X"
      using 1 [rule_format, of r] by auto
    with 4 show ?thesis by (intro exI [of _ "bslash # d # w"]) simp
  next
    case (5 c r)
    then obtain w where "r = w @ skip_string r"
      "\<forall>X. (skip_string r = [] \<longrightarrow> X = []) \<longrightarrow> skip_string (w @ X) = X"
      using 1 [rule_format, of r] by auto
    with 5 show ?thesis by (intro exI [of _ "c # w"]) simp
  qed simp
qed

lemma pass_block_frame:
  "\<exists>w. s = w @ pass_block s \<and>
     ((skip_block s = pass_block s \<and> (\<forall>X. skip_block (w @ X) = X)) \<or>
      (skip_block s = [] \<and> length (pass_block s) \<le> 1))"
proof (induction s rule: pass_block.induct)
  case (1 c d r)
  show ?case
  proof (cases "c = CHR ''*'' \<and> d = CHR ''/''")
    case True
    then show ?thesis by (intro exI [of _ "''*/''"]) simp
  next
    case False
    then obtain w where w: "d # r = w @ pass_block (d # r)"
      and alt: "(skip_block (d # r) = pass_block (d # r) \<and> (\<forall>X. skip_block (w @ X) = X)) \<or>
        (skip_block (d # r) = [] \<and> length (pass_block (d # r)) \<le> 1)"
      using 1 by blast
    have step: "skip_block (c # w @ X) = skip_block (w @ X)" if nonempty: "w \<noteq> []" for X
    proof -
      obtain w' where "w = d # w'" using w nonempty by (cases w) auto
      with False show ?thesis by auto
    qed
    from alt show ?thesis
    proof
      assume closed: "skip_block (d # r) = pass_block (d # r) \<and> (\<forall>X. skip_block (w @ X) = X)"
      then have "skip_block (w @ ''x'') = ''x''" by blast
      then have "w \<noteq> []" by auto
      with closed w False step show ?thesis by (intro exI [of _ "c # w"]) auto
    next
      assume "skip_block (d # r) = [] \<and> length (pass_block (d # r)) \<le> 1"
      with w False show ?thesis by (intro exI [of _ "c # w"]) auto
    qed
  qed
qed auto

lemma skip_line_frame:
  "\<exists>w. s = w @ skip_line s \<and> newline \<notin> set w \<and> (skip_line s = [] \<or> (\<exists>r. skip_line s = newline # r))"
proof (intro exI conjI)
  show "s = takeWhile (\<lambda>c. c \<noteq> newline) s @ skip_line s" by (simp add: skip_line_def)
  show "newline \<notin> set (takeWhile (\<lambda>c. c \<noteq> newline) s)" by (auto dest: set_takeWhileD)
  show "skip_line s = [] \<or> (\<exists>r. skip_line s = newline # r)"
    by (cases "skip_line s") (auto simp: skip_line_def dropWhile_eq_Cons_conv)
qed

section \<open>The head of normalised text\<close>

lemma normalize_singleton: "normalizeForVitess [c] = [c]"
proof (cases "isIdentStart c")
  case True
  then have "isIdentPart c" by (rule ident_start_part)
  then have "strip_segment (takeWhile (\<lambda>c. isIdentPart c \<or> c = CHR ''.'') [c]) = [c]"
    and "dropWhile (\<lambda>c. isIdentPart c \<or> c = CHR ''.'') [c] = []"
    by (simp_all add: strip_segment_def)
  with True isIdentStart_disjoint(3-5) [OF True] show ?thesis
    unfolding normalizeForVitess.simps(2) by (simp add: starts2_def normalizeForVitess.simps(1))
next
  case False
  then show ?thesis
    unfolding normalizeForVitess.simps(2)
    by (simp add: starts2_def normalizeForVitess.simps(1) copied_def)
qed

lemma length_drop_dropWhile_le: "length (drop n (dropWhile P r)) \<le> length r"
  using length_drop_dropWhile [of n P r] by simp

lemma length_skip_line_drop_le: "length (skip_line (drop n r)) \<le> length r"
  using length_skip_line_drop [of n r] by simp

lemma length_pass_block_drop_le: "length (pass_block (drop n r)) \<le> length r"
  using length_pass_block_drop [of n r] by simp

lemma normalize_head:
  assumes "\<not> isIdentStart c"
  shows "\<exists>Y. normalizeForVitess (c # r) = c # Y"
  using assms unfolding normalizeForVitess.simps(2)
  by (simp only: copied_Cons length_skip_string length_drop_dropWhile_le length_skip_line_drop_le
      length_pass_block_drop_le append_Cons if_False split: if_split) blast

section \<open>Normalisation on tokens\<close>

text \<open>What normalisation does to one token: quoted identifiers are left alone.\<close>

definition strip_token :: "string \<Rightarrow> string" where
  "strip_token t = (if t \<noteq> [] \<and> (hd t = dquote \<or> hd t = bquote) then t else strip_segment t)"

text \<open>Every name of the statement is still a name when its first component is gone.\<close>

definition strippable :: "string \<Rightarrow> bool" where
  "strippable s \<longleftrightarrow> (\<forall>t\<in>set (lex_sql s). is_name t \<longrightarrow> is_name (strip_segment t))"

lemma strip_segment_single [simp]: "strip_segment [c] = [c]"
  by (simp add: strip_segment_def)

lemma dot_not_high: "128 \<le> n \<Longrightarrow> n < 256 \<Longrightarrow> CHR ''.'' \<noteq> char_of (n :: nat)"
proof
  assume n: "128 \<le> n" "n < 256" and "CHR ''.'' = char_of n"
  then have "byte_val (CHR ''.'') = byte_val (char_of n :: byte)" by simp
  also have "\<dots> = n" using n by simp
  finally show False using n by simp
qed

lemma strip_token_byte_string: "strip_token (byte_string c) = byte_string c"
proof (cases "byte_val c < 128")
  case True
  then show ?thesis by (simp add: byte_string_ascii strip_token_def)
next
  case False
  have "byte_val c < 256" by (rule nat_of_char_less_256)
  then have "byte_val c div 64 < 4" and "byte_val c < 2048" by linarith+
  moreover have "byte_val c mod 64 < 64" by simp
  ultimately have "CHR ''.'' \<notin> set (byte_string c)"
    using False dot_not_high [of "192 + byte_val c div 64"] dot_not_high [of "128 + byte_val c mod 64"]
    by (simp add: byte_string_def encode_rune_def Let_def)
  then show ?thesis by (simp add: strip_token_def strip_segment_def count_list_0_iff)
qed

lemma normalize_keeps_head:
  assumes "strippable (c # r)"
  shows "\<exists>d Y. normalizeForVitess (c # r) = d # Y \<and> (if isIdentStart c then isIdentStart d else d = c)"
proof (cases "isIdentStart c")
  case False
  with normalize_head [OF False, of r] show ?thesis by auto
next
  case True
  let ?seg = "takeWhile (\<lambda>c. isIdentPart c \<or> c = CHR ''.'') (c # r)"
  have "is_name ?seg"
    using True by (auto simp: is_name_def ident_start_part list_all_iff dest: set_takeWhileD)
  moreover have "?seg \<in> set (lex_sql (c # r))"
    using lex_ident [OF True, of r] by (simp add: ident_or_dot del: takeWhile.simps dropWhile.simps)
  ultimately have "is_name (strip_segment ?seg)" using assms by (simp add: strippable_def)
  then obtain d Y where "strip_segment ?seg = d # Y" and "isIdentStart d"
    by (auto simp: is_name_def split: list.splits)
  then show ?thesis
    using True isIdentStart_disjoint(3-5) [OF True] isIdentStart_no_comment [OF True, of r]
    unfolding normalizeForVitess.simps(2) by (simp del: takeWhile.simps dropWhile.simps)
qed

lemma starts2_normalize:
  assumes "strippable r" and "\<not> isIdentStart a" and "\<not> isIdentStart b"
  shows "starts2 a b (c # normalizeForVitess r) \<longleftrightarrow> starts2 a b (c # r)"
proof (cases r)
  case Nil
  then show ?thesis by (simp add: normalizeForVitess.simps)
next
  case (Cons d r')
  then obtain e Y where "normalizeForVitess r = e # Y" and "if isIdentStart d then isIdentStart e else e = d"
    using normalize_keeps_head assms(1) by blast
  with Cons assms(3) show ?thesis by (auto simp: starts2_def split: if_splits)
qed

lemma not_ident_marker:
  "\<not> isIdentStart (CHR ''-'')" "\<not> isIdentStart (CHR ''/'')" "\<not> isIdentStart (CHR ''*'')"
  "\<not> isIdentPart newline"
  by (simp_all add: isIdentStart_def isIdentPart_def latin1_IsLetter_def latin1_IsDigit_def)

lemma normalize_stops:
  assumes "rest = [] \<or> (\<exists>d r. rest = d # r \<and> \<not> isIdentPart d)"
  shows "normalizeForVitess rest = [] \<or> (\<exists>d Y. normalizeForVitess rest = d # Y \<and> \<not> isIdentPart d)"
  using assms
proof
  assume "\<exists>d r. rest = d # r \<and> \<not> isIdentPart d"
  then obtain d r where "rest = d # r" "\<not> isIdentPart d" by blast
  then show ?thesis using normalize_head [of d r] ident_start_part by blast
qed (simp add: normalizeForVitess.simps)

lemma lex_name_stops:
  assumes "is_name w" and "rest = [] \<or> (\<exists>d r. rest = d # r \<and> \<not> isIdentPart d)"
  shows "lex_sql (w @ rest) = w # lex_sql rest"
  using assms(2)
proof
  assume "rest = []"
  then show ?thesis using lex_name_end [OF assms(1)] by (simp add: lex_sql.simps(1))
next
  assume "\<exists>d r. rest = d # r \<and> \<not> isIdentPart d"
  then show ?thesis using lex_name [OF assms(1)] by blast
qed

lemma normalize_empty_iff: "s \<noteq> [] \<Longrightarrow> strippable s \<Longrightarrow> normalizeForVitess s \<noteq> []"
  using normalize_keeps_head by (cases s) fastforce+

lemma lex_scanned:
  "is_blank ch \<Longrightarrow> lex_sql (ch # r) = lex_sql r"
  "lex_sql (squote # r) = [squote] # lex_sql (skip_string r)"
  "ch = dquote \<or> ch = bquote \<Longrightarrow> lex_sql (ch # r) =
     (ch # takeWhile (\<lambda>c. c \<noteq> ch) r @ take 1 (dropWhile (\<lambda>c. c \<noteq> ch) r))
       # lex_sql (drop 1 (dropWhile (\<lambda>c. c \<noteq> ch) r))"
  "lex_sql (CHR ''-'' # CHR ''-'' # r) = lex_sql (skip_line r)"
  "lex_sql (CHR ''/'' # CHR ''*'' # r) = lex_sql (skip_block r)"
  by (simp_all only: lex_sql.simps(2))
    (auto simp: is_blank_def starts2_Cons is_punct_def skip_line_def)

lemma strip_token_name: "is_name t \<Longrightarrow> strip_token t = strip_segment t"
  using isIdentStart_disjoint(4,5) by (auto simp: strip_token_def is_name_def split: list.splits)

lemma lex_single: "t \<in> set (lex_sql [c]) \<Longrightarrow> is_name t \<Longrightarrow> strip_segment t = t"
proof -
  assume t: "t \<in> set (lex_sql [c])" "is_name t"
  show "strip_segment t = t"
  proof (cases "isIdentStart c")
    case True
    then have "t = [c]" using t(1) by (simp add: lex_ident lex_sql.simps(1) ident_start_part)
    then show ?thesis by simp
  next
    case False
    then have "t = [squote] \<or> t = [c] \<or> t = byte_string c"
      using t(1) by (auto simp: lex_sql.simps starts2_def split: if_splits)
    then show ?thesis
      using strip_token_byte_string [of c] strip_token_name [OF t(2)] by auto
  qed
qed

lemma normalize_scanned:
  "normalizeForVitess (squote # r) = copied (squote # r) (skip_string r) @ normalizeForVitess (skip_string r)"
  "q = dquote \<or> q = bquote \<Longrightarrow> normalizeForVitess (q # r) =
     copied (q # r) (drop 1 (dropWhile (\<lambda>c. c \<noteq> q) r))
       @ normalizeForVitess (drop 1 (dropWhile (\<lambda>c. c \<noteq> q) r))"
  "normalizeForVitess (CHR ''-'' # CHR ''-'' # r) =
     copied (CHR ''-'' # CHR ''-'' # r) (skip_line r) @ normalizeForVitess (skip_line r)"
  "normalizeForVitess (CHR ''/'' # CHR ''*'' # r) =
     copied (CHR ''/'' # CHR ''*'' # r) (pass_block r) @ normalizeForVitess (pass_block r)"
  by (simp_all only: normalizeForVitess.simps(2)) (auto simp: starts2_Cons)

lemma normalize_name:
  "isIdentStart ch \<Longrightarrow> normalizeForVitess (ch # r) =
     strip_segment (takeWhile isIdentPart (ch # r)) @ normalizeForVitess (dropWhile isIdentPart (ch # r))"
  using isIdentStart_disjoint(3-5) [of ch] isIdentStart_no_comment [of ch r]
  by (simp only: normalizeForVitess.simps(2) ident_or_dot if_True if_False simp_thms)

lemma strippable_sub:
  "set (lex_sql t) \<subseteq> set (lex_sql s) \<Longrightarrow> strippable s \<Longrightarrow> strippable t"
  by (auto simp: strippable_def)

text \<open>The branch for a byte that starts neither a literal, a comment nor a name.\<close>

lemma lex_normalize_other:
  assumes IH: "lex_sql (normalizeForVitess r) = map strip_token (lex_sql r)" and str: "strippable r"
    and ch: "ch \<noteq> squote" "ch \<noteq> dquote" "ch \<noteq> bquote" "\<not> isIdentStart ch"
    and no: "\<not> starts2 (CHR ''-'') (CHR ''-'') (ch # r)" "\<not> starts2 (CHR ''/'') (CHR ''*'') (ch # r)"
  shows "lex_sql (ch # normalizeForVitess r) = map strip_token (lex_sql (ch # r))"
proof -
  have "\<not> starts2 (CHR ''-'') (CHR ''-'') (ch # normalizeForVitess r)"
    and "\<not> starts2 (CHR ''/'') (CHR ''*'') (ch # normalizeForVitess r)"
    using no by (simp_all add: starts2_normalize [OF str] not_ident_marker)
  with ch no IH show ?thesis
    unfolding lex_sql.simps(2) by (simp add: strip_token_byte_string)
qed

text \<open>The branches that copy a literal, a quoted identifier or a comment.\<close>

lemma lex_normalize_string:
  assumes IH: "lex_sql (normalizeForVitess (skip_string r)) = map strip_token (lex_sql (skip_string r))"
  shows "lex_sql (copied (squote # r) (skip_string r) @ normalizeForVitess (skip_string r))
    = map strip_token (lex_sql (squote # r))"
proof -
  obtain w where w: "r = w @ skip_string r"
    and frame: "\<forall>X. (skip_string r = [] \<longrightarrow> X = []) \<longrightarrow> skip_string (w @ X) = X"
    using skip_string_frame by blast
  have "skip_string (w @ normalizeForVitess (skip_string r)) = normalizeForVitess (skip_string r)"
    using frame by (simp add: normalizeForVitess.simps(1))
  with IH show ?thesis by (simp add: copied_Cons_split [OF w] lex_scanned(2) strip_token_def)
qed

lemma quote_frame:
  assumes "\<forall>c\<in>set w. c \<noteq> q" and "d = [] \<or> hd d = q" and "d = [] \<longrightarrow> X = []"
  shows "takeWhile (\<lambda>c. c \<noteq> q) (w @ take 1 d @ X) = w \<and> dropWhile (\<lambda>c. c \<noteq> q) (w @ take 1 d @ X) = take 1 d @ X"
  using assms takeWhile_append_stop [of w "\<lambda>c. c \<noteq> q" q X] dropWhile_append_stop [of w "\<lambda>c. c \<noteq> q" q X]
  by (cases d) (simp_all add: takeWhile_eq_all_conv)

lemma lex_normalize_quoted:
  assumes q: "q = dquote \<or> q = bquote"
    and IH: "lex_sql (normalizeForVitess (drop 1 (dropWhile (\<lambda>c. c \<noteq> q) r)))
      = map strip_token (lex_sql (drop 1 (dropWhile (\<lambda>c. c \<noteq> q) r)))"
  shows "lex_sql (copied (q # r) (drop 1 (dropWhile (\<lambda>c. c \<noteq> q) r))
      @ normalizeForVitess (drop 1 (dropWhile (\<lambda>c. c \<noteq> q) r)))
    = map strip_token (lex_sql (q # r))"
proof -
  let ?w = "takeWhile (\<lambda>c. c \<noteq> q) r" and ?d = "dropWhile (\<lambda>c. c \<noteq> q) r"
  have split: "r = (?w @ take 1 ?d) @ drop 1 ?d" by simp
  have quote: "\<forall>c\<in>set ?w. c \<noteq> q" and "?d = [] \<or> hd ?d = q"
    using hd_dropWhile [of "\<lambda>c. c \<noteq> q" r] by (auto dest: set_takeWhileD)
  note body = quote_frame [OF this]
  have nil: "?d = [] \<longrightarrow> normalizeForVitess (drop 1 ?d) = []"
    by (rule impI) (simp only: drop_Nil normalizeForVitess.simps(1))
  from body [OF nil] have
    tw: "takeWhile (\<lambda>c. c \<noteq> q) (?w @ take 1 ?d @ normalizeForVitess (drop 1 ?d)) = ?w" and
    dw: "dropWhile (\<lambda>c. c \<noteq> q) (?w @ take 1 ?d @ normalizeForVitess (drop 1 ?d))
      = take 1 ?d @ normalizeForVitess (drop 1 ?d)" by blast+
  have dt: "drop 1 (take 1 ?d @ normalizeForVitess (drop 1 ?d)) = normalizeForVitess (drop 1 ?d)"
    and tt: "take 1 (take 1 ?d @ normalizeForVitess (drop 1 ?d)) = take 1 ?d"
    using take_one_append [OF nil] by blast+
  have "lex_sql (q # ?w @ take 1 ?d @ normalizeForVitess (drop 1 ?d))
      = (q # ?w @ take 1 ?d) # lex_sql (normalizeForVitess (drop 1 ?d))"
    using lex_scanned(3) [OF q, of "?w @ take 1 ?d @ normalizeForVitess (drop 1 ?d)"]
    unfolding tw dw dt tt .
  moreover have "strip_token (q # ?w @ take 1 ?d) = q # ?w @ take 1 ?d"
    using q by (simp add: strip_token_def)
  ultimately show ?thesis
    unfolding copied_Cons_split [OF split] lex_scanned(3) [OF q, of r] using IH by simp
qed

lemma lex_normalize_line:
  assumes IH: "lex_sql (normalizeForVitess (skip_line r)) = map strip_token (lex_sql (skip_line r))"
  shows "lex_sql (copied (CHR ''-'' # CHR ''-'' # r) (skip_line r) @ normalizeForVitess (skip_line r))
    = map strip_token (lex_sql (CHR ''-'' # CHR ''-'' # r))"
proof -
  obtain w where w: "r = w @ skip_line r" and nl: "newline \<notin> set w"
    and rest: "skip_line r = [] \<or> (\<exists>t. skip_line r = newline # t)"
    using skip_line_frame by blast
  have "skip_line (w @ normalizeForVitess (skip_line r)) = normalizeForVitess (skip_line r)"
    using rest
  proof
    assume "skip_line r = []"
    moreover have "skip_line w = []" using nl by (auto simp: skip_line_def dropWhile_eq_Nil_conv)
    ultimately show ?thesis by (simp add: normalizeForVitess.simps(1))
  next
    assume "\<exists>t. skip_line r = newline # t"
    then obtain t where "skip_line r = newline # t" by blast
    moreover from this obtain Y where "normalizeForVitess (newline # t) = newline # Y"
      using normalize_head [of newline t] not_ident_marker(4) ident_start_part by blast
    ultimately show ?thesis using skip_line_comment [OF nl] by simp
  qed
  moreover have "CHR ''-'' # r = (CHR ''-'' # w) @ skip_line r" using w by simp
  then have "copied (CHR ''-'' # CHR ''-'' # r) (skip_line r) = CHR ''-'' # CHR ''-'' # w"
    by (rule copied_Cons_split)
  ultimately show ?thesis using IH by (simp add: lex_scanned(4))
qed

lemma lex_normalize_block:
  assumes IH: "lex_sql (normalizeForVitess (pass_block r)) = map strip_token (lex_sql (pass_block r))"
  shows "lex_sql (copied (CHR ''/'' # CHR ''*'' # r) (pass_block r) @ normalizeForVitess (pass_block r))
    = map strip_token (lex_sql (CHR ''/'' # CHR ''*'' # r))"
proof -
  obtain w where w: "r = w @ pass_block r"
    and alt: "(skip_block r = pass_block r \<and> (\<forall>X. skip_block (w @ X) = X)) \<or>
     (skip_block r = [] \<and> length (pass_block r) \<le> 1)"
    using pass_block_frame by blast
  have "CHR ''*'' # r = (CHR ''*'' # w) @ pass_block r" using w by simp
  then have "copied (CHR ''/'' # CHR ''*'' # r) (pass_block r) = CHR ''/'' # CHR ''*'' # w"
    by (rule copied_Cons_split)
  moreover from alt have "lex_sql (skip_block (w @ normalizeForVitess (pass_block r)))
    = map strip_token (lex_sql (skip_block r))"
  proof
    assume "skip_block r = [] \<and> length (pass_block r) \<le> 1"
    moreover from this have "normalizeForVitess (pass_block r) = pass_block r"
      by (cases "pass_block r") (simp_all add: normalizeForVitess.simps(1) normalize_singleton)
    ultimately show ?thesis using w by (simp add: lex_sql.simps(1))
  qed (simp add: IH)
  ultimately show ?thesis by (simp add: lex_scanned(5))
qed

lemma lex_normalize_name:
  assumes id: "isIdentStart ch" and str: "strippable (ch # r)"
    and IH: "lex_sql (normalizeForVitess (dropWhile isIdentPart (ch # r)))
      = map strip_token (lex_sql (dropWhile isIdentPart (ch # r)))"
  shows "lex_sql (strip_segment (takeWhile isIdentPart (ch # r))
      @ normalizeForVitess (dropWhile isIdentPart (ch # r)))
    = map strip_token (lex_sql (ch # r))"
proof -
  let ?seg = "takeWhile isIdentPart (ch # r)" and ?rest = "dropWhile isIdentPart (ch # r)"
  have "is_name ?seg"
    using id by (auto simp: is_name_def ident_start_part list_all_iff dest: set_takeWhileD)
  moreover have "?seg \<in> set (lex_sql (ch # r))" by (simp only: lex_ident [OF id] list.set insert_iff simp_thms)
  ultimately have "is_name (strip_segment ?seg)" using str by (simp only: strippable_def)
  moreover have "?rest = [] \<or> (\<exists>d t. ?rest = d # t \<and> \<not> isIdentPart d)"
    using hd_dropWhile [of isIdentPart "ch # r"] by (cases ?rest) (auto simp del: dropWhile.simps)
  ultimately have "lex_sql (strip_segment ?seg @ normalizeForVitess ?rest)
      = strip_segment ?seg # lex_sql (normalizeForVitess ?rest)"
    by (intro lex_name_stops normalize_stops)
  moreover have "strip_token ?seg = strip_segment ?seg"
    using id isIdentStart_disjoint(4,5) [OF id] by (simp add: strip_token_def ident_start_part)
  ultimately show ?thesis using IH by (simp only: lex_ident [OF id] list.map)
qed

lemma strippable_pass_block:
  assumes "strippable (CHR ''/'' # CHR ''*'' # t)"
  shows "strippable (pass_block t)"
proof (rule ccontr)
  assume no: "\<not> strippable (pass_block t)"
  then have "\<not> set (lex_sql (pass_block t)) \<subseteq> set (lex_sql (CHR ''/'' # CHR ''*'' # t))"
    using strippable_sub [OF _ assms] by blast
  then have "length (pass_block t) \<le> 1"
    using pass_block_frame [of t] by (auto simp: lex_scanned(5))
  then have "strippable (pass_block t)"
    by (cases "pass_block t") (auto simp: strippable_def lex_sql.simps(1) dest!: lex_single)
  with no show False by contradiction
qed

lemma lex_normalize: "strippable s \<Longrightarrow> lex_sql (normalizeForVitess s) = map strip_token (lex_sql s)"
proof (induction s rule: normalizeForVitess.induct)
  case 1
  show ?case by (simp add: normalizeForVitess.simps(1) lex_sql.simps(1))
next
  case (2 ch r)
  note str = \<open>strippable (ch # r)\<close>
  consider (string) "ch = squote" | (quoted) "ch = dquote \<or> ch = bquote" "ch \<noteq> squote"
    | (line) t where "ch = CHR ''-''" "r = CHR ''-'' # t"
    | (block) t where "ch = CHR ''/''" "r = CHR ''*'' # t"
    | (name) "isIdentStart ch"
    | (other) "ch \<noteq> squote" "ch \<noteq> dquote" "ch \<noteq> bquote" "\<not> isIdentStart ch"
        "\<not> starts2 (CHR ''-'') (CHR ''-'') (ch # r)" "\<not> starts2 (CHR ''/'') (CHR ''*'') (ch # r)"
    by (auto simp: starts2_Cons)
  then show ?case
  proof cases
    case string
    have "strippable (skip_string r)"
      by (rule strippable_sub [OF _ str]) (auto simp: string lex_scanned(2))
    then show ?thesis using 2(1) lex_normalize_string [of r] by (simp add: string normalize_scanned)
  next
    case quoted
    then have "strippable (drop 1 (dropWhile (\<lambda>c. c \<noteq> ch) r))"
      by (intro strippable_sub [OF _ str]) (auto simp: lex_scanned(3))
    then show ?thesis
      using 2(2) quoted lex_normalize_quoted [of ch r] by (simp only: normalize_scanned(2) simp_thms)
  next
    case line
    then have "strippable (skip_line t)"
      by (intro strippable_sub [OF _ str]) (auto simp: lex_scanned(4))
    then show ?thesis
      using 2(3) lex_normalize_line [of t] by (simp add: line normalize_scanned starts2_Cons)
  next
    case block
    have "strippable (pass_block t)" using str block by (intro strippable_pass_block) simp
    then show ?thesis
      using 2(4) lex_normalize_block [of t] by (simp add: block normalize_scanned starts2_Cons)
  next
    case name
    have "strippable (dropWhile isIdentPart (ch # r))"
      by (rule strippable_sub [OF _ str]) (simp only: lex_ident [OF name] list.set subset_insertI)
    then show ?thesis
      using 2(5) name lex_normalize_name [OF name str] isIdentStart_disjoint(3-5) [OF name]
        isIdentStart_no_comment [OF name, of r]
      by (simp only: normalize_name ident_or_dot simp_thms)
  next
    case other
    have "set (lex_sql r) \<subseteq> set (lex_sql (ch # r))"
      using other unfolding lex_sql.simps(2) [of ch] by auto
    then have "strippable r" using str by (rule strippable_sub)
    moreover have "normalizeForVitess (ch # r) = ch # normalizeForVitess r"
      using other unfolding normalizeForVitess.simps(2) by simp
    ultimately show ?thesis
      using 2(6) other lex_normalize_other [of r ch] by simp
  qed
qed

section \<open>Properties\<close>

text \<open>C31. For a statement each of whose names is still a name without its first component (so not, for example,
  \<open>a.1b.c\<close>, whose rest starts with a digit), normalisation commutes with scanning: the tokens of the normalised
  statement are the tokens of the original in order, each name with two or more dots without its first component,
  everything else (literals, quoted identifiers, punctuation) unchanged.\<close>

theorem normalizeForVitess_tokens:
  assumes "strippable s"
  shows "tokenizeRaw (normalizeForVitess s) = map strip_token (tokenizeRaw s)"
  unfolding tokenizeRaw_def tokenize_loop_lex flush_simps append_Nil
  by (rule lex_normalize [OF assms])

lemma normalizeForVitess_tokens_witness:
  "tokenizeRaw (normalizeForVitess ''SELECT x FROM hive.web.clicks WHERE y'')
     = map strip_token (tokenizeRaw ''SELECT x FROM hive.web.clicks WHERE y'')"
  by (rule normalizeForVitess_tokens)
    (simp add: strippable_def go_eval strip_segment_def is_name_def)

lemma strip_segment_three_part:
  "CHR ''.'' \<notin> set c \<Longrightarrow> CHR ''.'' \<notin> set s \<Longrightarrow>
    strip_segment (c @ CHR ''.'' # s @ CHR ''.'' # t) = s @ CHR ''.'' # t"
  by (subgoal_tac "\<forall>x\<in>set c. x \<noteq> CHR ''.''")
    (auto simp: strip_segment_def dropWhile_append_stop)

lemma strip_segment_two_part:
  "CHR ''.'' \<notin> set s \<Longrightarrow> CHR ''.'' \<notin> set t \<Longrightarrow>
    strip_segment (s @ CHR ''.'' # t) = s @ CHR ''.'' # t"
  by (simp add: strip_segment_def count_list_0_iff)

text \<open>A three-part name reaches the vitess parser as a two-part name: in a statement that is a
  sequence of words, \<open>catalog.schema.table\<close> is rewritten to \<open>schema.table\<close> and the words around it are
  copied.\<close>

lemma normalizeForVitess_three_part:
  assumes "is_name (c @ CHR ''.'' # s @ CHR ''.'' # t)"
    and "CHR ''.'' \<notin> set c" and "CHR ''.'' \<notin> set s"
    and "rest = [] \<or> (\<exists>d r. rest = d # r \<and> \<not> isIdentPart d)"
  shows "normalizeForVitess (c @ CHR ''.'' # s @ CHR ''.'' # t @ rest)
    = s @ CHR ''.'' # t @ normalizeForVitess rest"
proof -
  let ?w = "c @ CHR ''.'' # s @ CHR ''.'' # t"
  have part: "\<forall>x\<in>set ?w. isIdentPart x" using assms(1) by (rule is_name_parts)
  have "is_name ?w \<longrightarrow> ?w \<noteq> [] \<and> isIdentStart (hd ?w)" by (auto simp: is_name_def split: list.splits)
  then obtain ch w where w: "?w = ch # w" and ch: "isIdentStart ch"
    using assms(1) by (metis list.collapse)
  have "takeWhile isIdentPart (?w @ rest) = ?w" and "dropWhile isIdentPart (?w @ rest) = rest"
    using part assms(4)
    by (auto simp: takeWhile_append_stop dropWhile_append_stop takeWhile_eq_all_conv dropWhile_all simp del: append_assoc)
  then show ?thesis
    using normalize_name [OF ch, of "w @ rest"] strip_segment_three_part [OF assms(2,3), of t]
    unfolding append_Cons [symmetric] w [symmetric] by simp
qed

lemma normalizeForVitess_three_part_witness:
  "normalizeForVitess ''hive.web.clicks WHERE 1'' = ''web.clicks'' @ normalizeForVitess '' WHERE 1''"
  using normalizeForVitess_three_part [of "''hive''" "''web''" "''clicks''" "'' WHERE 1''"]
  by (simp add: is_name_def go_eval)

end
