(* ===== verification/Parser_Ast.thy ===== *)
theory Parser_Ast
  imports Parser_Classifier Parser_Tables Parser_Normalize
begin

text \<open>
  \<open>internal/parser/ast.go\<close> and \<open>errors.go\<close>: the analysis of a statement.  The syntax tree is the one
  the vitess parser returns; its types keep the constructors and the fields \<open>ast.go\<close> reads (and the
  HAVING clause, which it does not read), every other node is one \<open>Other\<close> constructor.  An empty
  identifier (\<open>Qualifier.IsEmpty()\<close>, \<open>As.IsEmpty()\<close>) and a nil pointer are \<open>None\<close>.  The parser
  itself is third-party code and a parameter \<open>parse\<close> of \<open>Analyze\<close>; \<open>None\<close> is a parse error.
  The \<open>*AnalysisResult\<close> the functions of the file fill in is passed through as a state.
\<close>

section \<open>The syntax tree\<close>

datatype Expr =
    NilExpr
  | ColName string "string option"
  | ComparisonExpr Expr Expr
  | AndExpr Expr Expr
  | OrExpr Expr Expr
  | NotExpr Expr
  | IsExpr Expr
  | BetweenExpr Expr Expr Expr
  | BinaryExpr Expr Expr
  | UnaryExpr Expr
  | FuncExpr string "Expr list"
  | OtherExpr "Expr list"

datatype SelectExpr = StarExpr | AliasedExpr Expr | OtherSelectExpr

text \<open>Table expressions, common table expressions and SELECT statements refer to each other.\<close>

datatype TableExpr =
    AliasedTableExpr SimpleTableExpr "string option"
  | JoinTableExpr TableExpr TableExpr "Expr option"
  | ParenTableExpr "TableExpr list"
  | OtherTableExpr
and SimpleTableExpr = TableName string | DerivedTable TableStatement | OtherSimpleTableExpr
and TableStatement = SelectStatement Select | OtherTableStatement
and CTE = CTE string TableStatement
and Select =
  Select (select_With: "CTE list option") (select_SelectExprs: "SelectExpr list")
    (select_From: "TableExpr list") (select_Where: "Expr option") (select_Having: "Expr option")

datatype Statement =
    StmtSelect Select
  | StmtInsert TableStatement
  | StmtUpdate "TableExpr list" "Expr option"
  | StmtDelete "Expr option"
  | StmtDDL
  | StmtOther

datatype parser_error = ErrParserUnsupported | ErrEmptyStatement | ErrStatementBlocked

record WhereRef =
  ref_Table :: string
  ref_Column :: string

record AnalysisResult =
  Tables :: "string list"
  WhereColumns :: "string list"
  WhereRefs :: "WhereRef list"
  TableAliases :: "string \<rightharpoonup> string"
  CTEAliases :: "string list"
  Functions :: "string list"
  SelectAll :: bool
  result_class :: StatementClass

section \<open>Common table expressions\<close>

function collectCTEAliases_select :: "Select \<Rightarrow> AnalysisResult \<Rightarrow> AnalysisResult" where
  "collectCTEAliases_select (Select w ses from wh hav) result =
     fold (\<lambda>te result. case te of
             AliasedTableExpr (DerivedTable (SelectStatement sel)) as \<Rightarrow> collectCTEAliases_select sel result
           | _ \<Rightarrow> result) from
       (case w of
          None \<Rightarrow> result
        | Some ctes \<Rightarrow>
            fold (\<lambda>cte result. case cte of CTE ident sub \<Rightarrow>
                let result' = result\<lparr>CTEAliases := CTEAliases result @ [ident]\<rparr>
                in case sub of SelectStatement ss \<Rightarrow> collectCTEAliases_select ss result'
                   | _ \<Rightarrow> result') ctes result)"
  by pat_completeness auto

lemma size_cte_select:
  "CTE ident (SelectStatement ss) \<in> set ctes \<Longrightarrow> size ss < Suc (size_list size ctes)"
  using size_list_estimation' [of "CTE ident (SelectStatement ss)" ctes "size ss" size] by simp

lemma size_derived_select:
  "AliasedTableExpr (DerivedTable (SelectStatement sel)) as \<in> set from
    \<Longrightarrow> size sel < Suc (size_list size from)"
  using size_list_estimation' [of "AliasedTableExpr (DerivedTable (SelectStatement sel)) as" "from" "size sel" size]
  by simp

termination collectCTEAliases_select
  by (relation "measure (\<lambda>(s, r). size s)")
    (auto dest!: size_cte_select size_derived_select)

declare collectCTEAliases_select.simps [simp del]

definition collectCTEAliases :: "Statement \<Rightarrow> AnalysisResult \<Rightarrow> AnalysisResult" where
  "collectCTEAliases stmt result =
     (case stmt of
        StmtSelect s \<Rightarrow> collectCTEAliases_select s result
      | StmtInsert (SelectStatement sel) \<Rightarrow> collectCTEAliases_select sel result
      | _ \<Rightarrow> result)"

section \<open>Columns and functions of an expression\<close>

fun extractColumnsFromExpr :: "Expr \<Rightarrow> AnalysisResult \<Rightarrow> AnalysisResult" where
  "extractColumnsFromExpr NilExpr result = result"
| "extractColumnsFromExpr (ColName name qualifier) result =
     result\<lparr>WhereColumns := WhereColumns result @ [name],
       WhereRefs := WhereRefs result @
         [\<lparr>ref_Table = (case qualifier of None \<Rightarrow> [] | Some q \<Rightarrow> q), ref_Column = name\<rparr>]\<rparr>"
| "extractColumnsFromExpr (ComparisonExpr l r) result =
     extractColumnsFromExpr r (extractColumnsFromExpr l result)"
| "extractColumnsFromExpr (AndExpr l r) result =
     extractColumnsFromExpr r (extractColumnsFromExpr l result)"
| "extractColumnsFromExpr (OrExpr l r) result =
     extractColumnsFromExpr r (extractColumnsFromExpr l result)"
| "extractColumnsFromExpr (NotExpr e) result = extractColumnsFromExpr e result"
| "extractColumnsFromExpr (IsExpr l) result = extractColumnsFromExpr l result"
| "extractColumnsFromExpr (FuncExpr name args) result = fold extractColumnsFromExpr args result"
| "extractColumnsFromExpr (BetweenExpr l f t) result =
     extractColumnsFromExpr t (extractColumnsFromExpr f (extractColumnsFromExpr l result))"
| "extractColumnsFromExpr (BinaryExpr l r) result =
     extractColumnsFromExpr r (extractColumnsFromExpr l result)"
| "extractColumnsFromExpr (UnaryExpr e) result = extractColumnsFromExpr e result"
| "extractColumnsFromExpr (OtherExpr es) result = result"

fun collectFunctionsFromExpr :: "Expr \<Rightarrow> AnalysisResult \<Rightarrow> AnalysisResult" where
  "collectFunctionsFromExpr NilExpr result = result"
| "collectFunctionsFromExpr (FuncExpr name args) result =
     fold collectFunctionsFromExpr args (result\<lparr>Functions := Functions result @ [ToLower name]\<rparr>)"
| "collectFunctionsFromExpr (ComparisonExpr l r) result =
     collectFunctionsFromExpr r (collectFunctionsFromExpr l result)"
| "collectFunctionsFromExpr (AndExpr l r) result =
     collectFunctionsFromExpr r (collectFunctionsFromExpr l result)"
| "collectFunctionsFromExpr (OrExpr l r) result =
     collectFunctionsFromExpr r (collectFunctionsFromExpr l result)"
| "collectFunctionsFromExpr (NotExpr e) result = collectFunctionsFromExpr e result"
| "collectFunctionsFromExpr (IsExpr l) result = collectFunctionsFromExpr l result"
| "collectFunctionsFromExpr (BetweenExpr l f t) result =
     collectFunctionsFromExpr t (collectFunctionsFromExpr f (collectFunctionsFromExpr l result))"
| "collectFunctionsFromExpr (BinaryExpr l r) result =
     collectFunctionsFromExpr r (collectFunctionsFromExpr l result)"
| "collectFunctionsFromExpr (UnaryExpr e) result = collectFunctionsFromExpr e result"
| "collectFunctionsFromExpr (ColName name qualifier) result = result"
| "collectFunctionsFromExpr (OtherExpr es) result = result"

section \<open>Statements\<close>

definition collectFunctionsAndStars :: "Select \<Rightarrow> AnalysisResult \<Rightarrow> AnalysisResult" where
  "collectFunctionsAndStars sel result =
     (let result = fold (\<lambda>expr result. case expr of
            StarExpr \<Rightarrow> result\<lparr>SelectAll := True\<rparr>
          | AliasedExpr e \<Rightarrow> collectFunctionsFromExpr e result
          | OtherSelectExpr \<Rightarrow> result) (select_SelectExprs sel) result
      in case select_Where sel of
           None \<Rightarrow> result | Some e \<Rightarrow> collectFunctionsFromExpr e result)"

fun collectTableAliases :: "TableExpr \<Rightarrow> AnalysisResult \<Rightarrow> AnalysisResult" where
  "collectTableAliases (AliasedTableExpr (TableName tn) (Some as)) result =
     result\<lparr>TableAliases := (TableAliases result)(as \<mapsto> tn)\<rparr>"
| "collectTableAliases (AliasedTableExpr e as) result = result"
| "collectTableAliases (JoinTableExpr l r on) result = collectTableAliases r (collectTableAliases l result)"
| "collectTableAliases (ParenTableExpr es) result = fold collectTableAliases es result"
| "collectTableAliases OtherTableExpr result = result"

fun extractOnClauseColumns :: "TableExpr \<Rightarrow> AnalysisResult \<Rightarrow> AnalysisResult" where
  "extractOnClauseColumns (JoinTableExpr l r on) result =
     extractOnClauseColumns r (extractOnClauseColumns l
       (case on of None \<Rightarrow> result | Some e \<Rightarrow> extractColumnsFromExpr e result))"
| "extractOnClauseColumns (ParenTableExpr es) result = fold extractOnClauseColumns es result"
| "extractOnClauseColumns (AliasedTableExpr e as) result = result"
| "extractOnClauseColumns OtherTableExpr result = result"

function analyzeSelect :: "Select \<Rightarrow> AnalysisResult \<Rightarrow> AnalysisResult" where
  "analyzeSelect (Select w ses from wh hav) result =
     (let result = (case w of
          None \<Rightarrow> result
        | Some ctes \<Rightarrow> fold (\<lambda>cte result. case cte of
              CTE ident (SelectStatement ss) \<Rightarrow> analyzeSelect ss result | _ \<Rightarrow> result) ctes result);
        result = (case wh of None \<Rightarrow> result | Some e \<Rightarrow> extractColumnsFromExpr e result);
        result = fold collectTableAliases from result;
        result = fold extractOnClauseColumns from result;
        result = fold (\<lambda>te result. case te of
            AliasedTableExpr (DerivedTable (SelectStatement inner)) as \<Rightarrow> analyzeSelect inner result
          | _ \<Rightarrow> result) from result
      in collectFunctionsAndStars (Select w ses from wh hav) result)"
  by pat_completeness auto

termination analyzeSelect
  by (relation "measure (\<lambda>(s, r). size s)")
    (auto dest!: size_cte_select size_derived_select)

declare analyzeSelect.simps [simp del]

definition analyzeInsert :: "TableStatement \<Rightarrow> AnalysisResult \<Rightarrow> AnalysisResult" where
  "analyzeInsert rows result =
     (case rows of SelectStatement sel \<Rightarrow> analyzeSelect sel result | OtherTableStatement \<Rightarrow> result)"

definition analyzeUpdate :: "TableExpr list \<Rightarrow> Expr option \<Rightarrow> AnalysisResult \<Rightarrow> AnalysisResult" where
  "analyzeUpdate table_exprs wh result =
     fold extractOnClauseColumns table_exprs
       (case wh of None \<Rightarrow> result | Some e \<Rightarrow> extractColumnsFromExpr e result)"

definition analyzeDelete :: "Expr option \<Rightarrow> AnalysisResult \<Rightarrow> AnalysisResult" where
  "analyzeDelete wh result = (case wh of None \<Rightarrow> result | Some e \<Rightarrow> extractColumnsFromExpr e result)"

definition analyzeDDL :: "AnalysisResult \<Rightarrow> AnalysisResult" where
  "analyzeDDL result = result"

definition empty_result :: "StatementClass \<Rightarrow> AnalysisResult" where
  "empty_result cls = \<lparr>Tables = [], WhereColumns = [], WhereRefs = [], TableAliases = Map.empty,
     CTEAliases = [], Functions = [], SelectAll = False, result_class = cls\<rparr>"

definition analyze_stmt :: "Statement \<Rightarrow> AnalysisResult \<Rightarrow> AnalysisResult" where
  "analyze_stmt stmt result =
     (case stmt of
        StmtSelect s \<Rightarrow> analyzeSelect s result
      | StmtInsert rows \<Rightarrow> analyzeInsert rows result
      | StmtUpdate tes wh \<Rightarrow> analyzeUpdate tes wh result
      | StmtDelete wh \<Rightarrow> analyzeDelete wh result
      | StmtDDL \<Rightarrow> analyzeDDL result
      | StmtOther \<Rightarrow> result)"

definition Analyze ::
  "(string \<Rightarrow> Statement option) \<Rightarrow> string \<Rightarrow> (parser_error, AnalysisResult) go_result" where
  "Analyze parse sql =
     (let cls = Classify sql; result = empty_result cls
      in if IsBypass cls then Inr result
         else case parse (normalizeForVitess sql) of
             None \<Rightarrow> Inr (result\<lparr>Tables := extractTableNamesRaw sql []\<rparr>)
           | Some stmt \<Rightarrow>
               let result = collectCTEAliases stmt result;
                   result = result\<lparr>Tables := extractTableNamesRaw sql (CTEAliases result)\<rparr>
               in Inr (analyze_stmt stmt result))"

section \<open>What the walkers visit\<close>

text \<open>
  Both expression walkers recurse into the same operands; \<open>walk\<close> lists the nodes they visit, in the
  order they visit them.  Operands of other nodes (CASE, IN lists, casts, subqueries) are not visited.
\<close>

fun children :: "Expr \<Rightarrow> Expr list" where
  "children (ComparisonExpr l r) = [l, r]"
| "children (AndExpr l r) = [l, r]"
| "children (OrExpr l r) = [l, r]"
| "children (NotExpr e) = [e]"
| "children (IsExpr l) = [l]"
| "children (FuncExpr name args) = args"
| "children (BetweenExpr l f t) = [l, f, t]"
| "children (BinaryExpr l r) = [l, r]"
| "children (UnaryExpr e) = [e]"
| "children NilExpr = []"
| "children (ColName name q) = []"
| "children (OtherExpr es) = []"

lemma size_children: "c \<in> set (children e) \<Longrightarrow> size c < size e"
  by (cases e) (auto simp: less_Suc_eq_le size_list_estimation')

function walk :: "Expr \<Rightarrow> Expr list" where
  "walk e = e # concat (map walk (children e))"
  by pat_completeness auto

termination walk
  by (relation "measure size") (simp_all add: size_children)

declare walk.simps [simp del]

definition col_ref :: "Expr \<Rightarrow> WhereRef option" where
  "col_ref e = (case e of
     ColName name q \<Rightarrow> Some \<lparr>ref_Table = (case q of None \<Rightarrow> [] | Some t \<Rightarrow> t), ref_Column = name\<rparr>
   | _ \<Rightarrow> None)"

definition fun_name :: "Expr \<Rightarrow> string option" where
  "fun_name e = (case e of FuncExpr name args \<Rightarrow> Some (ToLower name) | _ \<Rightarrow> None)"

definition expr_refs :: "Expr \<Rightarrow> WhereRef list" where
  "expr_refs e = List.map_filter col_ref (walk e)"

definition expr_functions :: "Expr \<Rightarrow> string list" where
  "expr_functions e = List.map_filter fun_name (walk e)"

definition add_refs :: "WhereRef list \<Rightarrow> AnalysisResult \<Rightarrow> AnalysisResult" where
  "add_refs rs r = r\<lparr>WhereColumns := WhereColumns r @ map ref_Column rs, WhereRefs := WhereRefs r @ rs\<rparr>"

definition add_functions :: "string list \<Rightarrow> AnalysisResult \<Rightarrow> AnalysisResult" where
  "add_functions fs r = r\<lparr>Functions := Functions r @ fs\<rparr>"

interpretation ref: append_action add_refs
  by unfold_locales (simp_all add: add_refs_def)

interpretation fn: append_action add_functions
  by unfold_locales (simp_all add: add_functions_def)

lemma map_filter_append: "List.map_filter f (xs @ ys) = List.map_filter f xs @ List.map_filter f ys"
  by (simp add: List.map_filter_def)

lemma map_filter_concat:
  "List.map_filter f (concat xss) = concat (map (List.map_filter f) xss)"
  by (induction xss) (simp_all add: map_filter_append List.map_filter_def)

lemma concat_map_concat: "concat (map (\<lambda>x. concat (map f (g x))) xs) = concat (map f (concat (map g xs)))"
  by (induction xs) simp_all

lemma expr_refs_children:
  "expr_refs e = (case col_ref e of None \<Rightarrow> [] | Some x \<Rightarrow> [x]) @ concat (map expr_refs (children e))"
  unfolding expr_refs_def [abs_def] walk.simps [of e]
  by (simp add: List.map_filter_simps map_filter_concat comp_def split: option.split)

lemma expr_functions_children:
  "expr_functions e =
     (case fun_name e of None \<Rightarrow> [] | Some x \<Rightarrow> [x]) @ concat (map expr_functions (children e))"
  unfolding expr_functions_def [abs_def] walk.simps [of e]
  by (simp add: List.map_filter_simps map_filter_concat comp_def split: option.split)

lemma expr_refs_simps:
  "expr_refs NilExpr = []"
  "expr_refs (ColName n q) = [\<lparr>ref_Table = (case q of None \<Rightarrow> [] | Some t \<Rightarrow> t), ref_Column = n\<rparr>]"
  "expr_refs (ComparisonExpr l r) = expr_refs l @ expr_refs r"
  "expr_refs (AndExpr l r) = expr_refs l @ expr_refs r"
  "expr_refs (OrExpr l r) = expr_refs l @ expr_refs r"
  "expr_refs (NotExpr e) = expr_refs e"
  "expr_refs (IsExpr e) = expr_refs e"
  "expr_refs (BetweenExpr e f t) = expr_refs e @ expr_refs f @ expr_refs t"
  "expr_refs (BinaryExpr l r) = expr_refs l @ expr_refs r"
  "expr_refs (UnaryExpr e) = expr_refs e"
  "expr_refs (FuncExpr n args) = concat (map expr_refs args)"
  "expr_refs (OtherExpr es) = []"
  by (subst expr_refs_children; simp add: col_ref_def)+

lemma expr_functions_simps:
  "expr_functions NilExpr = []"
  "expr_functions (ColName n q) = []"
  "expr_functions (ComparisonExpr l r) = expr_functions l @ expr_functions r"
  "expr_functions (AndExpr l r) = expr_functions l @ expr_functions r"
  "expr_functions (OrExpr l r) = expr_functions l @ expr_functions r"
  "expr_functions (NotExpr e) = expr_functions e"
  "expr_functions (IsExpr e) = expr_functions e"
  "expr_functions (BetweenExpr e f t) = expr_functions e @ expr_functions f @ expr_functions t"
  "expr_functions (BinaryExpr l r) = expr_functions l @ expr_functions r"
  "expr_functions (UnaryExpr e) = expr_functions e"
  "expr_functions (FuncExpr n args) = ToLower n # concat (map expr_functions args)"
  "expr_functions (OtherExpr es) = []"
  by (subst expr_functions_children; simp add: fun_name_def)+

lemma extractColumnsFromExpr_walk:
  "extractColumnsFromExpr e r = add_refs (expr_refs e) r"
proof (induction e r rule: extractColumnsFromExpr.induct)
  case (8 name args result)
  then show ?case by (simp add: ref.fold_add expr_refs_simps)
qed (simp_all add: expr_refs_simps ref.add_Nil ref.add_add, simp add: add_refs_def)

lemma collectFunctionsFromExpr_walk:
  "collectFunctionsFromExpr e r = add_functions (expr_functions e) r"
proof (induction e r rule: collectFunctionsFromExpr.induct)
  case (2 name args result)
  have "result\<lparr>Functions := Functions result @ [ToLower name]\<rparr> = add_functions [ToLower name] result"
    by (simp add: add_functions_def)
  with 2 show ?case by (simp add: fn.fold_add fn.add_add expr_functions_simps)
qed (simp_all add: expr_functions_simps fn.add_Nil fn.add_add)

lemma add_refs_simps [simp]:
  "WhereRefs (add_refs rs r) = WhereRefs r @ rs"
  "WhereColumns (add_refs rs r) = WhereColumns r @ map ref_Column rs"
  "Functions (add_refs rs r) = Functions r" "SelectAll (add_refs rs r) = SelectAll r"
  "Tables (add_refs rs r) = Tables r" "result_class (add_refs rs r) = result_class r"
  "CTEAliases (add_refs rs r) = CTEAliases r" "TableAliases (add_refs rs r) = TableAliases r"
  by (simp_all add: add_refs_def)

lemma add_functions_simps [simp]:
  "Functions (add_functions fs r) = Functions r @ fs"
  "WhereRefs (add_functions fs r) = WhereRefs r" "WhereColumns (add_functions fs r) = WhereColumns r"
  "SelectAll (add_functions fs r) = SelectAll r"
  "Tables (add_functions fs r) = Tables r" "result_class (add_functions fs r) = result_class r"
  "CTEAliases (add_functions fs r) = CTEAliases r" "TableAliases (add_functions fs r) = TableAliases r"
  by (simp_all add: add_functions_def)

lemmas walkers = extractColumnsFromExpr_walk collectFunctionsFromExpr_walk

section \<open>The nested SELECT statements\<close>

definition nested_selects :: "Select \<Rightarrow> Select list" where
  "nested_selects s =
     List.map_filter (\<lambda>cte. case cte of CTE ident (SelectStatement ss) \<Rightarrow> Some ss | _ \<Rightarrow> None)
       (case select_With s of None \<Rightarrow> [] | Some ctes \<Rightarrow> ctes) @
     List.map_filter (\<lambda>te. case te of
         AliasedTableExpr (DerivedTable (SelectStatement inner)) as \<Rightarrow> Some inner | _ \<Rightarrow> None)
       (select_From s)"

inductive visited :: "Select \<Rightarrow> Select \<Rightarrow> bool" where
  visited_refl: "visited s s"
| visited_step: "s1 \<in> set (nested_selects s) \<Longrightarrow> visited s1 s2 \<Longrightarrow> visited s s2"

lemma visited_iff: "visited s s2 \<longleftrightarrow> s2 = s \<or> (\<exists>s1\<in>set (nested_selects s). visited s1 s2)"
  by (auto elim: visited.cases intro: visited.intros)

fun on_conditions :: "TableExpr \<Rightarrow> Expr list" where
  "on_conditions (JoinTableExpr l r on) =
     (case on of None \<Rightarrow> [] | Some e \<Rightarrow> [e]) @ on_conditions l @ on_conditions r"
| "on_conditions (ParenTableExpr es) = concat (map on_conditions es)"
| "on_conditions (AliasedTableExpr e as) = []"
| "on_conditions OtherTableExpr = []"

text \<open>The expressions of one SELECT, without those of nested statements.\<close>

definition filter_exprs :: "Select \<Rightarrow> Expr list" where
  "filter_exprs s = (case select_Where s of None \<Rightarrow> [] | Some e \<Rightarrow> [e]) @
     concat (map on_conditions (select_From s))"

definition projection_exprs :: "Select \<Rightarrow> Expr list" where
  "projection_exprs s =
     List.map_filter (\<lambda>e. case e of AliasedExpr x \<Rightarrow> Some x | _ \<Rightarrow> None) (select_SelectExprs s) @
     (case select_Where s of None \<Rightarrow> [] | Some e \<Rightarrow> [e])"

lemma extractOnClauseColumns_walk:
  "extractOnClauseColumns te r = add_refs (concat (map expr_refs (on_conditions te))) r"
proof (induction te r rule: extractOnClauseColumns.induct)
  case (2 es result)
  then have "fold extractOnClauseColumns es result
      = add_refs (concat (map (\<lambda>te. concat (map expr_refs (on_conditions te))) es)) result"
    by (intro ref.fold_add)
  then show ?case by (simp add: concat_map_concat)
qed (simp_all add: walkers ref.add_Nil ref.add_add split: option.split)

section \<open>One pass over the nested statements\<close>

text \<open>
  A projection of the result that is a set, with what each stage of \<open>analyzeSelect\<close> adds to it.  The
  whole pass then adds what the stages add at every visited statement.
\<close>

definition stage_sum ::
  "(Expr \<Rightarrow> 'a set) \<Rightarrow> (TableExpr \<Rightarrow> 'a set) \<Rightarrow> (Select \<Rightarrow> 'a set) \<Rightarrow> Select \<Rightarrow> 'a set" where
  "stage_sum cols on fns s =
     (case select_Where s of None \<Rightarrow> {} | Some e \<Rightarrow> cols e) \<union> (\<Union>te\<in>set (select_From s). on te) \<union> fns s"

lemma size_nested_select: "s1 \<in> set (nested_selects s) \<Longrightarrow> size s1 < size s"
  by (cases s) (fastforce simp: nested_selects_def List.map_filter_def
      split: option.splits CTE.splits TableStatement.splits TableExpr.splits SimpleTableExpr.splits
      dest!: size_cte_select size_derived_select)

lemma nested_cte:
  "select_With s = Some ctes \<Longrightarrow> CTE ident (SelectStatement ss) \<in> set ctes \<Longrightarrow> ss \<in> set (nested_selects s)"
  by (force simp: nested_selects_def List.map_filter_def)

lemma nested_derived:
  "AliasedTableExpr (DerivedTable (SelectStatement ss)) as \<in> set (select_From s)
    \<Longrightarrow> ss \<in> set (nested_selects s)"
  by (force simp: nested_selects_def List.map_filter_def)

locale select_pass =
  fixes proj :: "AnalysisResult \<Rightarrow> 'a set"
    and cols :: "Expr \<Rightarrow> 'a set" and on :: "TableExpr \<Rightarrow> 'a set" and fns :: "Select \<Rightarrow> 'a set"
  assumes columns: "proj (extractColumnsFromExpr e r) = proj r \<union> cols e"
    and aliases: "proj (collectTableAliases te r) = proj r"
    and on_clause: "proj (extractOnClauseColumns te r) = proj r \<union> on te"
    and fn_stars: "proj (collectFunctionsAndStars s r) = proj r \<union> fns s"
begin

lemma pass_step:
  assumes IH: "\<And>s1 r. s1 \<in> set (nested_selects s) \<Longrightarrow> proj (analyzeSelect s1 r) = proj r \<union> G s1"
  shows "proj (analyzeSelect s r)
    = proj r \<union> stage_sum cols on fns s \<union> (\<Union>s1\<in>set (nested_selects s). G s1)"
proof -
  obtain w ses fr wh hav where s: "s = Select w ses fr wh hav" by (cases s)
  let ?cte = "\<lambda>cte. case cte of CTE ident (SelectStatement ss) \<Rightarrow> Some ss | _ \<Rightarrow> None"
  let ?der = "\<lambda>te. case te of
    AliasedTableExpr (DerivedTable (SelectStatement inner)) as \<Rightarrow> Some inner | _ \<Rightarrow> None"
  have ctes: "proj (fold (\<lambda>cte result. case cte of
        CTE ident (SelectStatement ss) \<Rightarrow> analyzeSelect ss result | _ \<Rightarrow> result) ctes r)
      = proj r \<union> (\<Union>cte\<in>set ctes. case ?cte cte of None \<Rightarrow> {} | Some ss \<Rightarrow> G ss)" if "w = Some ctes" for ctes r
    by (rule fold_collect)
      (auto simp: s that IH [OF nested_cte] split: CTE.split TableStatement.split)
  have derived: "proj (fold (\<lambda>te result. case te of
        AliasedTableExpr (DerivedTable (SelectStatement inner)) as \<Rightarrow> analyzeSelect inner result
      | _ \<Rightarrow> result) fr r)
      = proj r \<union> (\<Union>te\<in>set fr. case ?der te of None \<Rightarrow> {} | Some ss \<Rightarrow> G ss)" for r
    by (rule fold_collect)
      (auto simp: s IH [OF nested_derived] split: TableExpr.split SimpleTableExpr.split
        TableStatement.split)
  have al: "proj (fold collectTableAliases fr r) = proj r" for r
    by (rule fold_keeps) (rule aliases)
  have onc: "proj (fold extractOnClauseColumns fr r) = proj r \<union> (\<Union>te\<in>set fr. on te)" for r
    by (rule fold_collect) (rule on_clause)
  have union: "(\<Union>x\<in>set xs. case f x of None \<Rightarrow> {} | Some y \<Rightarrow> G y) = (\<Union>y\<in>set (List.map_filter f xs). G y)"
    for f :: "'b \<Rightarrow> Select option" and xs
    by (force simp: List.map_filter_def split: option.splits)
  show ?thesis
    by (simp add: s analyzeSelect.simps Let_def fn_stars derived onc al columns ctes stage_sum_def
        nested_selects_def union Un_ac split: option.split)
qed

lemma pass_total:
  "proj (analyzeSelect s r) = proj r \<union> (\<Union>s1\<in>{s1. visited s s1}. stage_sum cols on fns s1)"
proof (induction s arbitrary: r rule: measure_induct_rule [of size])
  case (less s)
  have "proj (analyzeSelect s r) = proj r \<union> stage_sum cols on fns s
      \<union> (\<Union>s1\<in>set (nested_selects s). \<Union>s2\<in>{s2. visited s1 s2}. stage_sum cols on fns s2)"
    by (rule pass_step) (simp add: less size_nested_select)
  also have "\<dots> = proj r \<union> (\<Union>s1\<in>{s1. visited s s1}. stage_sum cols on fns s1)"
    using visited_iff [of s] by auto
  finally show ?case .
qed

end

lemma collectTableAliases_keeps:
  "WhereRefs (collectTableAliases te r) = WhereRefs r"
  "WhereColumns (collectTableAliases te r) = WhereColumns r"
  "Functions (collectTableAliases te r) = Functions r"
  "SelectAll (collectTableAliases te r) = SelectAll r"
  "Tables (collectTableAliases te r) = Tables r"
  "CTEAliases (collectTableAliases te r) = CTEAliases r"
  "result_class (collectTableAliases te r) = result_class r"
  by (induction te r rule: collectTableAliases.induct) (auto intro!: fold_keeps)

text \<open>The projections of one SELECT, as one pass that sets the flag and appends the functions.\<close>

definition add_projections :: "SelectExpr list \<Rightarrow> AnalysisResult \<Rightarrow> AnalysisResult" where
  "add_projections ses r = add_functions
     (concat (map expr_functions (List.map_filter (\<lambda>e. case e of AliasedExpr x \<Rightarrow> Some x | _ \<Rightarrow> None) ses)))
     (r\<lparr>SelectAll := SelectAll r \<or> StarExpr \<in> set ses\<rparr>)"

lemma fold_projections:
  "fold (\<lambda>expr result. case expr of
        StarExpr \<Rightarrow> result\<lparr>SelectAll := True\<rparr>
      | AliasedExpr e \<Rightarrow> collectFunctionsFromExpr e result
      | OtherSelectExpr \<Rightarrow> result) ses r = add_projections ses r"
proof (induction ses arbitrary: r)
  case (Cons e ses)
  then show ?case
    by (cases e) (simp_all add: add_projections_def add_functions_def walkers List.map_filter_simps)
qed (simp add: add_projections_def fn.add_Nil List.map_filter_simps)

lemma collectFunctionsAndStars_adds:
  "collectFunctionsAndStars s r = add_functions (concat (map expr_functions (projection_exprs s)))
     (r\<lparr>SelectAll := SelectAll r \<or> StarExpr \<in> set (select_SelectExprs s)\<rparr>)"
  by (simp add: collectFunctionsAndStars_def fold_projections projection_exprs_def walkers
      add_projections_def fn.add_add split: option.split)

interpretation refs_pass: select_pass
  "\<lambda>r. set (WhereRefs r)" "\<lambda>e. set (expr_refs e)"
  "\<lambda>te. \<Union>e\<in>set (on_conditions te). set (expr_refs e)" "\<lambda>s. {}"
  by unfold_locales
    (simp_all add: walkers extractOnClauseColumns_walk collectTableAliases_keeps collectFunctionsAndStars_adds)

interpretation fns_pass: select_pass
  "\<lambda>r. set (Functions r)" "\<lambda>e. {}" "\<lambda>te. {}"
  "\<lambda>s. \<Union>e\<in>set (projection_exprs s). set (expr_functions e)"
  by unfold_locales
    (simp_all add: walkers extractOnClauseColumns_walk collectTableAliases_keeps collectFunctionsAndStars_adds)

interpretation star_pass: select_pass
  "\<lambda>r. {u :: unit. SelectAll r}" "\<lambda>e. {}" "\<lambda>te. {}" "\<lambda>s. {u. StarExpr \<in> set (select_SelectExprs s)}"
  by unfold_locales
    (auto simp: walkers extractOnClauseColumns_walk collectTableAliases_keeps collectFunctionsAndStars_adds)

text \<open>Violations of \<open>WhereColumns = map Column WhereRefs\<close>: no stage adds one.\<close>

interpretation shape_pass: select_pass
  "\<lambda>r. {u :: unit. WhereColumns r \<noteq> map ref_Column (WhereRefs r)}" "\<lambda>e. {}" "\<lambda>te. {}" "\<lambda>s. {}"
  by unfold_locales
    (simp_all add: walkers extractOnClauseColumns_walk collectTableAliases_keeps collectFunctionsAndStars_adds)

interpretation frame_pass: select_pass
  "\<lambda>r. {(Tables r, CTEAliases r, result_class r)}" "\<lambda>e. {}" "\<lambda>te. {}" "\<lambda>s. {}"
  by unfold_locales
    (simp_all add: walkers extractOnClauseColumns_walk collectTableAliases_keeps collectFunctionsAndStars_adds)

lemma stage_sum_empty: "stage_sum (\<lambda>e. {}) (\<lambda>te. {}) fns s = fns s"
  by (simp add: stage_sum_def split: option.split)

lemma stage_sum_filters:
  "stage_sum (\<lambda>e. set (expr_refs e)) (\<lambda>te. \<Union>e\<in>set (on_conditions te). set (expr_refs e)) (\<lambda>s. {}) s
     = (\<Union>e\<in>set (filter_exprs s). set (expr_refs e))"
  by (auto simp: stage_sum_def filter_exprs_def split: option.split)

lemma analyzeSelect_refs:
  "set (WhereRefs (analyzeSelect s r)) = set (WhereRefs r)
     \<union> (\<Union>s1\<in>{s1. visited s s1}. \<Union>e\<in>set (filter_exprs s1). set (expr_refs e))"
  using refs_pass.pass_total [of s r] by (simp only: stage_sum_filters)

lemma analyzeSelect_functions:
  "set (Functions (analyzeSelect s r)) = set (Functions r)
     \<union> (\<Union>s1\<in>{s1. visited s s1}. \<Union>e\<in>set (projection_exprs s1). set (expr_functions e))"
  using fns_pass.pass_total [of s r] by (simp only: stage_sum_empty)

lemma analyzeSelect_star:
  "SelectAll (analyzeSelect s r) \<longleftrightarrow>
     SelectAll r \<or> (\<exists>s1. visited s s1 \<and> StarExpr \<in> set (select_SelectExprs s1))"
  using star_pass.pass_total [of s r]
  by (simp only: stage_sum_empty set_eq_iff Un_iff UN_iff mem_Collect_eq) blast

lemma analyzeSelect_frame [simp]:
  "Tables (analyzeSelect s r) = Tables r" "CTEAliases (analyzeSelect s r) = CTEAliases r"
  "result_class (analyzeSelect s r) = result_class r"
  using frame_pass.pass_total [of s r] by (simp_all only: stage_sum_empty) auto

lemma analyzeSelect_shape:
  "WhereColumns r = map ref_Column (WhereRefs r) \<Longrightarrow>
     WhereColumns (analyzeSelect s r) = map ref_Column (WhereRefs (analyzeSelect s r))"
  using shape_pass.pass_total [of s r]
  by (simp only: stage_sum_empty set_eq_iff Un_iff UN_iff mem_Collect_eq) blast

section \<open>Common table expressions of the nested statements\<close>

definition cte_idents :: "Select \<Rightarrow> string list" where
  "cte_idents s =
     map (\<lambda>cte. case cte of CTE ident sub \<Rightarrow> ident) (case select_With s of None \<Rightarrow> [] | Some ctes \<Rightarrow> ctes)"

lemma collect_step:
  assumes IH: "\<And>s1 r. s1 \<in> set (nested_selects s) \<Longrightarrow>
    set (CTEAliases (collectCTEAliases_select s1 r)) = set (CTEAliases r) \<union> G s1"
  shows "set (CTEAliases (collectCTEAliases_select s r))
    = set (CTEAliases r) \<union> set (cte_idents s) \<union> (\<Union>s1\<in>set (nested_selects s). G s1)"
proof -
  obtain w ses fr wh hav where s: "s = Select w ses fr wh hav" by (cases s)
  let ?sub = "\<lambda>cte. case cte of CTE ident (SelectStatement ss) \<Rightarrow> Some ss | _ \<Rightarrow> None"
  let ?der = "\<lambda>te. case te of
    AliasedTableExpr (DerivedTable (SelectStatement inner)) as \<Rightarrow> Some inner | _ \<Rightarrow> None"
  have ctes: "set (CTEAliases (fold (\<lambda>cte result. case cte of CTE ident sub \<Rightarrow>
                let result' = result\<lparr>CTEAliases := CTEAliases result @ [ident]\<rparr>
                in case sub of SelectStatement ss \<Rightarrow> collectCTEAliases_select ss result'
                   | _ \<Rightarrow> result') ctes r))
      = set (CTEAliases r) \<union> (\<Union>cte\<in>set ctes. insert (case cte of CTE ident sub \<Rightarrow> ident)
          (case ?sub cte of None \<Rightarrow> {} | Some ss \<Rightarrow> G ss))" if "w = Some ctes" for ctes r
    by (rule fold_collect [where proj = "\<lambda>r. set (CTEAliases r)"])
      (auto simp: s that Let_def IH [OF nested_cte] split: CTE.split TableStatement.split)
  have derived: "set (CTEAliases (fold (\<lambda>te result. case te of
        AliasedTableExpr (DerivedTable (SelectStatement sel)) as \<Rightarrow> collectCTEAliases_select sel result
      | _ \<Rightarrow> result) fr r))
      = set (CTEAliases r) \<union> (\<Union>te\<in>set fr. case ?der te of None \<Rightarrow> {} | Some ss \<Rightarrow> G ss)" for r
    by (rule fold_collect [where proj = "\<lambda>r. set (CTEAliases r)"])
      (auto simp: s IH [OF nested_derived] split: TableExpr.split SimpleTableExpr.split
        TableStatement.split)
  have union: "(\<Union>x\<in>set xs. case f x of None \<Rightarrow> {} | Some y \<Rightarrow> G y) = (\<Union>y\<in>set (List.map_filter f xs). G y)"
    for f :: "'b \<Rightarrow> Select option" and xs
    by (force simp: List.map_filter_def split: option.splits)
  have insert_union: "(\<Union>x\<in>A. insert (h x) (k x)) = h ` A \<union> (\<Union>x\<in>A. k x)"
    for h :: "CTE \<Rightarrow> string" and k A by auto
  show ?thesis
    by (simp add: s collectCTEAliases_select.simps derived ctes nested_selects_def union insert_union
        cte_idents_def Un_ac split: option.split)
qed

lemma collectCTEAliases_select_total:
  "set (CTEAliases (collectCTEAliases_select s r))
    = set (CTEAliases r) \<union> (\<Union>s1\<in>{s1. visited s s1}. set (cte_idents s1))"
proof (induction s arbitrary: r rule: measure_induct_rule [of size])
  case (less s)
  have "set (CTEAliases (collectCTEAliases_select s r)) = set (CTEAliases r) \<union> set (cte_idents s)
      \<union> (\<Union>s1\<in>set (nested_selects s). \<Union>s2\<in>{s2. visited s1 s2}. set (cte_idents s2))"
    by (rule collect_step) (simp add: less size_nested_select)
  also have "\<dots> = set (CTEAliases r) \<union> (\<Union>s1\<in>{s1. visited s s1}. set (cte_idents s1))"
    using visited_iff [of s] by auto
  finally show ?case .
qed

lemma collectCTEAliases_select_frame:
  "WhereRefs (collectCTEAliases_select s r) = WhereRefs r \<and>
   WhereColumns (collectCTEAliases_select s r) = WhereColumns r \<and>
   Functions (collectCTEAliases_select s r) = Functions r \<and>
   SelectAll (collectCTEAliases_select s r) = SelectAll r \<and>
   result_class (collectCTEAliases_select s r) = result_class r"
proof (induction s arbitrary: r rule: measure_induct_rule [of size])
  case (less s)
  let ?proj = "\<lambda>r. (WhereRefs r, WhereColumns r, Functions r, SelectAll r, result_class r)"
  obtain w ses fr wh hav where s: "s = Select w ses fr wh hav" by (cases s)
  have IH: "?proj (collectCTEAliases_select s1 r) = ?proj r" if "s1 \<in> set (nested_selects s)" for s1 r
    using less [OF size_nested_select [OF that]] by simp
  have ctes: "?proj (fold (\<lambda>cte result. case cte of CTE ident sub \<Rightarrow>
                let result' = result\<lparr>CTEAliases := CTEAliases result @ [ident]\<rparr>
                in case sub of SelectStatement ss \<Rightarrow> collectCTEAliases_select ss result'
                   | _ \<Rightarrow> result') ctes r) = ?proj r" if "w = Some ctes" for ctes r
    by (rule fold_keeps [where proj = ?proj])
      (use that IH [OF nested_cte] in \<open>auto simp: s Let_def split: CTE.split TableStatement.split\<close>)
  have derived: "?proj (fold (\<lambda>te result. case te of
        AliasedTableExpr (DerivedTable (SelectStatement sel)) as \<Rightarrow> collectCTEAliases_select sel result
      | _ \<Rightarrow> result) fr r) = ?proj r" for r
    by (rule fold_keeps [where proj = ?proj])
      (use IH [OF nested_derived] in \<open>auto simp: s split: TableExpr.split SimpleTableExpr.split
        TableStatement.split\<close>)
  show ?case
    using ctes derived by (simp add: s collectCTEAliases_select.simps split: option.split)
qed

section \<open>Properties of the analysis\<close>

text \<open>A statement to instantiate the properties at:
  \<open>SELECT f(a), * FROM (SELECT * FROM u) d JOIN t ON d.k = g(b) WHERE c\<close>.\<close>

definition demo_sql :: string where
  "demo_sql = ''SELECT f(a), * FROM (SELECT * FROM u) d JOIN t ON d.k = g(b) WHERE c''"

definition demo_select :: Select where
  "demo_select = Select None [AliasedExpr (FuncExpr ''F'' [ColName ''a'' None]), StarExpr]
     [JoinTableExpr
        (AliasedTableExpr (DerivedTable (SelectStatement
           (Select None [StarExpr] [AliasedTableExpr (TableName ''u'') None] None None))) (Some ''d''))
        (AliasedTableExpr (TableName ''t'') None)
        (Some (ComparisonExpr (ColName ''k'' (Some ''d'')) (FuncExpr ''g'' [ColName ''b'' None])))]
     (Some (ColName ''c'' None)) None"

lemma demo_class: "Classify demo_sql = StatementSelect"
  by (simp add: demo_sql_def go_eval Classify_def extractVerb_def strip_comments.simps runes_ascii
      encode_rune_def unicode_ToUpper_def verbClass_def)

lemma collectCTEAliases_frame [simp]:
  "WhereRefs (collectCTEAliases stmt r) = WhereRefs r"
  "WhereColumns (collectCTEAliases stmt r) = WhereColumns r"
  "Functions (collectCTEAliases stmt r) = Functions r"
  "SelectAll (collectCTEAliases stmt r) = SelectAll r"
  "result_class (collectCTEAliases stmt r) = result_class r"
  using collectCTEAliases_select_frame
  by (simp_all add: collectCTEAliases_def split: Statement.split TableStatement.split)

lemma empty_result_simps [simp]:
  "WhereRefs (empty_result c) = []" "WhereColumns (empty_result c) = []" "Functions (empty_result c) = []"
  "SelectAll (empty_result c) = False" "result_class (empty_result c) = c"
  "CTEAliases (empty_result c) = []" "Tables (empty_result c) = []"
  "TableAliases (empty_result c) = Map.empty"
  by (simp_all add: empty_result_def)

lemma Analyze_bypass: "IsBypass (Classify sql) \<Longrightarrow> Analyze parse sql = Inr (empty_result (Classify sql))"
  by (simp add: Analyze_def)

lemma Analyze_unparsed:
  "\<not> IsBypass (Classify sql) \<Longrightarrow> parse (normalizeForVitess sql) = None \<Longrightarrow>
    Analyze parse sql = Inr ((empty_result (Classify sql))\<lparr>Tables := extractTableNamesRaw sql []\<rparr>)"
  by (simp add: Analyze_def)

lemma Analyze_parsed:
  "\<not> IsBypass (Classify sql) \<Longrightarrow> parse (normalizeForVitess sql) = Some stmt \<Longrightarrow>
    Analyze parse sql = Inr (analyze_stmt stmt
      ((collectCTEAliases stmt (empty_result (Classify sql)))\<lparr>Tables :=
         extractTableNamesRaw sql (CTEAliases (collectCTEAliases stmt (empty_result (Classify sql))))\<rparr>))"
  by (simp add: Analyze_def Let_def)

lemma set_expr_refs: "set (expr_refs e) = {x. \<exists>d\<in>set (walk e). col_ref d = Some x}"
  by (force simp: expr_refs_def List.map_filter_def image_iff)

lemma set_expr_functions: "set (expr_functions e) = {x. \<exists>d\<in>set (walk e). fun_name d = Some x}"
  by (force simp: expr_functions_def List.map_filter_def image_iff)

lemma analyze_stmt_frame [simp]:
  "Tables (analyze_stmt stmt r) = Tables r" "CTEAliases (analyze_stmt stmt r) = CTEAliases r"
  "result_class (analyze_stmt stmt r) = result_class r"
  by (auto simp: analyze_stmt_def analyzeInsert_def analyzeUpdate_def analyzeDelete_def analyzeDDL_def
      walkers extractOnClauseColumns_walk ref.fold_add [where g = "\<lambda>te. concat (map expr_refs (on_conditions te))"]
      split: Statement.split TableStatement.split option.split)

lemma analyze_stmt_shape:
  "WhereColumns r = map ref_Column (WhereRefs r) \<Longrightarrow>
     WhereColumns (analyze_stmt stmt r) = map ref_Column (WhereRefs (analyze_stmt stmt r))"
  by (auto simp: analyze_stmt_def analyzeInsert_def analyzeUpdate_def analyzeDelete_def analyzeDDL_def
      walkers extractOnClauseColumns_walk ref.fold_add [where g = "\<lambda>te. concat (map expr_refs (on_conditions te))"]
      intro: analyzeSelect_shape split: Statement.split TableStatement.split option.split)

lemma distinct_tables: "distinct (extractTableNamesRaw sql aliases)"
  by (simp add: extractTableNamesRaw_candidates)

lemma Analyze_classified: "\<exists>res. Analyze parse sql = Inr res \<and> result_class res = Classify sql"
  by (cases "IsBypass (Classify sql)"; cases "parse (normalizeForVitess sql)")
    (simp_all add: Analyze_bypass Analyze_unparsed Analyze_parsed analyze_stmt_shape)

text \<open>The source has no error return: the analysis yields a result whatever the parser answers, so the
  caller's branch for a parser error is dead code.  The result carries the class of the statement, tables
  without duplicates, and one WHERE column per reference.\<close>

lemma Analyze_total:
  "\<exists>res. Analyze parse sql = Inr res \<and> result_class res = Classify sql \<and> distinct (Tables res) \<and>
     WhereColumns res = map ref_Column (WhereRefs res)"
proof (cases "IsBypass (Classify sql)")
  case True
  then show ?thesis by (simp add: Analyze_bypass)
next
  case False
  then show ?thesis
    by (cases "parse (normalizeForVitess sql)")
      (simp_all add: Analyze_unparsed Analyze_parsed distinct_tables analyze_stmt_shape)
qed

text \<open>C30. The filter references of a parsed SELECT that is no bypass statement are exactly the column nodes that
  the walk over the WHERE and ON expressions meets, in the statement itself and, transitively, in the bodies of its
  CTEs and in the derived tables that are direct entries of its FROM list, where these are plain SELECTs; set
  operations and derived tables under a JOIN are not entered.\<close>

theorem Analyze_where_refs:
  assumes "\<not> IsBypass (Classify sql)" and "parse (normalizeForVitess sql) = Some (StmtSelect s)"
  shows "\<exists>res. Analyze parse sql = Inr res \<and> set (WhereRefs res) =
    {x. \<exists>s1 e d. visited s s1 \<and> e \<in> set (filter_exprs s1) \<and> d \<in> set (walk e) \<and> col_ref d = Some x}"
  by (auto simp: Analyze_parsed [of sql parse, OF assms] analyze_stmt_def analyzeSelect_refs set_expr_refs)

lemma Analyze_where_refs_witness:
  "\<exists>res. Analyze (\<lambda>_. Some (StmtSelect demo_select)) demo_sql = Inr res \<and> set (WhereRefs res) =
    {x. \<exists>s1 e d. visited demo_select s1 \<and> e \<in> set (filter_exprs s1) \<and> d \<in> set (walk e) \<and> col_ref d = Some x}"
  using Analyze_where_refs [of demo_sql "\<lambda>_. Some (StmtSelect demo_select)" demo_select]
  by (simp add: demo_class IsBypass_def)

text \<open>The function names of a SELECT are exactly the lowercased names of the calls that the walk
  over its projections and its WHERE clause meets, nested statements included; calls in ON or HAVING
  are not among them.\<close>

lemma Analyze_functions:
  assumes "\<not> IsBypass (Classify sql)" and "parse (normalizeForVitess sql) = Some (StmtSelect s)"
  shows "\<exists>res. Analyze parse sql = Inr res \<and> set (Functions res) =
    {x. \<exists>s1 e d. visited s s1 \<and> e \<in> set (projection_exprs s1) \<and> d \<in> set (walk e) \<and> fun_name d = Some x}"
  by (auto simp: Analyze_parsed [of sql parse, OF assms] analyze_stmt_def analyzeSelect_functions
      set_expr_functions)

lemma Analyze_functions_witness:
  "\<exists>res. Analyze (\<lambda>_. Some (StmtSelect demo_select)) demo_sql = Inr res \<and> set (Functions res) =
    {x. \<exists>s1 e d. visited demo_select s1 \<and> e \<in> set (projection_exprs s1) \<and> d \<in> set (walk e) \<and> fun_name d = Some x}"
  using Analyze_functions [of demo_sql "\<lambda>_. Some (StmtSelect demo_select)" demo_select]
  by (simp add: demo_class IsBypass_def)

text \<open>The star flag of a SELECT is set exactly when the statement or a nested one has a star as an
  entry of its projection list; a star inside a call such as \<open>COUNT(*)\<close> never sets it.\<close>

lemma Analyze_select_star:
  assumes "\<not> IsBypass (Classify sql)" and "parse (normalizeForVitess sql) = Some (StmtSelect s)"
  shows "\<exists>res. Analyze parse sql = Inr res \<and>
    (SelectAll res \<longleftrightarrow> (\<exists>s1. visited s s1 \<and> StarExpr \<in> set (select_SelectExprs s1)))"
  by (simp add: Analyze_parsed [of sql parse, OF assms] analyze_stmt_def analyzeSelect_star)

lemma Analyze_select_star_witness:
  "\<exists>res. Analyze (\<lambda>_. Some (StmtSelect demo_select)) demo_sql = Inr res \<and>
    (SelectAll res \<longleftrightarrow> (\<exists>s1. visited demo_select s1 \<and> StarExpr \<in> set (select_SelectExprs s1)))"
  using Analyze_select_star [of demo_sql "\<lambda>_. Some (StmtSelect demo_select)" demo_select]
  by (simp add: demo_class IsBypass_def)

text \<open>C29. The CTE names of a parsed SELECT that is no bypass statement are exactly those of the WITH clauses of
  the statement itself and, transitively, of the bodies of its CTEs and of the derived tables that are direct entries
  of its FROM list, where these are plain SELECTs; and no reported table is one of these names, in any letter case.\<close>

theorem Analyze_cte_aliases:
  assumes "\<not> IsBypass (Classify sql)" and "parse (normalizeForVitess sql) = Some (StmtSelect s)"
  shows "\<exists>res. Analyze parse sql = Inr res \<and>
    set (CTEAliases res) = (\<Union>s1\<in>{s1. visited s s1}. set (cte_idents s1)) \<and>
    (\<forall>t\<in>set (Tables res). \<forall>a\<in>set (CTEAliases res). ToUpper t \<noteq> ToUpper a)"
proof -
  have "ToUpper t \<noteq> ToUpper a" if "t \<in> set (extractTableNamesRaw sql as)" and "a \<in> set as" for t a as
    using that by (auto simp: extractTableNamesRaw_candidates set_candidates candidate_def table_token_def
        skip_set_def split: if_splits)
  then show ?thesis
    by (simp add: Analyze_parsed [of sql parse, OF assms] analyze_stmt_def collectCTEAliases_def
        collectCTEAliases_select_total)
qed

lemma Analyze_cte_aliases_witness:
  "\<exists>res. Analyze (\<lambda>_. Some (StmtSelect demo_select)) demo_sql = Inr res \<and>
    set (CTEAliases res) = (\<Union>s1\<in>{s1. visited demo_select s1}. set (cte_idents s1)) \<and>
    (\<forall>t\<in>set (Tables res). \<forall>a\<in>set (CTEAliases res). ToUpper t \<noteq> ToUpper a)"
  using Analyze_cte_aliases [of demo_sql "\<lambda>_. Some (StmtSelect demo_select)" demo_select]
  by (simp add: demo_class IsBypass_def)

text \<open>
  Limits of the walk.  A call in an ON condition is not collected, although the same condition's columns
  are; UPDATE and DELETE statements and set operations contribute no functions at all.
\<close>

lemma on_clause_function_missed:
  "Functions (analyzeSelect demo_select r) = Functions r @ [''f'']"
  by (simp add: demo_select_def analyzeSelect.simps Let_def collectFunctionsAndStars_def ToLower_ascii go_eval
      split: option.split)

lemma update_delete_functions:
  "Functions (analyzeUpdate tes wh r) = Functions r" "Functions (analyzeDelete wh r) = Functions r"
  by (simp_all add: analyzeUpdate_def analyzeDelete_def walkers extractOnClauseColumns_walk
      ref.fold_add [where g = "\<lambda>te. concat (map expr_refs (on_conditions te))"] split: option.split)

text \<open>A subquery on one side of a join is not walked: neither its star nor its filters are seen.\<close>

lemma joined_subquery_missed:
  "analyzeSelect (Select None [AliasedExpr (ColName ''a'' None)]
      [JoinTableExpr (AliasedTableExpr (TableName ''t'') None)
        (AliasedTableExpr (DerivedTable (SelectStatement
          (Select None [StarExpr] [AliasedTableExpr (TableName ''secret'') None] wh None))) (Some ''d'')) None]
      None None) r = r"
  by (simp add: analyzeSelect.simps Let_def collectFunctionsAndStars_def)

text \<open>A CTE that takes the name of a table hides the table wherever it occurs in the statement.\<close>

lemma cte_name_hides_table:
  "extractTableNamesRaw ''WITH keys AS (SELECT k FROM keys) SELECT k FROM keys'' [''keys''] = []"
proof -
  have "tokenizeRaw ''WITH keys AS (SELECT k FROM keys) SELECT k FROM keys'' =
      [''WITH'', ''keys'', ''AS'', ''('', ''SELECT'', ''k'', ''FROM'', ''keys'', '')'', ''SELECT'', ''k'', ''FROM'', ''keys'']"
    by (simp add: tokenizeRaw_def tokenize_loop_lex go_eval)
  then show ?thesis
    by (simp only: extractTableNamesRaw_candidates) (simp add: candidates_eval go_eval)
qed

end
