(* ===== verification/Go_Numbers.thy ===== *)
theory Go_Numbers
  imports Go_Prelude "HOL-Library.Word" "HOL-Library.Log_Nat"
begin

text \<open>
  Go's fixed-size numbers.  An \<open>int64\<close> (and an \<open>int\<close>, and a \<open>time.Duration\<close>, which counts nanoseconds) is a
  64-bit word read with \<^const>\<open>sint\<close>; its addition wraps.  A \<open>float64\<close> is a rational, an infinity or NaN
  (the two zeros are not told apart: the program only adds and compares); a sum is rounded to the nearest
  double, ties to even.  The conversion of a float to an integer truncates; out of range Go leaves the
  result to the implementation, and the model takes the one of amd64, the smallest integer.
\<close>

section \<open>64-bit integers\<close>

type_synonym int64 = "64 word"

abbreviation min_int64 :: int64 where
  "min_int64 \<equiv> word_of_int (- (2 ^ 63))"

text \<open>The 64-bit sum of two integers is exact when the sum is in range.\<close>

lemma sint_int64_range: "- (2 ^ 63) \<le> sint (x :: int64)" "sint (x :: int64) < 2 ^ 63"
  using sint_greater_eq [of x] sint_lt [of x] by simp_all

lemma sint_word_of_int64:
  "- (2 ^ 63) \<le> i \<Longrightarrow> i < 2 ^ 63 \<Longrightarrow> sint (word_of_int i :: int64) = i"
  by (simp add: sint_sbintrunc' signed_take_bit_int_eq_self)

lemma sint_add_exact:
  assumes "- (2 ^ 63) \<le> sint (x :: int64) + sint y" and "sint x + sint y < 2 ^ 63"
  shows "sint (x + y) = sint x + sint y"
proof -
  have "x + y = word_of_int (sint x + sint y)" by simp
  then show ?thesis using sint_word_of_int64 [OF assms] by metis
qed

section \<open>Floating-point numbers\<close>

datatype float64 = Finite rat | PosInf | NegInf | NaN

definition pow2 :: "int \<Rightarrow> rat" where
  "pow2 k = (if 0 \<le> k then 2 ^ nat k else 1 / 2 ^ nat (- k))"

text \<open>The exponent of the power of two at or below a positive rational.\<close>

definition rat_exponent :: "rat \<Rightarrow> int" where
  "rat_exponent x =
     (let (a, b) = quotient_of x; k = bitlen a - bitlen b
      in if pow2 k \<le> x then k else k - 1)"

definition round_even :: "rat \<Rightarrow> int" where
  "round_even x =
     (let f = \<lfloor>x\<rfloor>; r = x - of_int f
      in if r < 1 / 2 then f else if 1 / 2 < r then f + 1 else if even f then f else f + 1)"

definition round64 :: "rat \<Rightarrow> float64" where
  "round64 x =
     (if x = 0 then Finite 0
      else let e = max (- 1022) (rat_exponent \<bar>x\<bar>);
               ulp = pow2 (e - 52);
               y = of_int (round_even (x / ulp)) * ulp
           in if pow2 1024 \<le> y then PosInf else if y \<le> - pow2 1024 then NegInf else Finite y)"

fun float_add :: "float64 \<Rightarrow> float64 \<Rightarrow> float64" where
  "float_add (Finite a) (Finite b) = round64 (a + b)"
| "float_add NaN y = NaN"
| "float_add x NaN = NaN"
| "float_add PosInf NegInf = NaN"
| "float_add NegInf PosInf = NaN"
| "float_add PosInf y = PosInf"
| "float_add x PosInf = PosInf"
| "float_add NegInf y = NegInf"
| "float_add x NegInf = NegInf"

fun float_less :: "float64 \<Rightarrow> float64 \<Rightarrow> bool" where
  "float_less (Finite a) (Finite b) = (a < b)"
| "float_less NaN y = False"
| "float_less x NaN = False"
| "float_less NegInf y = (y \<noteq> NegInf)"
| "float_less x PosInf = (x \<noteq> PosInf)"
| "float_less PosInf y = False"
| "float_less x NegInf = False"

definition float_le :: "float64 \<Rightarrow> float64 \<Rightarrow> bool" where
  "float_le x y \<longleftrightarrow> float_less x y \<or> (x = y \<and> x \<noteq> NaN)"

abbreviation float_zero :: float64 where
  "float_zero \<equiv> Finite 0"

definition int64_of_float :: "float64 \<Rightarrow> int64" where
  "int64_of_float x = (case x of
     Finite q \<Rightarrow>
       let t = (if 0 \<le> q then \<lfloor>q\<rfloor> else \<lceil>q\<rceil>)
       in if - (2 ^ 63) \<le> t \<and> t < 2 ^ 63 then word_of_int t else min_int64
   | _ \<Rightarrow> min_int64)"

lemma float_less_irrefl [simp]: "\<not> float_less x x"
  by (cases x) auto

lemma float_less_trans: "float_less x y \<Longrightarrow> float_less y z \<Longrightarrow> float_less x z"
  by (cases x; cases y; cases z) auto

lemma float_less_asym: "float_less x y \<Longrightarrow> \<not> float_less y x"
  using float_less_trans float_less_irrefl by blast

lemma float_less_total: "x \<noteq> NaN \<Longrightarrow> y \<noteq> NaN \<Longrightarrow> float_less x y \<or> x = y \<or> float_less y x"
  by (cases x; cases y) auto

lemma NaN_unordered [simp]: "\<not> float_less NaN x" "\<not> float_less x NaN"
  by (cases x; simp)+

lemma int64_of_float_int:
  "- (2 ^ 63) \<le> i \<Longrightarrow> i < 2 ^ 63 \<Longrightarrow> sint (int64_of_float (Finite (of_int i))) = i"
  by (simp add: int64_of_float_def sint_word_of_int64)

lemma int64_of_float_range:
  assumes "0 \<le> q" and "q < 2 ^ 63"
  shows "sint (int64_of_float (Finite q)) = \<lfloor>q\<rfloor>"
proof -
  have "0 \<le> \<lfloor>q\<rfloor>" and "\<lfloor>q\<rfloor> < 2 ^ 63" using assms by (simp_all add: floor_less_iff)
  then show ?thesis using assms(1) by (simp add: int64_of_float_def sint_word_of_int64)
qed

text \<open>A value beyond the range of \<open>int64\<close> becomes the smallest integer.\<close>

lemma int64_of_float_overflow:
  assumes "2 ^ 63 \<le> q"
  shows "sint (int64_of_float (Finite q)) = - (2 ^ 63)"
proof -
  have "0 \<le> q" using assms by (rule order_trans [rotated]) simp
  moreover have "\<not> \<lfloor>q\<rfloor> < 2 ^ 63" using assms by (simp add: floor_less_iff)
  ultimately have "int64_of_float (Finite q) = min_int64"
    unfolding int64_of_float_def by simp
  then show ?thesis by (simp add: sint_word_of_int64)
qed

end
