(* ===== verification/Config_Policy.thy ===== *)
theory Config_Policy
  imports Go_Strings Go_Numbers
begin

text \<open>
  \<open>internal/config/config.go\<close>: the policy, its defaults, its validation and its loading, and the shared
  \<open>Config\<close> cell.  Reading the file and decoding the YAML (with unknown fields refused) are library calls
  and parameters of \<open>Load\<close>.  The mutex of \<open>Config\<close> makes \<open>Get\<close> and \<open>Set\<close> atomic, so a \<open>Config\<close> is a cell
  and each of the two is one step.
\<close>

section \<open>The policy\<close>

record TLSConfig =
  CertFile :: string
  KeyFile :: string

record ServerConfig =
  Port :: int64
  ReadTimeout :: int64
  WriteTimeout :: int64
  ShutdownGrace :: int64
  TLS :: TLSConfig

record UpstreamConfig =
  URL :: string
  upstream_Timeout :: int64

record PreflightConfig =
  preflight_Timeout :: int64
  MaxConcurrent :: int64

record RequiredFilter =
  filter_Catalog :: string
  filter_Schema :: string
  filter_Table :: string
  filter_Mode :: string
  filter_Columns :: "string list"

record CostLimit =
  limit_Catalog :: string
  limit_Schema :: string
  limit_Table :: string
  MaxScanBytes :: int64
  MaxRows :: int64
  MaxScanBytesPerQuery :: int64
  MaxCPUCostPerQuery :: float64

record RulesConfig =
  TableBlocklist :: "string list"
  RequiredFilters :: "RequiredFilter list"
  CostLimits :: "CostLimit list"
  StatementBlocklist :: "string list"
  FunctionBlocklist :: "string list"
  SelectStarBlockedTables :: "string list"

record TelemetryConfig =
  telemetry_Enabled :: bool
  telemetry_Path :: string

record AuditConfig =
  LogRejections :: bool
  SnapshotPlan :: bool

record Policy =
  Server :: ServerConfig
  Upstream :: UpstreamConfig
  Preflight :: PreflightConfig
  Rules :: RulesConfig
  Telemetry :: TelemetryConfig
  Audit :: AuditConfig

definition TLS_Enabled :: "TLSConfig \<Rightarrow> bool" where
  "TLS_Enabled t \<longleftrightarrow> CertFile t \<noteq> [] \<and> KeyFile t \<noteq> []"

section \<open>Defaults\<close>

abbreviation seconds :: "int64 \<Rightarrow> int64" where
  "seconds n \<equiv> n * 1000000000"

definition default_if_zero :: "int64 \<Rightarrow> int64 \<Rightarrow> int64" where
  "default_if_zero d x = (if x = 0 then d else x)"

definition setDefaults :: "Policy \<Rightarrow> Policy" where
  "setDefaults p = p
     \<lparr>Server := (Server p)
        \<lparr>Port := default_if_zero 8080 (Port (Server p)),
         ReadTimeout := default_if_zero (seconds 30) (ReadTimeout (Server p)),
         WriteTimeout := default_if_zero (seconds 300) (WriteTimeout (Server p)),
         ShutdownGrace := default_if_zero (seconds 10) (ShutdownGrace (Server p))\<rparr>,
      Upstream := (Upstream p)\<lparr>upstream_Timeout := default_if_zero (seconds 30) (upstream_Timeout (Upstream p))\<rparr>,
      Preflight := (Preflight p)
        \<lparr>preflight_Timeout := default_if_zero (seconds 2) (preflight_Timeout (Preflight p)),
         MaxConcurrent := default_if_zero 5 (MaxConcurrent (Preflight p))\<rparr>,
      Telemetry := (Telemetry p)
        \<lparr>telemetry_Path := (if telemetry_Path (Telemetry p) = [] then ''/metrics''
                           else telemetry_Path (Telemetry p))\<rparr>\<rparr>"

section \<open>Validation\<close>

datatype policy_error =
    BadPort int64
  | EmptyUpstream
  | NoRules
  | NegativeLimit CostLimit
  | NegativeCPULimit float64
  | FilterWithoutScope nat
  | FilterBadMode nat string
  | FilterWithoutColumns nat
  | FilterEmptyColumn nat
  | HalfTLS

definition check_limit :: "CostLimit \<Rightarrow> policy_error option" where
  "check_limit cl =
     (if sint (MaxScanBytes cl) < 0 \<or> sint (MaxRows cl) < 0 \<or> sint (MaxScanBytesPerQuery cl) < 0
      then Some (NegativeLimit cl)
      else if float_less (MaxCPUCostPerQuery cl) float_zero
      then Some (NegativeCPULimit (MaxCPUCostPerQuery cl))
      else None)"

definition check_filter :: "nat \<Rightarrow> RequiredFilter \<Rightarrow> policy_error option" where
  "check_filter i rf =
     (if filter_Schema rf = [] \<or> filter_Table rf = [] then Some (FilterWithoutScope i)
      else if filter_Mode rf \<notin> {[], ''any-of'', ''all-of''} then Some (FilterBadMode i (filter_Mode rf))
      else if filter_Columns rf = [] then Some (FilterWithoutColumns i)
      else if list_ex (\<lambda>c. c = []) (filter_Columns rf) then Some (FilterEmptyColumn i)
      else None)"

text \<open>A loop that returns the first error an element gives.\<close>

fun first_error :: "('a \<Rightarrow> 'e option) \<Rightarrow> 'a list \<Rightarrow> 'e option" where
  "first_error f [] = None"
| "first_error f (x # xs) = (case f x of None \<Rightarrow> first_error f xs | Some e \<Rightarrow> Some e)"

definition Validate :: "Policy \<Rightarrow> policy_error option" where
  "Validate p =
     (if sint (Port (Server p)) \<le> 0 \<or> 65535 < sint (Port (Server p)) then Some (BadPort (Port (Server p)))
      else if URL (Upstream p) = [] then Some EmptyUpstream
      else if CostLimits (Rules p) = [] \<and> TableBlocklist (Rules p) = [] \<and>
              RequiredFilters (Rules p) = [] \<and> StatementBlocklist (Rules p) = [] then Some NoRules
      else case first_error check_limit (CostLimits (Rules p)) of
          Some e \<Rightarrow> Some e
        | None \<Rightarrow>
            (case first_error (\<lambda>(i, rf). check_filter i rf) (enumerate 0 (RequiredFilters (Rules p))) of
               Some e \<Rightarrow> Some e
             | None \<Rightarrow>
                 (let tlsSet = (if CertFile (TLS (Server p)) \<noteq> [] then 1 else 0) +
                               (if KeyFile (TLS (Server p)) \<noteq> [] then 1 else 0 :: nat)
                  in if tlsSet = 1 then Some HalfTLS else None)))"

section \<open>Loading\<close>

datatype load_error = CannotRead | YAMLParseError | ValidationFailed policy_error

definition Load ::
  "(string \<Rightarrow> byte list option) \<Rightarrow> (byte list \<Rightarrow> Policy option) \<Rightarrow> string \<Rightarrow> (load_error, Policy) go_result"
where
  "Load read_file decode path =
     (case read_file path of
        None \<Rightarrow> Inl CannotRead
      | Some data \<Rightarrow>
          (case decode data of
             None \<Rightarrow> Inl YAMLParseError
           | Some p0 \<Rightarrow>
               (let p = setDefaults p0
                in case Validate p of Some e \<Rightarrow> Inl (ValidationFailed e) | None \<Rightarrow> Inr p)))"

section \<open>The shared cell\<close>

record Config =
  policy :: Policy

definition NewConfig :: "Policy \<Rightarrow> Config" where
  "NewConfig p = \<lparr>policy = p\<rparr>"

definition Get :: "Config \<Rightarrow> Policy" where
  "Get c = policy c"

definition Set :: "Policy \<Rightarrow> Config \<Rightarrow> Config" where
  "Set p c = c\<lparr>policy := p\<rparr>"

section \<open>What a valid policy is\<close>

definition valid_limit :: "CostLimit \<Rightarrow> bool" where
  "valid_limit cl \<longleftrightarrow> 0 \<le> sint (MaxScanBytes cl) \<and> 0 \<le> sint (MaxRows cl) \<and>
     0 \<le> sint (MaxScanBytesPerQuery cl) \<and> \<not> float_less (MaxCPUCostPerQuery cl) float_zero"

definition valid_filter :: "RequiredFilter \<Rightarrow> bool" where
  "valid_filter rf \<longleftrightarrow> filter_Schema rf \<noteq> [] \<and> filter_Table rf \<noteq> [] \<and>
     filter_Mode rf \<in> {[], ''any-of'', ''all-of''} \<and> filter_Columns rf \<noteq> [] \<and> [] \<notin> set (filter_Columns rf)"

definition valid_policy :: "Policy \<Rightarrow> bool" where
  "valid_policy p \<longleftrightarrow>
     sint (Port (Server p)) \<in> {1..65535} \<and> URL (Upstream p) \<noteq> [] \<and>
     (CostLimits (Rules p) \<noteq> [] \<or> TableBlocklist (Rules p) \<noteq> [] \<or>
      RequiredFilters (Rules p) \<noteq> [] \<or> StatementBlocklist (Rules p) \<noteq> []) \<and>
     list_all valid_limit (CostLimits (Rules p)) \<and> list_all valid_filter (RequiredFilters (Rules p)) \<and>
     (CertFile (TLS (Server p)) = [] \<longleftrightarrow> KeyFile (TLS (Server p)) = [])"

section \<open>Lemmas\<close>

lemma first_error_find:
  "first_error f xs = (case List.find (\<lambda>x. f x \<noteq> None) xs of None \<Rightarrow> None | Some x \<Rightarrow> f x)"
  by (induction xs) (auto split: option.split)

lemma check_limit_None: "check_limit cl = None \<longleftrightarrow> valid_limit cl"
  by (auto simp: check_limit_def valid_limit_def)

lemma check_filter_None: "check_filter i rf = None \<longleftrightarrow> valid_filter rf"
  by (auto simp: check_filter_def valid_filter_def list_ex_iff)

lemma first_error_limits: "first_error check_limit ls = None \<longleftrightarrow> list_all valid_limit ls"
proof (induction ls)
  case (Cons cl ls)
  show ?case using check_limit_None [of cl] by (cases "check_limit cl") (auto simp: Cons)
qed simp

lemma first_error_filters:
  "first_error (\<lambda>(i, rf). check_filter i rf) (enumerate n fs) = None \<longleftrightarrow> list_all valid_filter fs"
proof (induction fs arbitrary: n)
  case (Cons rf fs)
  show ?case using check_filter_None [of n rf] by (cases "check_filter n rf") (auto simp: Cons)
qed simp

lemma Validate_valid: "Validate p = None \<longleftrightarrow> valid_policy p"
proof -
  let ?limits = "first_error check_limit (CostLimits (Rules p))"
  let ?filters = "first_error (\<lambda>(i, rf). check_filter i rf) (enumerate 0 (RequiredFilters (Rules p)))"
  have "Validate p = None \<longleftrightarrow> sint (Port (Server p)) \<in> {1..65535} \<and> URL (Upstream p) \<noteq> [] \<and>
     (CostLimits (Rules p) \<noteq> [] \<or> TableBlocklist (Rules p) \<noteq> [] \<or>
      RequiredFilters (Rules p) \<noteq> [] \<or> StatementBlocklist (Rules p) \<noteq> []) \<and>
     ?limits = None \<and> ?filters = None \<and> (CertFile (TLS (Server p)) = [] \<longleftrightarrow> KeyFile (TLS (Server p)) = [])"
    by (cases ?limits; cases ?filters) (auto simp: Validate_def)
  then show ?thesis by (simp only: first_error_limits first_error_filters valid_policy_def)
qed

lemma default_if_zero_idem [simp]: "default_if_zero d (default_if_zero d x) = default_if_zero d x"
  by (simp add: default_if_zero_def)

lemma setDefaults_idem [simp]: "setDefaults (setDefaults p) = setDefaults p"
  by (simp add: setDefaults_def)

lemma default_if_zero_nonzero: "d \<noteq> 0 \<Longrightarrow> default_if_zero d x \<noteq> 0"
  by (simp add: default_if_zero_def)

lemma Load_Inr:
  "Load read_file decode path = Inr p \<longleftrightarrow>
     (\<exists>data p0. read_file path = Some data \<and> decode data = Some p0 \<and> p = setDefaults p0 \<and> valid_policy p)"
  by (auto simp: Load_def Let_def Validate_valid [symmetric] split: option.split)

section \<open>The interface of the cell\<close>

text \<open>
  What the users of \<open>Config\<close> rely on: a read returns what was last written, and a write leaves nothing
  of an earlier one.
\<close>

locale config_cell =
  fixes get :: "'c \<Rightarrow> 'p" and put :: "'p \<Rightarrow> 'c \<Rightarrow> 'c"
  assumes get_put: "get (put p c) = p"
    and put_put: "put q (put p c) = put q c"
begin

lemma get_fold: "get (fold put ps c) = (if ps = [] then get c else last ps)"
  by (induction ps rule: rev_induct) (simp_all add: get_put)

lemma fold_put: "ps \<noteq> [] \<Longrightarrow> fold put ps c = put (last ps) c"
  by (induction ps rule: rev_induct) (auto simp: put_put, metis fold_simps(1) put_put)

lemma get_invariant: "I (get c) \<Longrightarrow> list_all I ps \<Longrightarrow> I (get (fold put ps c))"
  by (auto simp: get_fold list_all_iff)

end

interpretation cell: config_cell Get Set
  by unfold_locales (simp_all add: Get_def Set_def)

section \<open>Properties\<close>

text \<open>A policy to instantiate the properties at, as the YAML decoder leaves it: one cost limit, one
  required filter, everything else zero.\<close>

definition demo_limit :: CostLimit where
  "demo_limit = \<lparr>limit_Catalog = ''hive'', limit_Schema = ''web'', limit_Table = ''clicks'',
     MaxScanBytes = 1000, MaxRows = 0, MaxScanBytesPerQuery = 5000, MaxCPUCostPerQuery = Finite 0\<rparr>"

definition demo_filter :: RequiredFilter where
  "demo_filter = \<lparr>filter_Catalog = [], filter_Schema = ''web'', filter_Table = ''clicks'',
     filter_Mode = [], filter_Columns = [''ds'', ''hour'']\<rparr>"

definition demo_policy :: Policy where
  "demo_policy = \<lparr>Server = \<lparr>Port = 0, ReadTimeout = 0, WriteTimeout = 0, ShutdownGrace = 0,
       TLS = \<lparr>CertFile = [], KeyFile = []\<rparr>\<rparr>,
     Upstream = \<lparr>URL = ''http://trino:8080/'', upstream_Timeout = 0\<rparr>,
     Preflight = \<lparr>preflight_Timeout = 0, MaxConcurrent = 0\<rparr>,
     Rules = \<lparr>TableBlocklist = [''hive.secret.keys''], RequiredFilters = [demo_filter],
       CostLimits = [demo_limit], StatementBlocklist = [''DROP''], FunctionBlocklist = [''Leak''],
       SelectStarBlockedTables = [''clicks'']\<rparr>,
     Telemetry = \<lparr>telemetry_Enabled = True, telemetry_Path = []\<rparr>,
     Audit = \<lparr>LogRejections = True, SnapshotPlan = False\<rparr>\<rparr>"

lemma valid_demo_policy: "valid_policy (setDefaults demo_policy)"
  by (simp add: valid_policy_def setDefaults_def demo_policy_def default_if_zero_def valid_limit_def
      valid_filter_def demo_limit_def demo_filter_def)

text \<open>C37. Validation accepts exactly the coherent policies: a port in range, an upstream, at least one of
  the four rule categories, no negative limit, every required filter scoped, with a known mode and
  non-empty columns, and TLS either complete or absent.\<close>

theorem Validate_exact: "Validate p = None \<longleftrightarrow> valid_policy p"
  by (rule Validate_valid)

text \<open>A loaded policy is coherent and has no defaultable field left at zero; filling in the defaults
  again changes nothing.\<close>

lemma Load_valid:
  assumes "Load read_file decode path = Inr p"
  shows "valid_policy p \<and> setDefaults p = p \<and> ReadTimeout (Server p) \<noteq> 0 \<and> WriteTimeout (Server p) \<noteq> 0 \<and>
    ShutdownGrace (Server p) \<noteq> 0 \<and> preflight_Timeout (Preflight p) \<noteq> 0 \<and>
    MaxConcurrent (Preflight p) \<noteq> 0 \<and> telemetry_Path (Telemetry p) \<noteq> []"
proof -
  obtain p0 where "p = setDefaults p0" and "valid_policy p" using assms by (auto simp: Load_Inr)
  then show ?thesis
    by (simp add: setDefaults_def default_if_zero_nonzero)
qed

lemma Load_valid_witness:
  "valid_policy (setDefaults demo_policy) \<and>
    setDefaults (setDefaults demo_policy) = setDefaults demo_policy \<and>
    MaxConcurrent (Preflight (setDefaults demo_policy)) \<noteq> 0"
  using Load_valid [of "\<lambda>_. Some []" "\<lambda>_. Some demo_policy" "''policy.yaml''" "setDefaults demo_policy"]
  by (simp add: Load_Inr valid_demo_policy)

text \<open>Loading reports every failure as a value: it fails exactly when the file cannot be read, cannot be
  decoded, or decodes to a policy that is not coherent once the defaults are filled in.\<close>

lemma Load_fails:
  "isl (Load read_file decode path) \<longleftrightarrow>
     \<not> (\<exists>data p0. read_file path = Some data \<and> decode data = Some p0 \<and> valid_policy (setDefaults p0))"
  by (auto simp: Load_def Let_def Validate_valid [symmetric] split: option.split)

text \<open>A policy whose only rules are a function blocklist or a star restriction is refused.\<close>

lemma other_rules_do_not_count:
  "CostLimits (Rules p) = [] \<Longrightarrow> TableBlocklist (Rules p) = [] \<Longrightarrow> RequiredFilters (Rules p) = [] \<Longrightarrow>
    StatementBlocklist (Rules p) = [] \<Longrightarrow> \<not> valid_policy p"
  by (simp add: valid_policy_def)

end
