(* ===== verification/Telemetry.thy ===== *)
theory Telemetry
  imports Go_Numbers
begin

text \<open>
  \<open>internal/telemetry/metrics.go\<close>: the recording methods.  A Prometheus counter is the total of what was
  added to it, the duration histogram the list of what it observed.  A nil \<open>*Metrics\<close> is \<open>None\<close>, on which
  every method does nothing.  Counters only grow, by additions that commute, so the model of a request keeps
  to its own additions and leaves out those of the requests next to it.
\<close>

section \<open>The metrics\<close>

datatype QueryStatus = StatusAllowed | StatusBlocked | StatusBypassed

primrec status_label :: "QueryStatus \<Rightarrow> string" where
  "status_label StatusAllowed = ''allowed''"
| "status_label StatusBlocked = ''blocked''"
| "status_label StatusBypassed = ''bypassed''"

record Metrics =
  queriesTotal :: "string \<times> string \<Rightarrow> nat"
  blockedBytesTotal :: rat
  preflightDuration :: "int64 list"
  preflightRejected :: nat
  preflightNoTableEstimates :: nat
  parserErrorsTotal :: nat

definition NewMetrics :: Metrics where
  "NewMetrics = \<lparr>queriesTotal = (\<lambda>_. 0), blockedBytesTotal = 0, preflightDuration = [],
     preflightRejected = 0, preflightNoTableEstimates = 0, parserErrorsTotal = 0\<rparr>"

definition defaultEngine :: string where
  "defaultEngine = ''trino''"

section \<open>Recording\<close>

definition RecordQuery :: "QueryStatus \<Rightarrow> string \<Rightarrow> Metrics option \<Rightarrow> Metrics option" where
  "RecordQuery status engine = map_option (\<lambda>m.
     let k = (status_label status, if engine = [] then defaultEngine else engine)
     in m\<lparr>queriesTotal := (queriesTotal m)(k := Suc (queriesTotal m k))\<rparr>)"

text \<open>\<open>float64(bytes)\<close> rounds; its value is what the counter grows by.\<close>

definition float_of_int64 :: "int64 \<Rightarrow> rat" where
  "float_of_int64 n = (case round64 (of_int (sint n)) of Finite q \<Rightarrow> q | _ \<Rightarrow> 0)"

definition RecordBlockedBytes :: "int64 \<Rightarrow> Metrics option \<Rightarrow> Metrics option" where
  "RecordBlockedBytes bytes = map_option (\<lambda>m.
     if sint bytes \<le> 0 then m else m\<lparr>blockedBytesTotal := blockedBytesTotal m + float_of_int64 bytes\<rparr>)"

definition ObservePreflight :: "int64 \<Rightarrow> Metrics option \<Rightarrow> Metrics option" where
  "ObservePreflight d = map_option (\<lambda>m. m\<lparr>preflightDuration := preflightDuration m @ [d]\<rparr>)"

definition RecordParserError :: "Metrics option \<Rightarrow> Metrics option" where
  "RecordParserError = map_option (\<lambda>m. m\<lparr>parserErrorsTotal := Suc (parserErrorsTotal m)\<rparr>)"

definition RecordPreflightRejected :: "Metrics option \<Rightarrow> Metrics option" where
  "RecordPreflightRejected = map_option (\<lambda>m. m\<lparr>preflightRejected := Suc (preflightRejected m)\<rparr>)"

definition RecordPreflightNoTableEstimates :: "Metrics option \<Rightarrow> Metrics option" where
  "RecordPreflightNoTableEstimates =
     map_option (\<lambda>m. m\<lparr>preflightNoTableEstimates := Suc (preflightNoTableEstimates m)\<rparr>)"

definition PreflightNoTableEstimates :: "Metrics \<Rightarrow> nat" where
  "PreflightNoTableEstimates m = preflightNoTableEstimates m"

lemmas metrics_defs = RecordQuery_def RecordBlockedBytes_def ObservePreflight_def RecordParserError_def
  RecordPreflightRejected_def RecordPreflightNoTableEstimates_def

section \<open>Lemmas\<close>

text \<open>The counter of one status and engine, zero without metrics.\<close>

definition query_count :: "Metrics option \<Rightarrow> QueryStatus \<Rightarrow> string \<Rightarrow> nat" where
  "query_count mo status engine =
     (case mo of None \<Rightarrow> 0 | Some m \<Rightarrow> queriesTotal m (status_label status, engine))"

lemma status_label_inject [simp]: "status_label s = status_label t \<longleftrightarrow> s = t"
  by (cases s; cases t) simp_all

lemma RecordQuery_count:
  "engine \<noteq> [] \<Longrightarrow> query_count (RecordQuery st engine (Some m)) st' engine' =
     query_count (Some m) st' engine' + (if st' = st \<and> engine' = engine then 1 else 0)"
  by (auto simp: query_count_def RecordQuery_def Let_def)

lemma metrics_nil [simp]:
  "RecordQuery st e None = None" "RecordBlockedBytes b None = None" "ObservePreflight d None = None"
  "RecordParserError None = None" "RecordPreflightRejected None = None"
  "RecordPreflightNoTableEstimates None = None"
  by (simp_all add: metrics_defs)

lemma metrics_nil_iff [simp]:
  "RecordQuery st e m = None \<longleftrightarrow> m = None" "RecordBlockedBytes b m = None \<longleftrightarrow> m = None"
  "ObservePreflight d m = None \<longleftrightarrow> m = None" "RecordParserError m = None \<longleftrightarrow> m = None"
  "RecordPreflightRejected m = None \<longleftrightarrow> m = None" "RecordPreflightNoTableEstimates m = None \<longleftrightarrow> m = None"
  by (simp_all add: metrics_defs)

lemma query_count_frame [simp]:
  "query_count (RecordBlockedBytes b m) st e = query_count m st e"
  "query_count (ObservePreflight d m) st e = query_count m st e"
  "query_count (RecordParserError m) st e = query_count m st e"
  "query_count (RecordPreflightRejected m) st e = query_count m st e"
  "query_count (RecordPreflightNoTableEstimates m) st e = query_count m st e"
  by (cases m; simp add: metrics_defs query_count_def)+

section \<open>Registration\<close>

text \<open>
  What \<open>NewMetrics\<close> registers, in the order of \<open>MustRegister\<close>, which panics on an ill-formed name and on a name that
  is taken.
\<close>

datatype collector = CounterVec string "string list" | Counter string | Histogram string

primrec collector_name :: "collector \<Rightarrow> string" where
  "collector_name (CounterVec n labels) = ''queryguard_'' @ n"
| "collector_name (Counter n) = ''queryguard_'' @ n"
| "collector_name (Histogram n) = ''queryguard_'' @ n"

definition collectors :: "collector list" where
  "collectors = [CounterVec ''queries_total'' [''status'', ''engine''], Counter ''blocked_bytes_total'',
     Histogram ''preflight_duration_seconds'', Counter ''preflight_rejected_total'', Counter ''parser_errors_total'',
     Counter ''preflight_no_table_estimates_total'']"

definition name_byte :: "byte \<Rightarrow> bool" where
  "name_byte b \<longleftrightarrow> b = CHR ''_'' \<or> b = CHR '':'' \<or> 97 \<le> byte_val b \<and> byte_val b \<le> 122 \<or>
     65 \<le> byte_val b \<and> byte_val b \<le> 90 \<or> 48 \<le> byte_val b \<and> byte_val b \<le> 57"

fun must_register :: "collector list \<Rightarrow> string list \<Rightarrow> string list option" where
  "must_register [] names = Some names"
| "must_register (c # cs) names =
     (if collector_name c \<in> set names \<or> \<not> list_all name_byte (collector_name c)
      then None else must_register cs (names @ [collector_name c]))"

lemma registration_succeeds: "must_register collectors [] = Some (map collector_name collectors)"
  by (simp add: collectors_def name_byte_def)

end
