(* ===== verification/Go_Http.thy ===== *)
theory Go_Http
  imports Go_Strings Go_Numbers
begin

text \<open>
  What the program uses of \<open>net/http\<close>: headers, requests and responses.  A header is a map from canonical
  names to values; it is kept as an association list, in the order a range over the map happens to visit
  it, so that what holds of every such list holds whatever the order.
\<close>

section \<open>Headers\<close>

type_synonym Header = "(string \<times> string list) list"

text \<open>The bytes of a header field name (RFC 7230 token characters).\<close>

definition is_token_byte :: "byte \<Rightarrow> bool" where
  "is_token_byte c \<longleftrightarrow>
     (let n = byte_val c
      in 48 \<le> n \<and> n \<le> 57 \<or> 65 \<le> n \<and> n \<le> 90 \<or> 97 \<le> n \<and> n \<le> 122 \<or>
         n \<in> {33, 35, 36, 37, 38, 39, 42, 43, 45, 46, 94, 95, 96, 124, 126})"

text \<open>\<open>textproto.CanonicalMIMEHeaderKey\<close>: upper case at the start and behind a hyphen, lower case
  elsewhere; a name with another byte in it is left alone.\<close>

fun canonical_from :: "bool \<Rightarrow> string \<Rightarrow> string" where
  "canonical_from upper [] = []"
| "canonical_from upper (c # cs) =
     (if upper then ascii_upper c else ascii_lower c) # canonical_from (c = CHR ''-'') cs"

definition CanonicalHeaderKey :: "string \<Rightarrow> string" where
  "CanonicalHeaderKey k = (if list_all is_token_byte k then canonical_from True k else k)"

definition header_values :: "Header \<Rightarrow> string \<Rightarrow> string list" where
  "header_values h k = (case map_of h k of None \<Rightarrow> [] | Some vs \<Rightarrow> vs)"

definition header_Get :: "Header \<Rightarrow> string \<Rightarrow> string" where
  "header_Get h k = (case header_values h (CanonicalHeaderKey k) of [] \<Rightarrow> [] | v # vs \<Rightarrow> v)"

definition header_Set :: "string \<Rightarrow> string \<Rightarrow> Header \<Rightarrow> Header" where
  "header_Set k v h = (CanonicalHeaderKey k, [v]) # filter (\<lambda>(k', vs). k' \<noteq> CanonicalHeaderKey k) h"

definition header_Add :: "string \<Rightarrow> string \<Rightarrow> Header \<Rightarrow> Header" where
  "header_Add k v h =
     (let c = CanonicalHeaderKey k
      in (c, header_values h c @ [v]) # filter (\<lambda>(k', vs). k' \<noteq> c) h)"

definition header_Del :: "string \<Rightarrow> Header \<Rightarrow> Header" where
  "header_Del k h = filter (\<lambda>(k', vs). k' \<noteq> CanonicalHeaderKey k) h"

text \<open>Assigning to the map directly, without canonicalisation.\<close>

definition header_put :: "string \<Rightarrow> string list \<Rightarrow> Header \<Rightarrow> Header" where
  "header_put k vs h = (k, vs) # filter (\<lambda>(k', vs'). k' \<noteq> k) h"

section \<open>Messages\<close>

record Request =
  req_Method :: string
  req_URL :: string
  req_Body :: "string option"
  req_Header :: Header

record Response =
  resp_StatusCode :: nat
  resp_Body :: string

section \<open>Lemmas\<close>

lemma map_of_filter_ne:
  "map_of (filter (\<lambda>(k', vs). k' \<noteq> c) h) k = (if k = c then None else map_of h k)"
  by (induction h) auto

lemma header_values_Add:
  "header_values (header_Add k v h) k' =
     header_values h k' @ (if k' = CanonicalHeaderKey k then [v] else [])"
  by (simp add: header_Add_def header_values_def Let_def map_of_filter_ne)

lemma header_values_Set:
  "header_values (header_Set k v h) k' = (if k' = CanonicalHeaderKey k then [v] else header_values h k')"
  by (simp add: header_Set_def header_values_def map_of_filter_ne)

lemma header_values_Del:
  "header_values (header_Del k h) k' = (if k' = CanonicalHeaderKey k then [] else header_values h k')"
  by (simp add: header_Del_def header_values_def map_of_filter_ne)

lemma header_values_put:
  "header_values (header_put k vs h) k' = (if k' = k then vs else header_values h k')"
  by (simp add: header_put_def header_values_def map_of_filter_ne)

end
