(* ===== verification/Engine_Limits.thy ===== *)
theory Engine_Limits
  imports Config_Policy Telemetry Go_Http
begin

text \<open>
  \<open>internal/engine/engine.go\<close> and the first half of \<open>trino.go\<close>: the result of a cost evaluation, the
  comparison of estimates with the configured limits, and the headers mirrored onto the shadow request.
  A rejection reason, which the code formats into text and hands on unread, is a value of
  \<open>limit_reason\<close>.  The arrival of a warning in the log is not modelled; the metric next to it is.
\<close>

section \<open>Results\<close>

record TableScan =
  scan_Table :: string
  ScanBytes :: int64
  Rows :: int64

datatype limit_reason =
    NoReason
  | PerQueryBytes int64 int64
  | CPUCost float64 float64
  | TableBytes string int64 int64
  | TableRows string int64 int64

record CostResult =
  Allowed :: bool
  EstimatedScanBytes :: int64
  EstimatedRows :: int64
  EstimatedCPUCost :: float64
  TableScans :: "TableScan list"
  Reason :: limit_reason
  cost_Engine :: string

section \<open>Matching a scanned table\<close>

text \<open>The component \<open>n\<close> places before the end of a dotted name (\<open>parts[len(parts)-1-n]\<close>).\<close>

definition component :: "string \<Rightarrow> nat \<Rightarrow> string option" where
  "component name n =
     (let parts = split_on (CHR ''.'') name
      in if n < length parts then Some (parts ! (length parts - 1 - n)) else None)"

definition tableMatches :: "string \<Rightarrow> CostLimit \<Rightarrow> bool" where
  "tableMatches scanTable cl \<longleftrightarrow>
     (if limit_Table cl \<noteq> [] \<and> component scanTable 0 \<noteq> Some (limit_Table cl) then False
      else if limit_Schema cl \<noteq> [] \<and> component scanTable 1 \<noteq> Some (limit_Schema cl) then False
      else if limit_Catalog cl \<noteq> [] \<and> component scanTable 2 \<noteq> Some (limit_Catalog cl) then False
      else True)"

section \<open>Limits\<close>

definition table_scoped :: "CostLimit \<Rightarrow> bool" where
  "table_scoped cl \<longleftrightarrow> limit_Catalog cl \<noteq> [] \<or> limit_Schema cl \<noteq> [] \<or> limit_Table cl \<noteq> []"

definition scan_breach :: "CostLimit \<Rightarrow> TableScan \<Rightarrow> limit_reason option" where
  "scan_breach cl s =
     (if \<not> tableMatches (scan_Table s) cl then None
      else if 0 < sint (MaxScanBytes cl) \<and> sint (MaxScanBytes cl) < sint (ScanBytes s)
      then Some (TableBytes (scan_Table s) (ScanBytes s) (MaxScanBytes cl))
      else if 0 < sint (MaxRows cl) \<and> sint (MaxRows cl) < sint (Rows s)
      then Some (TableRows (scan_Table s) (Rows s) (MaxRows cl))
      else None)"

definition limit_breach ::
  "int64 \<Rightarrow> TableScan list \<Rightarrow> float64 \<Rightarrow> CostLimit \<Rightarrow> limit_reason option" where
  "limit_breach totalScanBytes scans cpuCost cl =
     (if 0 < sint (MaxScanBytesPerQuery cl) \<and> sint (MaxScanBytesPerQuery cl) < sint totalScanBytes
      then Some (PerQueryBytes totalScanBytes (MaxScanBytesPerQuery cl))
      else if float_less float_zero (MaxCPUCostPerQuery cl) \<and> float_less (MaxCPUCostPerQuery cl) cpuCost
      then Some (CPUCost cpuCost (MaxCPUCostPerQuery cl))
      else if table_scoped cl then first_error (scan_breach cl) scans
      else None)"

definition evaluateLimits ::
  "Policy \<Rightarrow> int64 \<Rightarrow> int64 \<Rightarrow> TableScan list \<Rightarrow> float64 \<Rightarrow> Metrics option
     \<Rightarrow> (bool \<times> limit_reason) \<times> Metrics option" where
  "evaluateLimits p totalScanBytes totalRows scans cpuCost metrics =
     (let limits = CostLimits (Rules p);
          hasTableLimits = list_ex table_scoped limits;
          metrics = (if hasTableLimits \<and> scans = [] then RecordPreflightNoTableEstimates metrics else metrics)
      in (case first_error (limit_breach totalScanBytes scans cpuCost) limits of
            Some reason \<Rightarrow> (False, reason)
          | None \<Rightarrow> (True, NoReason), metrics))"

section \<open>Headers\<close>

definition isManagedHeader :: "string \<Rightarrow> bool" where
  "isManagedHeader key \<longleftrightarrow> ToLower key \<in>
     {''host'', ''content-length'', ''content-type'', ''transfer-encoding'', ''connection'',
      ''keep-alive'', ''proxy-connection'', ''te'', ''trailer'', ''upgrade'', ''proxy-authenticate'',
      ''proxy-authorization'', ''accept-encoding'', ''x-forwarded-for'', ''x-forwarded-host'',
      ''x-forwarded-proto''}"

definition copyHeaders :: "Header \<Rightarrow> Header \<Rightarrow> Header" where
  "copyHeaders dst src =
     fold (\<lambda>(k, vv) dst. if isManagedHeader k then dst else fold (header_Add k) vv dst) src dst"

section \<open>Lemmas on limits\<close>

text \<open>What the policy means by a limit: the estimates, read as integers, against each limit that is set.\<close>

definition within_scan :: "CostLimit \<Rightarrow> TableScan \<Rightarrow> bool" where
  "within_scan cl s \<longleftrightarrow> (table_scoped cl \<and> tableMatches (scan_Table s) cl \<longrightarrow>
     (0 < sint (MaxScanBytes cl) \<longrightarrow> sint (ScanBytes s) \<le> sint (MaxScanBytes cl)) \<and>
     (0 < sint (MaxRows cl) \<longrightarrow> sint (Rows s) \<le> sint (MaxRows cl)))"

definition within_limit :: "int64 \<Rightarrow> TableScan list \<Rightarrow> float64 \<Rightarrow> CostLimit \<Rightarrow> bool" where
  "within_limit bytes scans cpu cl \<longleftrightarrow>
     (0 < sint (MaxScanBytesPerQuery cl) \<longrightarrow> sint bytes \<le> sint (MaxScanBytesPerQuery cl)) \<and>
     (float_less float_zero (MaxCPUCostPerQuery cl) \<longrightarrow> \<not> float_less (MaxCPUCostPerQuery cl) cpu) \<and>
     list_all (within_scan cl) scans"

lemma first_error_None_iff: "first_error f xs = None \<longleftrightarrow> (\<forall>x\<in>set xs. f x = None)"
  by (induction xs) (auto split: option.split)

lemma first_error_SomeD: "first_error f xs = Some e \<Longrightarrow> \<exists>x\<in>set xs. f x = Some e"
  by (induction xs) (auto split: option.splits)

lemma scan_breach_None:
  "table_scoped cl \<Longrightarrow> scan_breach cl s = None \<longleftrightarrow> within_scan cl s"
  by (simp add: scan_breach_def within_scan_def not_less)

lemma within_scan_global: "\<not> table_scoped cl \<Longrightarrow> within_scan cl s"
  by (simp add: within_scan_def)

lemma limit_breach_None: "limit_breach bytes scans cpu cl = None \<longleftrightarrow> within_limit bytes scans cpu cl"
  by (cases "table_scoped cl")
    (simp_all add: limit_breach_def within_limit_def first_error_None_iff scan_breach_None
      within_scan_global list_all_iff not_less)

lemma limit_breach_reason: "limit_breach bytes scans cpu cl = Some r \<Longrightarrow> r \<noteq> NoReason"
  by (auto simp: limit_breach_def scan_breach_def split: if_splits dest!: first_error_SomeD)

text \<open>Smaller estimates for the same tables stay within a limit that larger ones satisfy.\<close>

definition scan_le :: "TableScan \<Rightarrow> TableScan \<Rightarrow> bool" where
  "scan_le s t \<longleftrightarrow> scan_Table s = scan_Table t \<and> sint (ScanBytes s) \<le> sint (ScanBytes t) \<and>
     sint (Rows s) \<le> sint (Rows t)"



lemma within_scan_mono: "within_scan cl t \<Longrightarrow> scan_le s t \<Longrightarrow> within_scan cl s"
  unfolding within_scan_def scan_le_def by (metis order_trans)

lemma within_scans_mono:
  "list_all (within_scan cl) ts \<Longrightarrow> list_all2 scan_le ss ts \<Longrightarrow> list_all (within_scan cl) ss"
  by (induction ss arbitrary: ts) (auto simp: list_all2_Cons1 intro: within_scan_mono)

lemma within_limit_mono:
  assumes "within_limit bytes' scans' cpu' cl" and "sint bytes \<le> sint bytes'"
    and "float_le cpu cpu'" and "list_all2 scan_le scans scans'"
  shows "within_limit bytes scans cpu cl"
proof -
  have "\<not> float_less (MaxCPUCostPerQuery cl) cpu" if "\<not> float_less (MaxCPUCostPerQuery cl) cpu'"
    using that assms(3) float_less_trans by (auto simp: float_le_def)
  moreover have "list_all (within_scan cl) scans"
    using assms(1,4) within_scans_mono unfolding within_limit_def by blast
  ultimately show ?thesis
    using assms(1,2) unfolding within_limit_def by linarith
qed

lemma evaluateLimits_fst:
  "fst (evaluateLimits p bytes rows scans cpu m) =
     (case first_error (limit_breach bytes scans cpu) (CostLimits (Rules p)) of
        Some reason \<Rightarrow> (False, reason) | None \<Rightarrow> (True, NoReason))"
  by (simp add: evaluateLimits_def Let_def)

lemma evaluateLimits_allowed:
  "fst (fst (evaluateLimits p bytes rows scans cpu m)) \<longleftrightarrow>
     list_all (within_limit bytes scans cpu) (CostLimits (Rules p))"
proof (cases "first_error (limit_breach bytes scans cpu) (CostLimits (Rules p))")
  case None
  then have "list_all (within_limit bytes scans cpu) (CostLimits (Rules p))"
    by (simp add: first_error_None_iff limit_breach_None list_all_iff)
  with None show ?thesis by (simp add: evaluateLimits_fst)
next
  case (Some r)
  then have "first_error (limit_breach bytes scans cpu) (CostLimits (Rules p)) \<noteq> None" by simp
  with Some show ?thesis
    unfolding first_error_None_iff by (auto simp: evaluateLimits_fst list_all_iff limit_breach_None)
qed

lemma evaluateLimits_reason:
  "snd (fst (evaluateLimits p bytes rows scans cpu m)) = NoReason \<longleftrightarrow>
     fst (fst (evaluateLimits p bytes rows scans cpu m))"
  by (auto simp: evaluateLimits_fst dest!: first_error_SomeD limit_breach_reason split: option.split)

text \<open>C20. A query is allowed exactly when its estimates are within every configured limit: the total bytes
  and the CPU cost against each query limit that is set, and each scan against every table-scoped limit
  that matches its table.  A rejection, and only a rejection, carries a reason.\<close>

theorem evaluateLimits_exact:
  "(fst (fst (evaluateLimits p bytes rows scans cpu m)) \<longleftrightarrow>
      list_all (within_limit bytes scans cpu) (CostLimits (Rules p))) \<and>
   (snd (fst (evaluateLimits p bytes rows scans cpu m)) = NoReason \<longleftrightarrow>
      fst (fst (evaluateLimits p bytes rows scans cpu m)))"
  by (simp only: evaluateLimits_allowed evaluateLimits_reason simp_thms)

text \<open>A cheaper query is never rejected where a dearer one is allowed: with smaller totals, a smaller
  CPU cost and smaller estimates for the same tables, an allowed query stays allowed.\<close>

lemma evaluateLimits_mono:
  assumes "fst (fst (evaluateLimits p bytes' rows' scans' cpu' m'))" and "sint bytes \<le> sint bytes'"
    and "float_le cpu cpu'" and "list_all2 scan_le scans scans'"
  shows "fst (fst (evaluateLimits p bytes rows scans cpu m))"
  using assms within_limit_mono unfolding evaluateLimits_allowed by (metis list_all_iff)

lemma evaluateLimits_mono_witness:
  "fst (fst (evaluateLimits demo_policy 40 1 [\<lparr>scan_Table = ''hive.web.clicks'', ScanBytes = 40, Rows = 1\<rparr>]
     (Finite 1) None))"
  by (rule evaluateLimits_mono [of demo_policy 900 9
        "[\<lparr>scan_Table = ''hive.web.clicks'', ScanBytes = 900, Rows = 9\<rparr>]" "Finite 2" None])
    (simp_all add: evaluateLimits_allowed demo_policy_def demo_limit_def within_limit_def within_scan_def
      scan_le_def float_le_def)

section \<open>Scopes\<close>

lemma split_three:
  assumes "CHR ''.'' \<notin> set c" and "CHR ''.'' \<notin> set s" and "CHR ''.'' \<notin> set t"
  shows "split_on (CHR ''.'') (c @ CHR ''.'' # s @ CHR ''.'' # t) = [c, s, t]"
  using assms by (simp add: split_on_append split_on_no_sep)

text \<open>A limit's scope is a suffix pattern: against a scanned table \<open>catalog.schema.table\<close> each component
  the limit names must be equal, byte for byte, and a component it leaves empty matches anything.\<close>

lemma tableMatches_three_part:
  assumes "CHR ''.'' \<notin> set c" and "CHR ''.'' \<notin> set s" and "CHR ''.'' \<notin> set t"
  shows "tableMatches (c @ CHR ''.'' # s @ CHR ''.'' # t) cl \<longleftrightarrow>
    limit_Table cl \<in> {[], t} \<and> limit_Schema cl \<in> {[], s} \<and> limit_Catalog cl \<in> {[], c}"
  using split_three [OF assms] by (auto simp: tableMatches_def component_def)

lemma tableMatches_three_part_witness: "\<not> tableMatches ''hive.web.Clicks'' demo_limit"
  using tableMatches_three_part [of "''hive''" "''web''" "''Clicks''" demo_limit]
  by (simp add: demo_limit_def)

text \<open>A two-part name never matches a limit that names a catalog.\<close>

lemma tableMatches_two_part:
  "CHR ''.'' \<notin> set s \<Longrightarrow> CHR ''.'' \<notin> set t \<Longrightarrow> limit_Catalog cl \<noteq> [] \<Longrightarrow>
    \<not> tableMatches (s @ CHR ''.'' # t) cl"
proof -
  assume "CHR ''.'' \<notin> set s" "CHR ''.'' \<notin> set t" "limit_Catalog cl \<noteq> []"
  moreover from this have "component (s @ CHR ''.'' # t) 2 = None"
    by (simp add: component_def split_on_append split_on_no_sep Let_def)
  ultimately show ?thesis by (simp add: tableMatches_def)
qed

section \<open>Header mirroring\<close>

lemma fold_header_Add:
  "header_values (fold (header_Add k) vv dst) k' =
     header_values dst k' @ (if k' = CanonicalHeaderKey k then vv else [])"
  by (induction vv arbitrary: dst) (auto simp: header_values_Add)

lemma header_values_Cons:
  "header_values ((k, vs) # h) k' = (if k' = k then vs else header_values h k')"
  by (simp add: header_values_def)

lemma header_values_absent: "k \<notin> set (map fst h) \<Longrightarrow> header_values h k = []"
  by (induction h) (auto simp: header_values_def)

lemma copyHeaders_values:
  assumes "distinct (map fst src)" and "\<forall>k\<in>set (map fst src). CanonicalHeaderKey k = k"
  shows "header_values (copyHeaders dst src) k =
    header_values dst k @ (if isManagedHeader k then [] else header_values src k)"
  using assms
proof (induction src arbitrary: dst)
  case Nil
  show ?case by (simp add: copyHeaders_def header_values_def)
next
  case (Cons kv src)
  obtain k1 vv where kv: "kv = (k1, vv)" by (cases kv)
  define dst' where "dst' = (if isManagedHeader k1 then dst else fold (header_Add k1) vv dst)"
  have "copyHeaders dst (kv # src) = copyHeaders dst' src"
    by (simp add: copyHeaders_def kv dst'_def)
  moreover have "header_values dst' k =
      header_values dst k @ (if \<not> isManagedHeader k1 \<and> k = k1 then vv else [])"
    using Cons.prems(2) by (auto simp: dst'_def fold_header_Add kv)
  moreover have "k = k1 \<Longrightarrow> header_values src k = []"
    using Cons.prems(1) by (auto simp: kv intro: header_values_absent)
  ultimately show ?case
    using Cons by (auto simp: kv header_values_Cons)
qed

text \<open>Client headers pass through to the shadow request: every header that the transport does not manage
  reaches it with all its values and nothing else; a managed header keeps what the request already had.\<close>

lemma copyHeaders_passthrough:
  assumes "distinct (map fst src)" and "\<forall>k\<in>set (map fst src). CanonicalHeaderKey k = k"
  shows "header_values (copyHeaders [(''Content-Type'', [''text/plain''])] src) k =
    (if isManagedHeader k then if k = ''Content-Type'' then [''text/plain''] else []
     else header_values src k)"
proof -
  have "isManagedHeader ''Content-Type''" by (simp add: isManagedHeader_def go_eval)
  then show ?thesis
    using copyHeaders_values [OF assms] by (auto simp: header_values_def)
qed

lemma copyHeaders_passthrough_witness:
  "header_values (copyHeaders [(''Content-Type'', [''text/plain''])]
     [(''Authorization'', [''Bearer x'']), (''Host'', [''qg''])]) ''Authorization'' = [''Bearer x'']"
  using copyHeaders_passthrough [of "[(''Authorization'', [''Bearer x'']), (''Host'', [''qg''])]" "''Authorization''"]
  by (simp add: CanonicalHeaderKey_def is_token_byte_def isManagedHeader_def header_values_def go_eval)

end
