(* ===== verification/Proxy_Tier1.thy ===== *)
theory Proxy_Tier1
  imports Parser_Ast Engine_Limits
begin

text \<open>
  The Tier 1 checks of \<open>internal/proxy/handler.go\<close> and the rejection reasons of \<open>response.go\<close>: statement,
  table and function blocklists, the star restriction and the required filters, in the order in which
  the handler applies them.  The text of a message is a value of \<open>tier1_message\<close>.
\<close>

section \<open>Reasons and messages\<close>

datatype RejectionReason =
    ReasonTableBlocklist | ReasonRequiredFilter | ReasonStatementBlocklist
  | ReasonCostLimitBreach | ReasonFunctionBlocklist | ReasonSelectStarBlocked

primrec reason_label :: "RejectionReason \<Rightarrow> string" where
  "reason_label ReasonTableBlocklist = ''TABLE_BLOCKLIST''"
| "reason_label ReasonRequiredFilter = ''REQUIRED_FILTER_MISSING''"
| "reason_label ReasonStatementBlocklist = ''STATEMENT_BLOCKLIST''"
| "reason_label ReasonCostLimitBreach = ''COST_LIMIT_BREACH''"
| "reason_label ReasonFunctionBlocklist = ''FUNCTION_BLOCKLIST''"
| "reason_label ReasonSelectStarBlocked = ''SELECT_STAR_BLOCKED''"

datatype tier1_message =
    NoMessage
  | StatementBlocked StatementClass
  | TableBlocked string string
  | FunctionBlocked string
  | SelectStarBlocked string
  | FilterRequired string "string list" string

section \<open>Matching names\<close>

definition lastComponent :: "string \<Rightarrow> string" where
  "lastComponent name = last (split_on (CHR ''.'') name)"

definition tableBlocklisted :: "string \<Rightarrow> string \<Rightarrow> bool" where
  "tableBlocklisted table entry \<longleftrightarrow>
     (if EqualFold table entry then True
      else if CHR ''.'' \<notin> set entry then EqualFold (last (split_on (CHR ''.'') table)) entry
      else False)"

definition component_folds :: "string \<Rightarrow> nat \<Rightarrow> string \<Rightarrow> bool" where
  "component_folds name n s \<longleftrightarrow> (case component name n of None \<Rightarrow> False | Some c \<Rightarrow> EqualFold c s)"

definition requiredFilterMatches :: "string \<Rightarrow> RequiredFilter \<Rightarrow> bool" where
  "requiredFilterMatches table rf \<longleftrightarrow>
     (if length (split_on (CHR ''.'') table) < 2 then False
      else if \<not> component_folds table 0 (filter_Table rf) then False
      else if \<not> component_folds table 1 (filter_Schema rf) then False
      else if filter_Catalog rf \<noteq> [] \<and> \<not> component_folds table 2 (filter_Catalog rf) then False
      else True)"

definition tableMatchesScope :: "string \<Rightarrow> string \<Rightarrow> string \<Rightarrow> string \<Rightarrow> bool" where
  "tableMatchesScope scanTable catalog schema table \<longleftrightarrow>
     (if table \<noteq> [] \<and> \<not> component_folds scanTable 0 table then False
      else if schema \<noteq> [] \<and> \<not> component_folds scanTable 1 schema then False
      else if catalog \<noteq> [] \<and> \<not> component_folds scanTable 2 catalog then False
      else True)"

section \<open>Required filters\<close>

definition requiredFilterMode :: "RequiredFilter \<Rightarrow> string" where
  "requiredFilterMode rf = (if filter_Mode rf = ''any-of'' then ''any-of'' else ''all-of'')"

definition ref_filters :: "AnalysisResult \<Rightarrow> string \<Rightarrow> string \<Rightarrow> WhereRef \<Rightarrow> bool" where
  "ref_filters res table column ref \<longleftrightarrow>
     (if \<not> EqualFold (ref_Column ref) column then False
      else if ref_Table ref = [] then True
      else let resolved = (case TableAliases res (ref_Table ref) of None \<Rightarrow> ref_Table ref | Some t \<Rightarrow> t)
           in EqualFold resolved (lastComponent table) \<or> EqualFold resolved table)"

definition tableHasFilter :: "AnalysisResult \<Rightarrow> string \<Rightarrow> string \<Rightarrow> bool" where
  "tableHasFilter res table column \<longleftrightarrow> list_ex (ref_filters res table column) (WhereRefs res)"

definition missingRequiredColumns :: "AnalysisResult \<Rightarrow> string \<Rightarrow> RequiredFilter \<Rightarrow> string list" where
  "missingRequiredColumns res table rf =
     (let missing = filter (\<lambda>col. \<not> tableHasFilter res table col) (filter_Columns rf)
      in if requiredFilterMode rf = ''any-of'' \<and> length missing < length (filter_Columns rf)
         then [] else missing)"

section \<open>The checks\<close>

type_synonym violation = "RejectionReason \<times> tier1_message"

definition check_statement :: "Policy \<Rightarrow> AnalysisResult \<Rightarrow> violation option" where
  "check_statement p res = first_error (\<lambda>blocked.
     if EqualFold blocked (class_String (result_class res))
     then Some (ReasonStatementBlocklist, StatementBlocked (result_class res)) else None)
     (StatementBlocklist (Rules p))"

definition check_tables :: "Policy \<Rightarrow> AnalysisResult \<Rightarrow> violation option" where
  "check_tables p res = first_error (\<lambda>bad. first_error (\<lambda>table.
     if tableBlocklisted table bad then Some (ReasonTableBlocklist, TableBlocked table bad) else None)
     (Tables res)) (TableBlocklist (Rules p))"

definition check_functions :: "Policy \<Rightarrow> AnalysisResult \<Rightarrow> violation option" where
  "check_functions p res = first_error (\<lambda>fn. first_error (\<lambda>blocked.
     if EqualFold fn blocked then Some (ReasonFunctionBlocklist, FunctionBlocked fn) else None)
     (FunctionBlocklist (Rules p))) (Functions res)"

definition check_star :: "Policy \<Rightarrow> AnalysisResult \<Rightarrow> violation option" where
  "check_star p res =
     (if SelectAll res then first_error (\<lambda>bad. first_error (\<lambda>table.
        if tableBlocklisted table bad then Some (ReasonSelectStarBlocked, SelectStarBlocked table) else None)
        (Tables res)) (SelectStarBlockedTables (Rules p))
      else None)"

definition check_filters :: "Policy \<Rightarrow> AnalysisResult \<Rightarrow> violation option" where
  "check_filters p res = first_error (\<lambda>rf. first_error (\<lambda>table.
     if \<not> requiredFilterMatches table rf then None
     else let missing = missingRequiredColumns res table rf
          in if missing \<noteq> []
             then Some (ReasonRequiredFilter, FilterRequired table missing (requiredFilterMode rf))
             else None)
     (Tables res)) (RequiredFilters (Rules p))"

definition tier1 :: "Policy \<Rightarrow> AnalysisResult \<Rightarrow> RejectionReason \<times> tier1_message \<times> bool" where
  "tier1 p res =
     (case check_statement p res of Some (r, msg) \<Rightarrow> (r, msg, False) | None \<Rightarrow>
      case check_tables p res of Some (r, msg) \<Rightarrow> (r, msg, False) | None \<Rightarrow>
      case check_functions p res of Some (r, msg) \<Rightarrow> (r, msg, False) | None \<Rightarrow>
      case check_star p res of Some (r, msg) \<Rightarrow> (r, msg, False) | None \<Rightarrow>
      case check_filters p res of Some (r, msg) \<Rightarrow> (r, msg, False) | None \<Rightarrow>
      (ReasonTableBlocklist, NoMessage, True))"

section \<open>What the checks decide\<close>

definition statement_blocked :: "Policy \<Rightarrow> AnalysisResult \<Rightarrow> bool" where
  "statement_blocked p res \<longleftrightarrow> list_ex (EqualFold (class_String (result_class res))) (StatementBlocklist (Rules p))"

definition table_blocked :: "string list \<Rightarrow> AnalysisResult \<Rightarrow> bool" where
  "table_blocked entries res \<longleftrightarrow> (\<exists>t\<in>set (Tables res). \<exists>e\<in>set entries. tableBlocklisted t e)"

definition function_blocked :: "Policy \<Rightarrow> AnalysisResult \<Rightarrow> bool" where
  "function_blocked p res \<longleftrightarrow> list_ex (\<lambda>f. list_ex (EqualFold f) (FunctionBlocklist (Rules p))) (Functions res)"

definition filter_satisfied :: "AnalysisResult \<Rightarrow> string \<Rightarrow> RequiredFilter \<Rightarrow> bool" where
  "filter_satisfied res table rf \<longleftrightarrow>
     (if filter_Mode rf = ''any-of''
      then filter_Columns rf = [] \<or> list_ex (tableHasFilter res table) (filter_Columns rf)
      else list_all (tableHasFilter res table) (filter_Columns rf))"

definition filters_satisfied :: "Policy \<Rightarrow> AnalysisResult \<Rightarrow> bool" where
  "filters_satisfied p res \<longleftrightarrow> (\<forall>rf\<in>set (RequiredFilters (Rules p)). \<forall>t\<in>set (Tables res).
     requiredFilterMatches t rf \<longrightarrow> filter_satisfied res t rf)"

lemma first_error_if:
  "first_error (\<lambda>x. if P x then Some (f x) else None) xs = None \<longleftrightarrow> \<not> list_ex P xs"
  by (induction xs) simp_all

lemma check_statement_None: "check_statement p res = None \<longleftrightarrow> \<not> statement_blocked p res"
  unfolding check_statement_def statement_blocked_def first_error_if list_ex_iff
  using EqualFold_sym by blast

lemma check_tables_None: "check_tables p res = None \<longleftrightarrow> \<not> table_blocked (TableBlocklist (Rules p)) res"
  unfolding check_tables_def table_blocked_def
  by (auto simp: first_error_None_iff)

lemma check_functions_None: "check_functions p res = None \<longleftrightarrow> \<not> function_blocked p res"
  unfolding check_functions_def function_blocked_def
  by (auto simp: first_error_None_iff list_ex_iff)

lemma check_star_None:
  "check_star p res = None \<longleftrightarrow> \<not> (SelectAll res \<and> table_blocked (SelectStarBlockedTables (Rules p)) res)"
  unfolding check_star_def table_blocked_def
  by (auto simp: first_error_None_iff)

lemma filter_all_iff: "filter P xs = [] \<longleftrightarrow> list_all (\<lambda>x. \<not> P x) xs"
  by (induction xs) simp_all

lemma missing_satisfied: "missingRequiredColumns res t rf = [] \<longleftrightarrow> filter_satisfied res t rf"
proof -
  have "length (filter P xs) < length xs \<longleftrightarrow> list_ex (\<lambda>x. \<not> P x) xs" for P and xs :: "string list"
    by (induction xs) (auto simp: less_Suc_eq_le length_filter_le)
  then show ?thesis
    by (auto simp: missingRequiredColumns_def filter_satisfied_def requiredFilterMode_def Let_def
        filter_all_iff list_all_iff list_ex_iff filter_empty_conv)
qed

lemma check_filters_None: "check_filters p res = None \<longleftrightarrow> filters_satisfied p res"
  unfolding check_filters_def filters_satisfied_def
  by (auto simp: first_error_None_iff Let_def missing_satisfied)

lemmas checks_None = check_statement_None check_tables_None check_functions_None check_star_None
  check_filters_None

lemma first_error_if_Some:
  "first_error (\<lambda>x. if P x then Some (f x) else None) xs = Some e \<Longrightarrow> \<exists>x. e = f x"
  by (induction xs) (auto split: if_splits)

lemma check_reasons:
  "check_statement p res = Some (r, msg) \<Longrightarrow> r = ReasonStatementBlocklist"
  "check_tables p res = Some (r, msg) \<Longrightarrow> r = ReasonTableBlocklist"
  "check_functions p res = Some (r, msg) \<Longrightarrow> r = ReasonFunctionBlocklist"
  "check_star p res = Some (r, msg) \<Longrightarrow> r = ReasonSelectStarBlocked"
  "check_filters p res = Some (r, msg) \<Longrightarrow> r = ReasonRequiredFilter"
  by (auto simp: check_statement_def check_tables_def check_functions_def check_star_def check_filters_def
      Let_def dest!: first_error_SomeD split: if_splits)

definition tier1_verdict :: "Policy \<Rightarrow> AnalysisResult \<Rightarrow> RejectionReason option" where
  "tier1_verdict p res =
     (if statement_blocked p res then Some ReasonStatementBlocklist
      else if table_blocked (TableBlocklist (Rules p)) res then Some ReasonTableBlocklist
      else if function_blocked p res then Some ReasonFunctionBlocklist
      else if SelectAll res \<and> table_blocked (SelectStarBlockedTables (Rules p)) res then Some ReasonSelectStarBlocked
      else if \<not> filters_satisfied p res then Some ReasonRequiredFilter
      else None)"

lemma check_filters_violated: "check_filters p res = None \<longleftrightarrow> \<not> (\<not> filters_satisfied p res)"
  by (simp add: check_filters_None)

lemma stage_verdict:
  "(c = None \<longleftrightarrow> \<not> B) \<Longrightarrow> (\<And>r msg. c = Some (r, msg) \<Longrightarrow> r = R) \<Longrightarrow>
    (case c of Some (r, msg) \<Rightarrow> Some r | None \<Rightarrow> X) = (if B then Some R else X)"
  by (cases c) auto

lemma stage_verdicts:
  "(case check_statement p res of Some (r, msg) \<Rightarrow> Some r | None \<Rightarrow> X) =
     (if statement_blocked p res then Some ReasonStatementBlocklist else X)"
  "(case check_tables p res of Some (r, msg) \<Rightarrow> Some r | None \<Rightarrow> X) =
     (if table_blocked (TableBlocklist (Rules p)) res then Some ReasonTableBlocklist else X)"
  "(case check_functions p res of Some (r, msg) \<Rightarrow> Some r | None \<Rightarrow> X) =
     (if function_blocked p res then Some ReasonFunctionBlocklist else X)"
  "(case check_star p res of Some (r, msg) \<Rightarrow> Some r | None \<Rightarrow> X) =
     (if SelectAll res \<and> table_blocked (SelectStarBlockedTables (Rules p)) res then Some ReasonSelectStarBlocked else X)"
  "(case check_filters p res of Some (r, msg) \<Rightarrow> Some r | None \<Rightarrow> X) =
     (if \<not> filters_satisfied p res then Some ReasonRequiredFilter else X)"
  by (rule stage_verdict, rule checks_None check_filters_violated, erule check_reasons)+

lemma tier1_verdict:
  "case tier1 p res of (r, msg, allow) \<Rightarrow> (allow \<longleftrightarrow> tier1_verdict p res = None) \<and>
     (\<not> allow \<longrightarrow> tier1_verdict p res = Some r)"
proof -
  have "tier1_verdict p res =
    (case check_statement p res of Some (r, msg) \<Rightarrow> Some r | None \<Rightarrow>
     case check_tables p res of Some (r, msg) \<Rightarrow> Some r | None \<Rightarrow>
     case check_functions p res of Some (r, msg) \<Rightarrow> Some r | None \<Rightarrow>
     case check_star p res of Some (r, msg) \<Rightarrow> Some r | None \<Rightarrow>
     case check_filters p res of Some (r, msg) \<Rightarrow> Some r | None \<Rightarrow> None)"
    unfolding stage_verdicts tier1_verdict_def by (rule refl)
  then show ?thesis
    by (cases "check_statement p res"; cases "check_tables p res"; cases "check_functions p res";
        cases "check_star p res"; cases "check_filters p res") (simp_all add: tier1_def case_prod_beta)
qed

section \<open>Properties\<close>

text \<open>C27. Tier 1 reports the first violated stage, in the order statement blocklist, table blocklist, function
  blocklist, star restriction, required filters, and allows exactly the statements that violate none.\<close>

theorem tier1_first_violation:
  "case tier1 p res of (r, msg, allow) \<Rightarrow> tier1_verdict p res = (if allow then None else Some r)"
  using tier1_verdict [of p res] by (simp split: prod.splits)

lemma tier1_allows_iff: "snd (snd (tier1 p res)) \<longleftrightarrow> tier1_verdict p res = None"
  using tier1_verdict [of p res] by (simp split: prod.splits)

lemma tier1_allowed_filters: "snd (snd (tier1 p res)) \<Longrightarrow> filters_satisfied p res"
  by (auto simp: tier1_allows_iff tier1_verdict_def split: if_splits)

text \<open>The table a reference is attributed to: the alias resolved, the qualifier itself otherwise.\<close>

definition resolved_table :: "AnalysisResult \<Rightarrow> WhereRef \<Rightarrow> string" where
  "resolved_table res ref =
     (case TableAliases res (ref_Table ref) of None \<Rightarrow> ref_Table ref | Some t \<Rightarrow> t)"

lemma tableHasFilter_ref:
  "tableHasFilter res t col \<longleftrightarrow> (\<exists>ref\<in>set (WhereRefs res). EqualFold (ref_Column ref) col \<and>
     (ref_Table ref = [] \<or> EqualFold (resolved_table res ref) (lastComponent t) \<or>
      EqualFold (resolved_table res ref) t))"
  by (auto simp: tableHasFilter_def ref_filters_def resolved_table_def list_ex_iff Let_def)


definition demo_result :: AnalysisResult where
  "demo_result = (empty_result StatementSelect)
     \<lparr>Tables := [''hive.web.clicks''], WhereColumns := [''DS'', ''hour''],
      WhereRefs := [\<lparr>ref_Table = ''c'', ref_Column = ''DS''\<rparr>, \<lparr>ref_Table = [], ref_Column = ''hour''\<rparr>],
      TableAliases := [''c'' \<mapsto> ''clicks'']\<rparr>"

lemma demo_result_allowed: "snd (snd (tier1 demo_policy demo_result))"
  by (simp add: tier1_allows_iff tier1_verdict_def statement_blocked_def table_blocked_def function_blocked_def
      filters_satisfied_def filter_satisfied_def tableHasFilter_def ref_filters_def lastComponent_def
      tableBlocklisted_def demo_policy_def demo_result_def demo_filter_def Let_def go_eval)


text \<open>A predicate on \<open>hive.other.clicks\<close>, whose alias stands for the bare name, passes for one on
  \<open>hive.web.clicks\<close>.\<close>

lemma same_name_filter_accepted:
  "tableHasFilter ((empty_result StatementSelect)
     \<lparr>Tables := [''hive.web.clicks'', ''hive.other.clicks''],
      WhereRefs := [\<lparr>ref_Table = ''o'', ref_Column = ''ds''\<rparr>], TableAliases := [''o'' \<mapsto> ''clicks'']\<rparr>)
     ''hive.web.clicks'' ''ds''"
  by (simp add: tableHasFilter_def ref_filters_def lastComponent_def Let_def go_eval)

section \<open>Names up to case and qualification\<close>

lemma split_on_map:
  "(\<And>c. f c = d \<longleftrightarrow> c = d) \<Longrightarrow> split_on d (map f s) = map (map f) (split_on d s)"
  by (induction s) (auto split: list.splits)

lemma split_on_concat: "split_on d (q @ d # t) = split_on d q @ split_on d t"
proof (induction q)
  case (Cons c q)
  then show ?case by (cases "split_on d q") auto
qed simp

lemma ascii_upper_dot: "ascii_upper c = CHR ''.'' \<longleftrightarrow> c = CHR ''.''"
proof -
  have "byte_val (ascii_upper c) = 46 \<longleftrightarrow> byte_val c = 46"
    by (auto simp: byte_val_ascii_upper)
  moreover have "c = CHR ''.'' \<longleftrightarrow> byte_val c = byte_val (CHR ''.'')" for c :: byte
    by (metis char_of_char)
  ultimately show ?thesis by simp
qed

lemma is_ascii_split: "is_ascii s \<Longrightarrow> p \<in> set (split_on d s) \<Longrightarrow> is_ascii p"
  by (induction s arbitrary: p) (auto split: list.splits if_splits)

lemma EqualFold_upper_left: "is_ascii s \<Longrightarrow> EqualFold (ToUpper s) t \<longleftrightarrow> EqualFold s t"
  by (rule EqualFold_cong_left) (rule EqualFold_ToUpper)

lemma EqualFold_upper_right: "is_ascii t \<Longrightarrow> EqualFold s (ToUpper t) \<longleftrightarrow> EqualFold s t"
  by (rule EqualFold_cong_right) (rule EqualFold_ToUpper)

lemma last_split_upper:
  assumes "is_ascii s"
  shows "last (split_on (CHR ''.'') (ToUpper s)) = ToUpper (last (split_on (CHR ''.'') s))"
proof -
  have "is_ascii (last (split_on (CHR ''.'') s))" using is_ascii_split [OF assms last_in_set] by simp
  then show ?thesis
    using assms by (simp add: ToUpper_ascii split_on_map ascii_upper_dot last_map)
qed

text \<open>The table blocklist ignores case: neither a statement that writes a table name in another case nor
  a policy that does changes the verdict (ASCII names).\<close>

lemma tableBlocklisted_ignores_case:
  assumes "is_ascii t" and "is_ascii e"
  shows "(tableBlocklisted (ToUpper t) e \<longleftrightarrow> tableBlocklisted t e) \<and>
    (tableBlocklisted t (ToUpper e) \<longleftrightarrow> tableBlocklisted t e)"
proof -
  have "is_ascii (last (split_on (CHR ''.'') t))" using is_ascii_split [OF assms(1) last_in_set] by simp
  moreover have "CHR ''.'' \<in> set (ToUpper e) \<longleftrightarrow> CHR ''.'' \<in> set e"
    unfolding ToUpper_ascii [OF assms(2)] set_map image_iff using ascii_upper_dot by metis
  ultimately show ?thesis
    using assms by (simp add: tableBlocklisted_def last_split_upper EqualFold_upper_left EqualFold_upper_right)
qed

lemma tableBlocklisted_ignores_case_witness:
  "tableBlocklisted (ToUpper ''hive.web.clicks'') ''Clicks''"
  using tableBlocklisted_ignores_case [of "''hive.web.clicks''" "''Clicks''"]
  by (simp add: is_ascii_def tableBlocklisted_def go_eval)

text \<open>A bare name on the blocklist catches the table under every qualification, and a qualified entry only
  the name written the same way: a reference without the catalog does not match it.\<close>

lemma tableBlocklisted_qualified:
  assumes "CHR ''.'' \<notin> set t" and "CHR ''.'' \<notin> set e" and "EqualFold t e"
  shows "tableBlocklisted t e \<and> tableBlocklisted (q @ CHR ''.'' # t) e"
proof -
  have "last (split_on (CHR ''.'') (q @ CHR ''.'' # t)) = t"
    by (simp add: split_on_concat split_on_no_sep [OF assms(1)])
  then show ?thesis using assms by (simp add: tableBlocklisted_def)
qed

lemma tableBlocklisted_qualified_witness: "tableBlocklisted ''hive.secret.Keys'' ''keys''"
  using tableBlocklisted_qualified [of "''Keys''" "''keys''" "''hive.secret''"] by (simp add: go_eval)

text \<open>A required filter applies to a three-part name exactly when table and schema, and the catalog if it
  names one, are equal up to case; a bare table name never matches.\<close>

lemma requiredFilterMatches_three_part:
  assumes "CHR ''.'' \<notin> set c" and "CHR ''.'' \<notin> set s" and "CHR ''.'' \<notin> set t"
  shows "(requiredFilterMatches (c @ CHR ''.'' # s @ CHR ''.'' # t) rf \<longleftrightarrow>
      EqualFold t (filter_Table rf) \<and> EqualFold s (filter_Schema rf) \<and>
      (filter_Catalog rf = [] \<or> EqualFold c (filter_Catalog rf))) \<and>
    \<not> requiredFilterMatches t rf"
  using split_three [OF assms]
  by (auto simp: requiredFilterMatches_def component_folds_def component_def split_on_no_sep [OF assms(3)])

lemma requiredFilterMatches_three_part_witness: "requiredFilterMatches ''hive.WEB.clicks'' demo_filter"
  using requiredFilterMatches_three_part [of "''hive''" "''WEB''" "''clicks''" demo_filter]
  by (simp add: demo_filter_def go_eval)

text \<open>
  A quoted identifier keeps its quotes in the table list, and so does not match the entry without them.
\<close>

lemma quoted_name_not_blocked: "\<not> tableBlocklisted (dquote # ''keys'' @ [dquote]) ''keys''"
  by (simp add: tableBlocklisted_def go_eval)

end
