(* ===== verification/Go_Format.thy ===== *)
theory Go_Format
  imports Go_Strings Go_Numbers
begin

text \<open>
  Text that the program writes: decimal and hexadecimal numbers, \<open>strconv.Quote\<close> (the verb \<open>%q\<close>) and the strings
  of \<open>encoding/json\<close>.  Both escape a string rune by rune; the locale \<open>quoted_text\<close> says what such an escaping
  owes to its reader.  The readers are reference definitions: \<open>go_unit\<close> is the language's own syntax of string
  literals, \<open>json_unit\<close> that of RFC 8259, without the escapes of surrogates, which the encoder never writes.
  Which runes above Latin-1 are printable is a table of the Unicode data, the argument \<open>printable\<close>.
\<close>

section \<open>Numbers\<close>

definition decimal_digit :: "nat \<Rightarrow> byte" where
  "decimal_digit n = char_of (48 + n)"

fun decimal :: "nat \<Rightarrow> string" where
  "decimal n = (if n < 10 then [decimal_digit n] else decimal (n div 10) @ [decimal_digit (n mod 10)])"

declare decimal.simps [simp del]

definition go_decimal :: "int64 \<Rightarrow> string" where
  "go_decimal n = (if sint n < 0 then CHR ''-'' # decimal (nat (- sint n)) else decimal (nat (sint n)))"

definition hex_digit :: "nat \<Rightarrow> byte" where
  "hex_digit n = (if n < 10 then char_of (48 + n) else char_of (87 + n))"

primrec hex_fixed :: "nat \<Rightarrow> nat \<Rightarrow> string" where
  "hex_fixed 0 n = []"
| "hex_fixed (Suc k) n = hex_fixed k (n div 16) @ [hex_digit (n mod 16)]"

definition hex_val :: "byte \<Rightarrow> nat option" where
  "hex_val b =
     (if 48 \<le> byte_val b \<and> byte_val b \<le> 57 then Some (byte_val b - 48)
      else if 97 \<le> byte_val b \<and> byte_val b \<le> 102 then Some (byte_val b - 87)
      else if 65 \<le> byte_val b \<and> byte_val b \<le> 70 then Some (byte_val b - 55)
      else None)"

fun read_hex :: "nat \<Rightarrow> nat \<Rightarrow> string \<Rightarrow> (nat \<times> string) option" where
  "read_hex 0 acc s = Some (acc, s)"
| "read_hex (Suc k) acc [] = None"
| "read_hex (Suc k) acc (b # s) = (case hex_val b of None \<Rightarrow> None | Some v \<Rightarrow> read_hex k (16 * acc + v) s)"

lemma byte_val_hex_digit:
  "n < 16 \<Longrightarrow> byte_val (hex_digit n) = (if n < 10 then 48 + n else 87 + n)"
  by (auto simp: hex_digit_def)

lemma hex_val_digit: "n < 16 \<Longrightarrow> hex_val (hex_digit n) = Some n"
  by (auto simp: hex_val_def byte_val_hex_digit)

lemma read_hex_add:
  "read_hex (j + k) acc s = (case read_hex j acc s of None \<Rightarrow> None | Some (a, t) \<Rightarrow> read_hex k a t)"
  by (induction j acc s rule: read_hex.induct) (auto split: option.split)

lemma read_hex_fixed: "n < 16 ^ k \<Longrightarrow> read_hex k acc (hex_fixed k n @ t) = Some (16 ^ k * acc + n, t)"
proof (induction k arbitrary: n t)
  case (Suc k)
  then have "n div 16 < 16 ^ k" by (simp add: less_mult_imp_div_less mult.commute)
  from Suc.IH [OF this, of "hex_digit (n mod 16) # t"]
  have "read_hex (k + 1) acc (hex_fixed (Suc k) n @ t) = Some (16 * (16 ^ k * acc + n div 16) + n mod 16, t)"
    unfolding read_hex_add by (simp add: hex_val_digit)
  moreover have "16 * (16 ^ k * acc + n div 16) + n mod 16 = 16 ^ Suc k * acc + n"
    by (simp add: add_mult_distrib2 mult.assoc)
  ultimately show ?case by simp
qed simp

lemma hex_fixed_bytes: "b \<in> set (hex_fixed k n) \<Longrightarrow> 48 \<le> byte_val b \<and> byte_val b < 103"
  by (induction k arbitrary: n) (auto simp: byte_val_hex_digit split: if_splits)

section \<open>Runes and the bytes they were decoded from\<close>

type_synonym chunk = "rune \<times> string"

function rune_chunks :: "string \<Rightarrow> chunk list" where
  "rune_chunks s = (if s = [] then []
                    else (case decode_rune s of (r, w) \<Rightarrow> (r, take w s) # rune_chunks (drop w s)))"
  by pat_completeness auto
termination
  by (relation "measure length") (auto simp: decode_rune_step)

declare rune_chunks.simps [simp del]

text \<open>A byte that starts no rune is a chunk of its own, with the error rune.\<close>

definition is_chunk :: "chunk \<Rightarrow> bool" where
  "is_chunk c \<longleftrightarrow> snd c \<noteq> [] \<and> decode_rune (snd c) = (fst c, length (snd c))"

definition broken :: "chunk \<Rightarrow> bool" where
  "broken c \<longleftrightarrow> fst c = RuneError \<and> length (snd c) = 1"

lemma rune_chunks_Nil [simp]: "rune_chunks [] = []"
  by (simp add: rune_chunks.simps)

lemma runes_chunks: "runes s = map fst (rune_chunks s)"
  by (induction s rule: runes.induct) (subst runes.simps, subst rune_chunks.simps, simp split: prod.split)

lemma concat_chunks: "concat (map snd (rune_chunks s)) = s"
  by (induction s rule: rune_chunks.induct) (subst rune_chunks.simps, simp split: prod.split)

lemma is_chunk_length: "is_chunk c \<Longrightarrow> length (snd c) \<le> 4"
  by (cases c; auto simp: is_chunk_def decode_rune_def split: list.splits if_splits)

lemma chunk_widths:
  assumes "is_chunk (r, c)"
  obtains (1) a where "c = [a]" | (2) a b where "c = [a, b]" | (3) a b d where "c = [a, b, d]"
    | (4) a b d e where "c = [a, b, d, e]"
proof -
  from assms have "length c \<le> 4" "c \<noteq> []" using is_chunk_length [of "(r, c)"] by (auto simp: is_chunk_def)
  with that show ?thesis
    by (cases c; cases "tl c"; cases "tl (tl c)"; cases "tl (tl (tl c))") auto
qed

lemma decode_rune_take:
  assumes "s \<noteq> []"
  shows "is_chunk (fst (decode_rune s), take (snd (decode_rune s)) s)"
proof -
  from assms obtain a t where s: "s = a # t" by (cases s) auto
  show ?thesis
  proof (cases t)
    case Nil
    with s show ?thesis by (auto simp: is_chunk_def decode_rune_def)
  next
    case (Cons b u)
    with s show ?thesis
      by (cases u; cases "tl u") (auto simp: is_chunk_def decode_rune_def)
  qed
qed

lemma rune_chunks_ok: "c \<in> set (rune_chunks s) \<Longrightarrow> is_chunk c"
proof (induction s rule: rune_chunks.induct)
  case (1 s)
  show ?case
  proof (cases "s = []")
    case False
    with "1.prems" have "c = (fst (decode_rune s), take (snd (decode_rune s)) s) \<or>
        c \<in> set (rune_chunks (drop (snd (decode_rune s)) s))"
      by (subst (asm) rune_chunks.simps) (auto simp: case_prod_beta)
    with False decode_rune_take [OF False] "1.IH" show ?thesis by (metis prod.collapse)
  qed (use "1.prems" in simp)
qed

lemma decode_rune_extend:
  assumes "is_chunk (r, c)" and "\<not> broken (r, c)"
  shows "decode_rune (c @ t) = (r, length c)"
proof -
  from assms(1) consider a where "c = [a]" | a b where "c = [a, b]" | a b d where "c = [a, b, d]"
    | a b d e where "c = [a, b, d, e]"
    by (rule chunk_widths)
  then show ?thesis
    using assms
    by cases (auto simp: is_chunk_def broken_def decode_rune_def split: if_splits)
qed

lemma broken_byte: "is_chunk c \<Longrightarrow> broken c \<Longrightarrow> \<exists>b. c = (RuneError, [b]) \<and> 128 \<le> byte_val b"
  by (cases c) (auto simp: is_chunk_def broken_def decode_rune_def RuneError_def length_Suc_conv split: if_splits)

lemma ascii_chunk: "is_chunk (r, c) \<Longrightarrow> r < 128 \<Longrightarrow> c = [char_of r]"
  by (auto simp: is_chunk_def decode_rune_def RuneError_def split: list.splits if_splits)

lemma chunk_bytes: "is_chunk (r, c) \<Longrightarrow> 128 \<le> r \<Longrightarrow> b \<in> set c \<Longrightarrow> 128 \<le> byte_val b"
  by (auto simp: is_chunk_def decode_rune_def RuneError_def cont_byte_def split: list.splits if_splits)

text \<open>A multi-byte rune in base 64.\<close>

lemma base64_digits:
  assumes "q < (64::nat)"
  shows "(p * 64 + q) div 64 = p" and "(p * 64 + q) mod 64 = q"
  using assms by simp_all

lemma encode_two: "2 \<le> p \<Longrightarrow> p < 32 \<Longrightarrow> q < 64 \<Longrightarrow>
    encode_rune (p * 64 + q) = [char_of (192 + p), char_of (128 + q)]"
  by (simp add: encode_rune_def Let_def base64_digits)

lemma encode_three:
  assumes "p < 16" and "q < 64" and "s < 64" and "2048 \<le> p * 4096 + q * 64 + s"
    and "\<not> (55296 \<le> p * 4096 + q * 64 + s \<and> p * 4096 + q * 64 + s \<le> 57343)"
  shows "encode_rune (p * 4096 + q * 64 + s) = [char_of (224 + p), char_of (128 + q), char_of (128 + s)]"
proof -
  define r where "r = p * 4096 + q * 64 + s"
  have r: "r = (p * 64 + q) * 64 + s" by (simp add: r_def add_mult_distrib)
  have "r div 64 = p * 64 + q" "r mod 64 = s" unfolding r by (rule base64_digits [OF assms(3)])+
  moreover have "r div 4096 = r div 64 div 64" by (simp flip: div_mult2_eq)
  ultimately have "r div 4096 = p" "r div 64 mod 64 = q" "r mod 64 = s"
    using base64_digits [OF assms(2)] by simp_all
  moreover have "r < 65536" using assms(1-3) by (simp add: r_def)
  ultimately show ?thesis
    using assms(4,5) unfolding r_def [symmetric] by (auto simp: encode_rune_def Let_def)
qed

lemma encode_four:
  assumes "p < 8" and "q < 64" and "s < 64" and "u < 64" and "65536 \<le> p * 262144 + q * 4096 + s * 64 + u"
    and "p * 262144 + q * 4096 + s * 64 + u \<le> 1114111"
  shows "encode_rune (p * 262144 + q * 4096 + s * 64 + u)
    = [char_of (240 + p), char_of (128 + q), char_of (128 + s), char_of (128 + u)]"
proof -
  define r where "r = p * 262144 + q * 4096 + s * 64 + u"
  define m where "m = p * 64 + q"
  have r: "r = (m * 64 + s) * 64 + u" by (simp add: r_def m_def add_mult_distrib)
  have low: "r div 64 = m * 64 + s" "r mod 64 = u" unfolding r by (rule base64_digits [OF assms(4)])+
  have mid: "r div 4096 = m" "r div 64 mod 64 = s"
    using base64_digits [OF assms(3), of m] div_mult2_eq [of r 64 64] by (simp_all add: low)
  have "r div 262144 = m div 64" using div_mult2_eq [of r 4096 64] by (simp add: mid)
  then have "r div 262144 = p" "r div 4096 mod 64 = q" "r div 64 mod 64 = s" "r mod 64 = u"
    using base64_digits [OF assms(2), of p] mid low(2) unfolding m_def by simp_all
  then show ?thesis
    using assms(5,6) unfolding r_def [symmetric] by (auto simp: encode_rune_def Let_def)
qed

lemma char_of_offset: "n = byte_val b - m \<Longrightarrow> m \<le> byte_val b \<Longrightarrow> char_of (m + n) = b"
  by simp

lemma encode_chunk_three:
  assumes "is_chunk (r, [a, b, d])"
  shows "encode_rune r = [a, b, d]"
proof -
  from assms have r: "r = (byte_val a - 224) * 4096 + (byte_val b - 128) * 64 + (byte_val d - 128)"
    and "224 \<le> byte_val a" "byte_val a \<le> 239" "128 \<le> byte_val b" "byte_val b \<le> 191"
      "128 \<le> byte_val d" "byte_val d \<le> 191"
    and "byte_val a = 224 \<longrightarrow> 160 \<le> byte_val b" "byte_val a = 237 \<longrightarrow> byte_val b \<le> 159"
    by (auto simp: is_chunk_def decode_rune_def cont_byte_def split: if_splits)
  moreover from this have "2048 \<le> r" by auto
  moreover from calculation have "\<not> (55296 \<le> r \<and> r \<le> 57343)"
    by (cases "byte_val a \<le> 236"; cases "byte_val a = 237") auto
  ultimately show ?thesis
    using encode_three [of "byte_val a - 224" "byte_val b - 128" "byte_val d - 128"]
    by (simp add: char_of_offset)
qed

lemma encode_chunk_four:
  assumes "is_chunk (r, [a, b, d, e])"
  shows "encode_rune r = [a, b, d, e]"
proof -
  from assms have r: "r = (byte_val a - 240) * 262144 + (byte_val b - 128) * 4096 + (byte_val d - 128) * 64
      + (byte_val e - 128)"
    and "240 \<le> byte_val a" "byte_val a \<le> 244" "128 \<le> byte_val b" "byte_val b \<le> 191"
      "128 \<le> byte_val d" "byte_val d \<le> 191" "128 \<le> byte_val e" "byte_val e \<le> 191"
    and "byte_val a = 240 \<longrightarrow> 144 \<le> byte_val b" "byte_val a = 244 \<longrightarrow> byte_val b \<le> 143"
    by (auto simp: is_chunk_def decode_rune_def cont_byte_def split: if_splits)
  note bounds = this
  then have "65536 \<le> r" "r \<le> 1114111" by auto
  then have "encode_rune r = [char_of (240 + (byte_val a - 240)), char_of (128 + (byte_val b - 128)),
      char_of (128 + (byte_val d - 128)), char_of (128 + (byte_val e - 128))]"
    unfolding r by (intro encode_four) (use bounds in linarith)+
  with bounds show ?thesis by (simp add: char_of_offset)
qed

lemma encode_chunk:
  assumes "is_chunk (r, c)" and "\<not> broken (r, c)"
  shows "encode_rune r = c"
proof -
  from assms(1) consider a where "c = [a]" | a b where "c = [a, b]" | a b d where "c = [a, b, d]"
    | a b d e where "c = [a, b, d, e]"
    by (rule chunk_widths)
  then show ?thesis
  proof cases
    case (1 a)
    with assms show ?thesis
      by (auto simp: is_chunk_def broken_def decode_rune_def encode_rune_def Let_def split: if_splits)
  next
    case (2 a b)
    with assms have "r = (byte_val a - 192) * 64 + (byte_val b - 128)" "194 \<le> byte_val a" "byte_val a \<le> 223"
      "128 \<le> byte_val b" "byte_val b \<le> 191"
      by (auto simp: is_chunk_def decode_rune_def cont_byte_def split: if_splits)
    with 2 show ?thesis
      using encode_two [of "byte_val a - 192" "byte_val b - 128"] by (simp add: char_of_offset)
  next
    case (3 a b d)
    with assms(1) encode_chunk_three show ?thesis by simp
  next
    case (4 a b d e)
    with assms(1) encode_chunk_four show ?thesis by simp
  qed
qed

section \<open>UTF-8 strings\<close>

definition valid_utf8 :: "string \<Rightarrow> bool" where
  "valid_utf8 s \<longleftrightarrow> (\<forall>c\<in>set (rune_chunks s). \<not> broken c)"

text \<open>What \<open>string([]rune(s))\<close> is: every byte that starts no rune replaced by the error rune.\<close>

definition coerce_utf8 :: "string \<Rightarrow> string" where
  "coerce_utf8 s = concat (map encode_rune (runes s))"

lemma coerce_valid: "valid_utf8 s \<Longrightarrow> coerce_utf8 s = s"
proof -
  assume "valid_utf8 s"
  then have "map (\<lambda>c. encode_rune (fst c)) (rune_chunks s) = map snd (rune_chunks s)"
    using rune_chunks_ok encode_chunk by (fastforce simp: valid_utf8_def)
  then have "concat (map (\<lambda>c. encode_rune (fst c)) (rune_chunks s)) = s" by (simp only: concat_chunks)
  then show ?thesis by (simp add: coerce_utf8_def runes_chunks comp_def)
qed

lemma rune_chunks_chunk:
  assumes "is_chunk c" and "\<not> broken c"
  shows "rune_chunks (snd c @ t) = c # rune_chunks t"
  using assms decode_rune_extend [of "fst c" "snd c" t]
  by (subst rune_chunks.simps) (auto simp: is_chunk_def)

lemma rune_chunks_chunks:
  "\<forall>c\<in>set cs. is_chunk c \<and> \<not> broken c \<Longrightarrow> rune_chunks (concat (map snd cs) @ t) = cs @ rune_chunks t"
  by (induction cs) (simp_all add: rune_chunks_chunk)

lemma rune_chunks_append: "valid_utf8 s \<Longrightarrow> rune_chunks (s @ t) = rune_chunks s @ rune_chunks t"
  using rune_chunks_chunks [of "rune_chunks s" t] rune_chunks_ok by (simp add: valid_utf8_def concat_chunks)

lemma valid_utf8_append: "valid_utf8 s \<Longrightarrow> valid_utf8 (s @ t) = valid_utf8 t"
  by (auto simp: valid_utf8_def rune_chunks_append)

lemma valid_utf8_Nil [simp]: "valid_utf8 []"
  by (simp add: valid_utf8_def)

lemma valid_utf8_chunk: "is_chunk c \<Longrightarrow> \<not> broken c \<Longrightarrow> valid_utf8 (snd c)"
  using rune_chunks_chunk [of c "[]"] by (simp add: valid_utf8_def)

lemma valid_utf8_ascii_Cons: "byte_val b < 128 \<Longrightarrow> valid_utf8 (b # t) = valid_utf8 t"
  using rune_chunks_chunk [of "(byte_val b, [b])" t]
  by (simp add: valid_utf8_def is_chunk_def broken_def RuneError_def decode_rune_ascii)

lemma valid_utf8_ascii: "is_ascii s \<Longrightarrow> valid_utf8 s"
  by (induction s) (simp_all add: valid_utf8_ascii_Cons)

lemma valid_utf8_concat: "\<forall>s\<in>set ss. valid_utf8 s \<Longrightarrow> valid_utf8 (concat ss)"
  by (induction ss) (simp_all add: valid_utf8_append)

section \<open>Quoted text and its readers\<close>

text \<open>Read up to the closing quote, one unit at a time.\<close>

function read_text :: "(string \<Rightarrow> (string \<times> string) option) \<Rightarrow> string \<Rightarrow> (string \<times> string) option" where
  "read_text unit s =
     (case s of [] \<Rightarrow> None
      | b # t \<Rightarrow>
          if b = CHR 0x22 then Some ([], t)
          else (case unit s of None \<Rightarrow> None
                | Some (u, r) \<Rightarrow>
                    if length r < length s
                    then (case read_text unit r of None \<Rightarrow> None | Some (v, q) \<Rightarrow> Some (u @ v, q))
                    else None))"
  by pat_completeness auto
termination
  by (relation "measure (length \<circ> snd)") auto

declare read_text.simps [simp del]

definition read_string :: "(string \<Rightarrow> (string \<times> string) option) \<Rightarrow> string \<Rightarrow> (string \<times> string) option" where
  "read_string unit s = (case s of [] \<Rightarrow> None | b # t \<Rightarrow> if b = CHR 0x22 then read_text unit t else None)"

text \<open>
  What an escaping of chunks owes to a reader of units: each escaped chunk is read as one unit, starts with no
  closing quote, and has no control character.
\<close>

locale quoted_text =
  fixes esc :: "chunk \<Rightarrow> string" and unit :: "string \<Rightarrow> (string \<times> string) option" and plain :: "chunk \<Rightarrow> string"
  assumes unit_esc: "is_chunk c \<Longrightarrow> unit (esc c @ t) = Some (plain c, t)"
    and esc_start: "is_chunk c \<Longrightarrow> esc c \<noteq> [] \<and> hd (esc c) \<noteq> CHR 0x22"
    and esc_bytes: "is_chunk c \<Longrightarrow> b \<in> set (esc c) \<Longrightarrow> 32 \<le> byte_val b"
begin

definition quoted :: "string \<Rightarrow> string" where
  "quoted s = CHR 0x22 # concat (map esc (rune_chunks s)) @ [CHR 0x22]"

lemma read_text_esc: "is_chunk c \<Longrightarrow>
    read_text unit (esc c @ t) = (case read_text unit t of None \<Rightarrow> None | Some (v, q) \<Rightarrow> Some (plain c @ v, q))"
  using esc_start [of c] unit_esc [of c t]
  by (subst read_text.simps) (cases "esc c"; simp)

lemma read_text_chunks: "\<forall>c\<in>set cs. is_chunk c \<Longrightarrow>
    read_text unit (concat (map esc cs) @ CHR 0x22 # t) = Some (concat (map plain cs), t)"
proof (induction cs)
  case Nil
  show ?case by (subst read_text.simps) simp
qed (simp add: read_text_esc)

lemma read_quoted: "read_string unit (quoted s @ t) = Some (concat (map plain (rune_chunks s)), t)"
  using rune_chunks_ok by (simp add: read_string_def quoted_def read_text_chunks)

lemma quoted_bytes: "b \<in> set (quoted s) \<Longrightarrow> 32 \<le> byte_val b"
  by (auto simp: quoted_def dest: esc_bytes [OF rune_chunks_ok])

end

section \<open>Strings of encoding/json\<close>

abbreviation backslash :: byte where
  "backslash \<equiv> CHR 0x5C"

definition json_short :: "(rune \<times> byte) list" where
  "json_short = [(34, CHR 0x22), (92, backslash), (8, CHR ''b''), (12, CHR ''f''), (10, CHR ''n''),
     (13, CHR ''r''), (9, CHR ''t'')]"

text \<open>\<open><\<close>, \<open>>\<close> and \<open>&\<close> are escaped so that a body is harmless inside HTML, U+2028 and U+2029 inside JavaScript.\<close>

definition json_escape :: "chunk \<Rightarrow> string" where
  "json_escape c = (case c of (r, bs) \<Rightarrow>
     if r < 128 then
       (case map_of json_short r of
          Some b \<Rightarrow> [backslash, b]
        | None \<Rightarrow> if r < 32 \<or> r = 38 \<or> r = 60 \<or> r = 62 then [backslash, CHR ''u''] @ hex_fixed 4 r else bs)
     else if broken c then [backslash, CHR ''u''] @ ''fffd''
     else if r = 8232 \<or> r = 8233 then [backslash, CHR ''u''] @ ''202'' @ [hex_digit (r mod 16)]
     else bs)"

definition json_string :: "string \<Rightarrow> string" where
  "json_string s = CHR 0x22 # concat (map json_escape (rune_chunks s)) @ [CHR 0x22]"

definition short_value :: "(rune \<times> byte) list \<Rightarrow> byte \<Rightarrow> rune option" where
  "short_value table b = map_option fst (List.find (\<lambda>p. snd p = b) table)"

definition surrogate :: "rune \<Rightarrow> bool" where
  "surrogate r \<longleftrightarrow> 55296 \<le> r \<and> r \<le> 57343"

definition json_unit :: "string \<Rightarrow> (string \<times> string) option" where
  "json_unit s =
     (case s of [] \<Rightarrow> None
      | b # t \<Rightarrow>
          if b = backslash then
            (case t of [] \<Rightarrow> None
             | e # u \<Rightarrow>
                 if e = CHR ''u'' then
                   (case read_hex 4 0 u of
                      None \<Rightarrow> None
                    | Some (n, v) \<Rightarrow> if surrogate n then None else Some (encode_rune n, v))
                 else if e = CHR ''/'' then Some ([e], u)
                 else map_option (\<lambda>r. (encode_rune r, u)) (short_value json_short e))
          else if byte_val b < 32 then None
          else (case decode_rune s of (r, w) \<Rightarrow>
                  if broken (r, take w s) then None else Some (take w s, drop w s)))"

section \<open>strconv.Quote\<close>

definition go_short :: "(rune \<times> byte) list" where
  "go_short = [(34, CHR 0x22), (92, backslash), (7, CHR ''a''), (8, CHR ''b''), (12, CHR ''f''), (10, CHR ''n''),
     (13, CHR ''r''), (9, CHR ''t''), (11, CHR ''v'')]"

definition IsPrint :: "(rune \<Rightarrow> bool) \<Rightarrow> rune \<Rightarrow> bool" where
  "IsPrint printable r \<longleftrightarrow>
     (if r \<le> 255 then (32 \<le> r \<and> r < 127) \<or> (161 \<le> r \<and> r \<noteq> 173) else printable r)"

definition quote_rune :: "(rune \<Rightarrow> bool) \<Rightarrow> chunk \<Rightarrow> string" where
  "quote_rune printable c = (case c of (r, bs) \<Rightarrow>
     if broken c then [backslash, CHR ''x''] @ hex_fixed 2 (byte_val (hd bs))
     else if r = 34 \<or> r = 92 then [backslash, char_of r]
     else if IsPrint printable r then encode_rune r
     else (case map_of go_short r of
             Some b \<Rightarrow> [backslash, b]
           | None \<Rightarrow>
               if r < 32 \<or> r = 127 then [backslash, CHR ''x''] @ hex_fixed 2 r
               else if r < 65536 then [backslash, CHR ''u''] @ hex_fixed 4 r
               else [backslash, CHR ''U''] @ hex_fixed 8 r))"

definition Quote :: "(rune \<Rightarrow> bool) \<Rightarrow> string \<Rightarrow> string" where
  "Quote printable s = CHR 0x22 # concat (map (quote_rune printable) (rune_chunks s)) @ [CHR 0x22]"

definition go_unit :: "string \<Rightarrow> (string \<times> string) option" where
  "go_unit s =
     (case s of [] \<Rightarrow> None
      | b # t \<Rightarrow>
          if b = backslash then
            (case t of [] \<Rightarrow> None
             | e # u \<Rightarrow>
                 if e = CHR ''x'' then map_option (\<lambda>(n, v). ([char_of n], v)) (read_hex 2 0 u)
                 else if e = CHR ''u'' then map_option (\<lambda>(n, v). (encode_rune n, v)) (read_hex 4 0 u)
                 else if e = CHR ''U'' then map_option (\<lambda>(n, v). (encode_rune n, v)) (read_hex 8 0 u)
                 else map_option (\<lambda>r. (encode_rune r, u)) (short_value go_short e))
          else if b = CHR 0x0A then None
          else (case decode_rune s of (r, w) \<Rightarrow> Some (take w s, drop w s)))"

section \<open>Both are quoted text\<close>

lemma nibble_4: "r < 256 ^ 2 \<Longrightarrow> (r::nat) < 16 ^ 4" and nibble_2: "r < 256 \<Longrightarrow> (r::nat) < 16 ^ 2"
  by simp_all

lemma read_hex_2: "r < 256 \<Longrightarrow> read_hex 2 0 (hex_fixed 2 r @ t) = Some (r, t)"
  and read_hex_4: "r < 65536 \<Longrightarrow> read_hex 4 0 (hex_fixed 4 r @ t) = Some (r, t)"
  and read_hex_8: "r < 4294967296 \<Longrightarrow> read_hex 8 0 (hex_fixed 8 r @ t) = Some (r, t)"
  using read_hex_fixed [of r 2 0 t] read_hex_fixed [of r 4 0 t] read_hex_fixed [of r 8 0 t] by simp_all

lemma hex_fixed_4: "hex_fixed 4 r =
    [hex_digit (r div 4096 mod 16), hex_digit (r div 256 mod 16), hex_digit (r div 16 mod 16), hex_digit (r mod 16)]"
proof -
  have "(4::nat) = Suc (Suc (Suc (Suc 0)))" by simp
  then show ?thesis by (simp only: hex_fixed.simps) (simp flip: div_mult2_eq)
qed

lemma hex_fixed_2028: "r = 8232 \<or> r = 8233 \<Longrightarrow> ''202'' @ [hex_digit (r mod 16)] = hex_fixed 4 r"
  by (elim disjE; hypsubst) (simp_all add: hex_fixed_4 hex_digit_def char_of_nat_eval)

lemma chunk_cases:
  assumes "is_chunk c"
  obtains (ascii) r where "c = (r, [char_of r])" and "r < 128"
  | (broken) b where "c = (RuneError, [b])" and "128 \<le> byte_val b" and "broken c"
  | (wide) r b bs where "c = (r, b # bs)" and "128 \<le> r" and "\<not> broken c" and "128 \<le> byte_val b"
      and "\<forall>d\<in>set bs. 128 \<le> byte_val d"
proof (cases "broken c")
  case True
  with assms that(2) show ?thesis using broken_byte by blast
next
  case False
  obtain r bs where c: "c = (r, bs)" by (cases c)
  show ?thesis
  proof (cases "r < 128")
    case True
    with assms c that(1) ascii_chunk show ?thesis by blast
  next
    case wide: False
    with assms c obtain b u where bs: "bs = b # u" by (cases bs) (auto simp: is_chunk_def)
    with assms c wide chunk_bytes [of r bs] have "\<forall>d\<in>set bs. 128 \<le> byte_val d" by fastforce
    with bs c wide False that(3) show ?thesis by simp
  qed
qed

lemma rune_below:
  assumes "is_chunk (r, c)"
  shows "r < 1114112"
  using assms
  by (cases rule: chunk_widths [OF assms])
    (auto simp: is_chunk_def decode_rune_def RuneError_def cont_byte_def split: if_splits)

lemma wide_decode:
  assumes "is_chunk (r, b # bs)" and "\<not> broken (r, b # bs)"
  shows "decode_rune (b # bs @ t) = (r, Suc (length bs))"
  using decode_rune_extend [OF assms, of t] by simp

lemma hex_fixed_error: "''fffd'' = hex_fixed 4 RuneError"
  by (simp add: hex_fixed_4 hex_digit_def RuneError_def char_of_nat_eval)

lemma byte_neq_backslash: "byte_val b \<noteq> 92 \<Longrightarrow> b \<noteq> backslash"
  by auto

lemma byte_neq_quote: "byte_val b \<noteq> 34 \<Longrightarrow> b \<noteq> CHR 0x22"
  by auto

lemma encode_single: "r < 128 \<Longrightarrow> encode_rune r = [char_of r]"
  by (simp add: encode_rune_ascii)

lemma json_unit_u:
  "r < 65536 \<Longrightarrow> \<not> surrogate r \<Longrightarrow> json_unit (backslash # CHR ''u'' # hex_fixed 4 r @ t) = Some (encode_rune r, t)"
  by (simp add: json_unit_def read_hex_4)

lemma json_short_table:
  "list_all (\<lambda>(r, b). short_value json_short b = Some r \<and> b \<noteq> CHR ''u'' \<and> b \<noteq> CHR ''/'') json_short"
  by (simp add: json_short_def short_value_def)

lemma json_unit_short:
  "map_of json_short r = Some b \<Longrightarrow> json_unit (backslash # b # t) = Some (encode_rune r, t)"
  using json_short_table by (fastforce simp: list_all_iff json_unit_def dest: map_of_SomeD)

lemma json_unit_raw:
  assumes "is_chunk (r, b # bs)" and "\<not> broken (r, b # bs)" and "32 \<le> byte_val b" and "byte_val b \<noteq> 92"
  shows "json_unit (b # bs @ t) = Some (encode_rune r, t)"
  using assms wide_decode [OF assms(1,2), of t] encode_chunk [OF assms(1,2)] byte_neq_backslash [of b]
  by (simp add: json_unit_def)

lemma json_unit_escape:
  assumes "is_chunk c"
  shows "json_unit (json_escape c @ t) = Some (encode_rune (fst c), t)"
proof (cases rule: chunk_cases [OF assms])
  case (1 r)
  note ascii = this
  have "\<not> broken (r, [char_of r])" using ascii by (simp add: broken_def RuneError_def)
  then show ?thesis
    using ascii assms json_unit_raw [of r "char_of r" "[]" t]
    by (cases "map_of json_short r")
      (auto simp: json_escape_def json_unit_short json_unit_u surrogate_def json_short_def split: if_splits)
next
  case (2 b)
  then show ?thesis
    using json_unit_u [of RuneError t]
    by (simp add: json_escape_def hex_fixed_error RuneError_def surrogate_def)
next
  case (3 r b bs)
  with assms show ?thesis
    using json_unit_raw [of r b bs t] json_unit_u [of r t] hex_fixed_2028 [of r]
    by (auto simp: json_escape_def surrogate_def)
qed

lemma json_escape_start:
  assumes "is_chunk c"
  shows "json_escape c \<noteq> [] \<and> hd (json_escape c) \<noteq> CHR 0x22"
proof (cases rule: chunk_cases [OF assms])
  case (1 r)
  then show ?thesis
    using byte_neq_quote [of "char_of r"] by (cases "r = 34") (auto simp: json_escape_def json_short_def)
next
  case (3 r b bs)
  then show ?thesis using byte_neq_quote [of b] by (auto simp: json_escape_def)
qed (auto simp: json_escape_def RuneError_def)

lemma json_escape_bytes:
  assumes "is_chunk c" and "b \<in> set (json_escape c)"
  shows "32 \<le> byte_val b"
proof (cases rule: chunk_cases [OF assms(1)])
  case (1 r)
  with assms(2) show ?thesis
    by (auto simp: json_escape_def json_short_def dest!: hex_fixed_bytes split: if_splits)
next
  case (2 d)
  with assms(2) show ?thesis by (auto simp: json_escape_def RuneError_def)
next
  case (3 r d bs)
  with assms(2) show ?thesis
    by (auto simp: json_escape_def byte_val_hex_digit split: if_splits)
qed

interpretation json: quoted_text json_escape json_unit "\<lambda>c. encode_rune (fst c)"
  rewrites "quoted_text.quoted json_escape = json_string"
proof -
  show "quoted_text json_escape json_unit (\<lambda>c. encode_rune (fst c))"
    by unfold_locales (simp_all add: json_unit_escape json_escape_start json_escape_bytes)
  then show "quoted_text.quoted json_escape = json_string"
    by (simp add: fun_eq_iff quoted_text.quoted_def json_string_def)
qed

lemma go_unit_x: "n < 256 \<Longrightarrow> go_unit (backslash # CHR ''x'' # hex_fixed 2 n @ t) = Some ([char_of n], t)"
  by (simp add: go_unit_def read_hex_2)

lemma go_unit_u: "r < 65536 \<Longrightarrow> go_unit (backslash # CHR ''u'' # hex_fixed 4 r @ t) = Some (encode_rune r, t)"
  by (simp add: go_unit_def read_hex_4)

lemma go_unit_U: "r < 4294967296 \<Longrightarrow> go_unit (backslash # CHR ''U'' # hex_fixed 8 r @ t) = Some (encode_rune r, t)"
  by (simp add: go_unit_def read_hex_8)

lemma go_short_table:
  "list_all (\<lambda>(r, b). short_value go_short b = Some r \<and> b \<noteq> CHR ''x'' \<and> b \<noteq> CHR ''u'' \<and> b \<noteq> CHR ''U'' \<and>
     32 \<le> byte_val b) go_short"
  by (simp add: go_short_def short_value_def)

lemma go_short_entry:
  "map_of go_short r = Some b \<Longrightarrow>
    short_value go_short b = Some r \<and> b \<noteq> CHR ''x'' \<and> b \<noteq> CHR ''u'' \<and> b \<noteq> CHR ''U'' \<and> 32 \<le> byte_val b"
  using go_short_table by (fastforce simp: list_all_iff dest: map_of_SomeD)

lemma go_unit_short: "map_of go_short r = Some b \<Longrightarrow> go_unit (backslash # b # t) = Some (encode_rune r, t)"
  using go_short_entry [of r b] by (simp add: go_unit_def)

lemma go_unit_raw:
  assumes "is_chunk (r, b # bs)" and "\<not> broken (r, b # bs)" and "byte_val b \<noteq> 92" and "byte_val b \<noteq> 10"
  shows "go_unit (b # bs @ t) = Some (b # bs, t)"
  using assms wide_decode [OF assms(1,2), of t] byte_neq_backslash [of b]
  by (auto simp: go_unit_def)

lemma quote_rune_good:
  assumes "is_chunk c" and "\<not> broken c"
  shows "go_unit (quote_rune printable c @ t) = Some (snd c, t)"
proof -
  obtain r b bs where c: "c = (r, b # bs)" using assms(1) by (cases c; cases "snd c") (auto simp: is_chunk_def)
  note enc = encode_chunk [OF assms [unfolded c]]
  have small: "r < 1114112" using rune_below assms(1) c by blast
  have ascii: "r < 128 \<Longrightarrow> b = char_of r \<and> bs = []" using ascii_chunk assms(1) c by blast
  show ?thesis
  proof (cases "r = 34 \<or> r = 92")
    case True
    then show ?thesis
      using go_unit_short [of r b t] c assms ascii
      by (auto simp: quote_rune_def go_short_def encode_single char_of_nat_eval)
  next
    case False
    show ?thesis
    proof (cases "IsPrint printable r")
      case True
      have "byte_val b \<noteq> 92 \<and> byte_val b \<noteq> 10"
        using ascii False True chunk_bytes [of r "b # bs" b] assms(1) c
        by (cases "r < 128") (auto simp: IsPrint_def)
      then show ?thesis
        using go_unit_raw [of r b bs t] True False c assms enc by (simp add: quote_rune_def)
    next
      case hidden: False
      show ?thesis
      proof (cases "map_of go_short r")
        case None
        then show ?thesis
          using hidden False c assms small ascii enc go_unit_x [of r t] go_unit_u [of r t] go_unit_U [of r t]
          by (auto simp: quote_rune_def)
      next
        case (Some a)
        then show ?thesis
          using hidden False c assms enc go_unit_short [OF Some, of t] by (simp add: quote_rune_def)
      qed
    qed
  qed
qed

lemma go_unit_quote: "is_chunk c \<Longrightarrow> go_unit (quote_rune printable c @ t) = Some (snd c, t)"
  using quote_rune_good [of c printable t] broken_byte [of c] go_unit_x [of "byte_val (hd (snd c))" t]
  by (cases "broken c") (auto simp: quote_rune_def)

lemma quote_rune_raw: "is_chunk (r, bs) \<Longrightarrow> \<not> broken (r, bs) \<Longrightarrow> r \<noteq> 34 \<Longrightarrow> IsPrint printable r \<Longrightarrow>
    b \<in> set bs \<Longrightarrow> 32 \<le> byte_val b \<and> b \<noteq> CHR 0x22"
  using ascii_chunk [of r bs] chunk_bytes [of r bs b] byte_neq_quote [of b]
  by (cases "r < 128") (auto simp: IsPrint_def)

lemma quote_rune_shape:
  assumes "is_chunk c"
  shows "quote_rune printable c \<noteq> [] \<and> hd (quote_rune printable c) \<noteq> CHR 0x22 \<and>
    (\<forall>b\<in>set (quote_rune printable c). 32 \<le> byte_val b)"
proof -
  obtain r bs where c: "c = (r, bs)" by (cases c)
  have short: "map_of go_short r = Some b \<Longrightarrow> 32 \<le> byte_val b" for b
    using go_short_entry by blast
  have printed: "encode_rune r = bs \<and> bs \<noteq> [] \<and> hd bs \<noteq> CHR 0x22 \<and> (\<forall>b\<in>set bs. 32 \<le> byte_val b)"
    if "\<not> broken c" "r \<noteq> 34" "IsPrint printable r"
    using that assms c quote_rune_raw [of r bs printable] encode_chunk [of r bs]
    by (cases bs) (auto simp: is_chunk_def)
  show ?thesis
    using c short printed
    by (auto simp: quote_rune_def dest: hex_fixed_bytes split: option.split)
qed

interpretation go: quoted_text "quote_rune printable" go_unit snd
  rewrites "quoted_text.quoted (quote_rune printable) = Quote printable" for printable
proof -
  show "quoted_text (quote_rune printable) go_unit snd"
    by unfold_locales (use quote_rune_shape in \<open>auto simp: go_unit_quote\<close>)
  then show "quoted_text.quoted (quote_rune printable) = Quote printable"
    by (simp add: fun_eq_iff quoted_text.quoted_def Quote_def)
qed

lemma read_Quote: "read_string go_unit (Quote printable s @ t) = Some (s, t)"
  by (simp add: go.read_quoted concat_chunks)

lemma read_json_string: "read_string json_unit (json_string s @ t) = Some (coerce_utf8 s, t)"
  by (simp add: json.read_quoted coerce_utf8_def runes_chunks comp_def)

lemma quote_rune_utf8: "is_chunk c \<Longrightarrow> valid_utf8 (quote_rune printable c)"
proof -
  assume chunk: "is_chunk c"
  have ascii: "valid_utf8 (backslash # b # hex_fixed k n)" if "byte_val b < 128" for b k n
  proof -
    have "is_ascii (hex_fixed k n)" using hex_fixed_bytes by (fastforce simp: is_ascii_def list_all_iff)
    with that show ?thesis by (simp add: valid_utf8_ascii_Cons valid_utf8_ascii)
  qed
  have short: "valid_utf8 [backslash, b]" if "map_of go_short r = Some b" for r b
    using that ascii [of b 0] by (auto simp: go_short_def split: if_splits)
  have raw: "valid_utf8 (encode_rune (fst c))" if "\<not> broken c"
    using that chunk encode_chunk [of "fst c" "snd c"] valid_utf8_chunk by simp
  show ?thesis
    using ascii ascii [of _ 0] short raw
    by (cases c) (auto simp: quote_rune_def split: option.split)
qed

lemma Quote_utf8: "valid_utf8 (Quote printable s)"
proof -
  have "valid_utf8 (concat (map (quote_rune printable) (rune_chunks s)))"
    using quote_rune_utf8 rune_chunks_ok by (intro valid_utf8_concat) auto
  then show ?thesis by (simp add: Quote_def valid_utf8_ascii_Cons valid_utf8_append)
qed

section \<open>Sequences with separators\<close>

text \<open>Read items up to the closing byte; between two items stands the separator.\<close>

function read_sequence ::
  "(string \<Rightarrow> ('i \<times> string) option) \<Rightarrow> byte \<Rightarrow> byte \<Rightarrow> string \<Rightarrow> ('i list \<times> string) option" where
  "read_sequence item sep close s =
     (case item s of
        Some (x, b # u) \<Rightarrow>
          if b = close then Some ([x], u)
          else if b = sep \<and> length u < length s
          then (case read_sequence item sep close u of None \<Rightarrow> None | Some (xs, v) \<Rightarrow> Some (x # xs, v))
          else None
      | _ \<Rightarrow> None)"
  by pat_completeness auto
termination
  by (relation "measure (\<lambda>(item, sep, close, s). length s)") auto

declare read_sequence.simps [simp del]

text \<open>What a written item owes to its reader: it is read to its end, before a separator and before the closing byte.\<close>

locale separated =
  fixes render :: "'a \<Rightarrow> string" and item :: "string \<Rightarrow> ('i \<times> string) option" and means :: "'a \<Rightarrow> 'i"
    and ok :: "'a \<Rightarrow> bool" and sep close :: byte
  assumes item_render: "ok x \<Longrightarrow> b = sep \<or> b = close \<Longrightarrow> item (render x @ b # t) = Some (means x, b # t)"
    and sep_close: "sep \<noteq> close"
begin

lemma read_written:
  "list_all ok (x # xs) \<Longrightarrow>
    read_sequence item sep close (join_with [sep] (map render (x # xs)) @ close # t) = Some (map means (x # xs), t)"
proof (induction xs arbitrary: x)
  case Nil
  then show ?case using item_render by (subst read_sequence.simps) simp
next
  case (Cons y ys)
  then show ?case using item_render sep_close by (subst read_sequence.simps) simp
qed

end

lemma join_with_bytes: "b \<in> set (join_with sep ps) \<Longrightarrow> b \<in> set sep \<or> (\<exists>p\<in>set ps. b \<in> set p)"
  by (induction sep ps rule: join_with.induct) auto

end
