(* ===== verification/Proxy_Reverse.thy ===== *)
theory Proxy_Reverse
  imports Proxy_Tier1 Go_Http Go_Format
begin

text \<open>
  \<open>internal/proxy/reverse.go\<close> and \<open>response.go\<close>: the reverse proxy and its director, the rewriting of
  Trino's protocol URLs in a response, and the rejection response.  Parsing a URL, parsing a media type
  and the transport are library calls: \<open>parse_url\<close>, \<open>media_type\<close> and \<open>transport\<close> are parameters; what
  \<open>httputil.ReverseProxy\<close> itself does to hop-by-hop headers belongs to \<open>transport\<close>.  A body is the bytes a
  reader yields and whether it then fails.
\<close>

section \<open>Requests and replies\<close>

record body_stream =
  stream_data :: string
  stream_broken :: bool

text \<open>A request on its way through the proxy, with the two values its context can carry.\<close>

record ProxyRequest =
  r_Method :: string
  r_Path :: string
  r_Scheme :: string
  r_URLHost :: string
  r_Host :: string
  r_Header :: Header
  r_Body :: body_stream
  r_ContentLength :: int
  ctx_clientHost :: "string option"
  ctx_requestID :: "string option"

datatype rejection_message = Tier1Message tier1_message | CostMessage limit_reason

record rejectionResponse =
  rr_ErrorCode :: string
  rr_Reason :: RejectionReason
  rr_Message :: rejection_message
  rr_RequestID :: string

datatype payload = Bytes body_stream | RejectionBody rejectionResponse | MetricsText

record Reply =
  reply_Status :: nat
  reply_Header :: Header
  reply_Body :: payload

definition errorCodeLimitBreach :: string where
  "errorCodeLimitBreach = ''QUERY_GUARD_LIMIT_BREACH''"

definition WriteRejection :: "nat \<Rightarrow> RejectionReason \<Rightarrow> rejection_message \<Rightarrow> string \<Rightarrow> Reply" where
  "WriteRejection status reason message requestID =
     \<lparr>reply_Status = status, reply_Header = header_Set ''Content-Type'' ''application/json'' [],
      reply_Body = RejectionBody \<lparr>rr_ErrorCode = errorCodeLimitBreach, rr_Reason = reason,
        rr_Message = message, rr_RequestID = requestID\<rparr>\<rparr>"

section \<open>The director\<close>

record Target =
  t_Scheme :: string
  t_Host :: string

datatype proxy_error = InvalidUpstream | UpstreamWithoutHost

definition newReverseProxy :: "(string \<Rightarrow> Target option) \<Rightarrow> string \<Rightarrow> (proxy_error, Target) go_result" where
  "newReverseProxy parse_url upstreamURL =
     (case parse_url upstreamURL of
        None \<Rightarrow> Inl InvalidUpstream
      | Some target \<Rightarrow>
          if t_Scheme target = [] \<or> t_Host target = [] then Inl UpstreamWithoutHost else Inr target)"

definition Director :: "Target \<Rightarrow> ProxyRequest \<Rightarrow> ProxyRequest" where
  "Director target req = req
     \<lparr>ctx_clientHost := Some (r_Host req), r_Scheme := t_Scheme target, r_URLHost := t_Host target,
      r_Host := t_Host target,
      r_Header := header_put ''Accept-Encoding'' [] (header_put ''X-Forwarded-For'' [] (r_Header req))\<rparr>"

section \<open>Rewriting protocol URLs\<close>

definition is_ws :: "byte \<Rightarrow> bool" where
  "is_ws c \<longleftrightarrow> byte_val c \<in> {9, 10, 12, 13, 32}"

text \<open>Strip a literal prefix.\<close>

definition strip_prefix :: "string \<Rightarrow> string \<Rightarrow> string option" where
  "strip_prefix pre s = (if HasPrefix s pre then Some (drop (length pre) s) else None)"

fun strip_one_of :: "string list \<Rightarrow> string \<Rightarrow> (string \<times> string) option" where
  "strip_one_of [] s = None"
| "strip_one_of (p # ps) s = (case strip_prefix p s of Some r \<Rightarrow> Some (p, r) | None \<Rightarrow> strip_one_of ps s)"

text \<open>
  One URL field: its name, the blanks behind the colon, the scheme, the authority and the path.
  \<open>match_field\<close> matches the regular expression at the start of a string and returns the rest.
\<close>

record uri_field =
  f_name :: string
  f_blanks :: string
  f_scheme :: string
  f_authority :: string
  f_path :: string

definition uri_names :: "string list" where
  "uri_names = [''infoUri'', ''nextUri'', ''partialCancelUri'']"

definition uri_schemes :: "string list" where
  "uri_schemes = [''https://'', ''http://'']"

definition match_name :: "string \<Rightarrow> (string \<times> string \<times> string) option" where
  "match_name s =
     (case strip_prefix [dquote] s of None \<Rightarrow> None | Some s1 \<Rightarrow>
      case strip_one_of uri_names s1 of None \<Rightarrow> None | Some (name, s2) \<Rightarrow>
      case strip_prefix (dquote # '':'') s2 of None \<Rightarrow> None | Some s3 \<Rightarrow>
      case strip_prefix [dquote] (dropWhile is_ws s3) of None \<Rightarrow> None | Some s4 \<Rightarrow>
      Some (name, takeWhile is_ws s3, s4))"

definition authority_byte :: "byte \<Rightarrow> bool" where
  "authority_byte c \<longleftrightarrow> c \<noteq> CHR ''/'' \<and> c \<noteq> dquote"

definition match_url :: "string \<Rightarrow> (string \<times> string \<times> string \<times> string) option" where
  "match_url s =
     (case strip_one_of uri_schemes s of None \<Rightarrow> None | Some (scheme, s1) \<Rightarrow>
      let s2 = dropWhile authority_byte s1;
          path = takeWhile (\<lambda>c. c \<noteq> dquote) s2
      in if path = [] then None
         else case strip_prefix [dquote] (dropWhile (\<lambda>c. c \<noteq> dquote) s2) of None \<Rightarrow> None | Some rest \<Rightarrow>
           Some (scheme, takeWhile authority_byte s1, path, rest))"

definition match_field :: "string \<Rightarrow> (uri_field \<times> string) option" where
  "match_field s =
     (case match_name s of None \<Rightarrow> None | Some (name, blanks, s1) \<Rightarrow>
      case match_url s1 of None \<Rightarrow> None | Some (scheme, authority, path, rest) \<Rightarrow>
      Some (\<lparr>f_name = name, f_blanks = blanks, f_scheme = scheme, f_authority = authority, f_path = path\<rparr>, rest))"

definition render_field :: "uri_field \<Rightarrow> string" where
  "render_field f = dquote # f_name f @ dquote # '':'' @ f_blanks f @ dquote # f_scheme f @
     f_authority f @ f_path f @ [dquote]"

text \<open>What replaces a field: one blank, the client's host.\<close>

definition redirect :: "string \<Rightarrow> uri_field \<Rightarrow> uri_field" where
  "redirect clientHost f = f\<lparr>f_blanks := '' '', f_authority := clientHost\<rparr>"

lemma strip_prefix_Some: "strip_prefix p s = Some r \<longleftrightarrow> s = p @ r"
  by (auto simp: strip_prefix_def HasPrefix_iff)

lemma strip_one_of_Some: "strip_one_of ps s = Some (p, r) \<Longrightarrow> p \<in> set ps \<and> s = p @ r"
  by (induction ps) (auto simp: strip_prefix_Some split: option.splits)

text \<open>A match is a rendering of its field, well formed, in front of the rest.\<close>

definition field_ok :: "uri_field \<Rightarrow> bool" where
  "field_ok f \<longleftrightarrow> f_name f \<in> set uri_names \<and> list_all is_ws (f_blanks f) \<and>
     f_scheme f \<in> set uri_schemes \<and> list_all authority_byte (f_authority f) \<and>
     dquote \<notin> set (f_path f) \<and> (\<exists>p. f_path f = CHR ''/'' # p)"

lemma list_all_takeWhile: "list_all P (takeWhile P xs)"
  by (auto simp: list_all_iff dest: set_takeWhileD)

lemma case_option_Some:
  "(case x of None \<Rightarrow> None | Some y \<Rightarrow> f y) = Some z \<longleftrightarrow> (\<exists>y. x = Some y \<and> f y = Some z)"
  by (cases x) simp_all

lemma takeWhile_append_rest: "dropWhile P xs = ys \<Longrightarrow> xs = takeWhile P xs @ ys"
  by auto

lemma match_name_Some:
  assumes "match_name s = Some (name, blanks, rest)"
  shows "s = dquote # name @ dquote # CHR '':'' # blanks @ dquote # rest \<and> name \<in> set uri_names \<and> list_all is_ws blanks"
proof -
  from assms obtain s1 np s3 where 1: "strip_prefix [dquote] s = Some s1" "strip_one_of uri_names s1 = Some np"
    "strip_prefix (dquote # '':'') (snd np) = Some s3" "strip_prefix [dquote] (dropWhile is_ws s3) = Some rest"
    "name = fst np" "blanks = takeWhile is_ws s3"
    unfolding match_name_def case_option_Some case_prod_unfold by blast
  have "s1 = name @ snd np" and "name \<in> set uri_names"
    using strip_one_of_Some [of uri_names s1 "fst np" "snd np"] 1(2,5) by simp_all
  moreover have "s3 = blanks @ dquote # rest"
    using 1(4,6) by (auto simp: strip_prefix_Some dest: takeWhile_append_rest)
  ultimately show ?thesis using 1(1,3,6) by (simp add: strip_prefix_Some list_all_takeWhile)
qed

lemma match_url_Some:
  assumes "match_url s = Some (scheme, authority, path, rest)"
  shows "s = scheme @ authority @ path @ dquote # rest \<and> scheme \<in> set uri_schemes \<and>
    list_all authority_byte authority \<and> dquote \<notin> set path \<and> (\<exists>p. path = CHR ''/'' # p)"
proof -
  from assms obtain sp where sp: "strip_one_of uri_schemes s = Some sp"
    and path: "path = takeWhile (\<lambda>c. c \<noteq> dquote) (dropWhile authority_byte (snd sp))" "path \<noteq> []"
    and rest: "strip_prefix [dquote] (dropWhile (\<lambda>c. c \<noteq> dquote) (dropWhile authority_byte (snd sp))) = Some rest"
    and auth: "scheme = fst sp" "authority = takeWhile authority_byte (snd sp)"
    unfolding match_url_def Let_def case_option_Some case_prod_unfold by (auto split: if_splits simp: case_option_Some)
  have tail: "dropWhile authority_byte (snd sp) = path @ dquote # rest"
    using path(1) rest takeWhile_append_rest [of "\<lambda>c. c \<noteq> dquote" "dropWhile authority_byte (snd sp)" "dquote # rest"]
    by (simp add: strip_prefix_Some)
  obtain c p where c: "path = c # p" using path(2) by (cases path) auto
  have quote: "dquote \<notin> set path" unfolding path(1) by (auto dest: set_takeWhileD)
  have "\<not> authority_byte c" using tail c hd_dropWhile [of authority_byte "snd sp"] by simp
  then have "c = CHR ''/''" using quote c by (auto simp: authority_byte_def)
  moreover have "snd sp = authority @ path @ dquote # rest"
    using takeWhile_append_rest [OF tail] auth(2) by simp
  moreover have "s = scheme @ snd sp \<and> scheme \<in> set uri_schemes"
    using strip_one_of_Some [of uri_schemes s "fst sp" "snd sp"] sp auth(1) by simp
  ultimately show ?thesis using c quote auth(2) by (simp add: list_all_takeWhile)
qed

lemma match_field_render:
  assumes "match_field s = Some (f, rest)"
  shows "s = render_field f @ rest \<and> field_ok f"
proof -
  from assms obtain n u where "match_name s = Some n" and "match_url (snd (snd n)) = Some u"
    and f: "f = \<lparr>f_name = fst n, f_blanks = fst (snd n), f_scheme = fst u, f_authority = fst (snd u),
      f_path = fst (snd (snd u))\<rparr>" "rest = snd (snd (snd u))"
    unfolding match_field_def case_option_Some case_prod_unfold by blast
  then show ?thesis
    using match_name_Some [of s "fst n" "fst (snd n)" "snd (snd n)"]
      match_url_Some [of "snd (snd n)" "fst u" "fst (snd u)" "fst (snd (snd u))" "snd (snd (snd u))"]
    by (simp add: render_field_def field_ok_def)
qed

lemma match_field_shorter: "match_field s = Some (f, rest) \<Longrightarrow> length rest < length s"
  by (auto dest!: match_field_render simp: render_field_def)

function rewritePrefix :: "string \<Rightarrow> string \<Rightarrow> string" where
  "rewritePrefix [] clientHost = []"
| "rewritePrefix (c # s) clientHost =
     (case match_field (c # s) of
        Some (f, rest) \<Rightarrow> render_field (redirect clientHost f) @ rewritePrefix rest clientHost
      | None \<Rightarrow> c # rewritePrefix s clientHost)"
  by pat_completeness auto

termination rewritePrefix
  by (relation "measure (\<lambda>(s, h). length s)") (auto dest: match_field_shorter)

declare rewritePrefix.simps(2) [simp del]

section \<open>Rewriting a response\<close>

record ProxyResponse =
  p_Status :: nat
  p_Header :: Header
  p_Body :: body_stream

definition rewritePrefixBytes :: nat where
  "rewritePrefixBytes = 65536"

text \<open>\<open>req\<close> is the outbound request the response belongs to; an error makes the proxy answer 502.\<close>

definition rewriteTrinoURIs ::
  "(string \<Rightarrow> string) \<Rightarrow> ProxyRequest option \<Rightarrow> ProxyResponse \<Rightarrow> ProxyResponse option" where
  "rewriteTrinoURIs media_type req resp =
     (case req of None \<Rightarrow> Some resp | Some r \<Rightarrow>
        let clientHost = (case ctx_clientHost r of None \<Rightarrow> [] | Some h \<Rightarrow> h)
        in if clientHost = [] then Some resp
           else if media_type (header_Get (p_Header resp) ''Content-Type'') \<noteq> ''application/json'' then Some resp
           else let data = stream_data (p_Body resp); head = take rewritePrefixBytes data
             in if length head < rewritePrefixBytes \<and> stream_broken (p_Body resp) then None
                else let rewritten = rewritePrefix head clientHost;
                         body = \<lparr>stream_data = rewritten @ drop rewritePrefixBytes data,
                                 stream_broken = stream_broken (p_Body resp)\<rparr>
                  in Some (resp\<lparr>p_Body := body, p_Header :=
                       (if length head < rewritePrefixBytes
                        then header_Set ''Content-Length'' (decimal (length rewritten)) (p_Header resp)
                        else header_Del ''Transfer-Encoding'' (header_Del ''Content-Length'' (p_Header resp)))\<rparr>))"

text \<open>
  The reverse proxy: direct the request, send it, rewrite the response; \<open>httputil.ReverseProxy\<close> answers
  502 when the transport or the rewriting fails.
\<close>

definition proxy_serve ::
  "(string \<Rightarrow> string) \<Rightarrow> (ProxyRequest \<Rightarrow> 'w \<Rightarrow> ProxyResponse option \<times> 'w) \<Rightarrow> Target \<Rightarrow> ProxyRequest \<Rightarrow> 'w
     \<Rightarrow> Reply \<times> 'w" where
  "proxy_serve media_type transport target req w =
     (let out = Director target req;
          bad_gateway = \<lparr>reply_Status = 502, reply_Header = [],
            reply_Body = Bytes \<lparr>stream_data = [], stream_broken = False\<rparr>\<rparr>
      in case transport out w of
           (None, w') \<Rightarrow> (bad_gateway, w')
         | (Some resp, w') \<Rightarrow>
             (case rewriteTrinoURIs media_type (Some out) resp of
                None \<Rightarrow> bad_gateway
              | Some resp' \<Rightarrow> \<lparr>reply_Status = p_Status resp', reply_Header = p_Header resp',
                  reply_Body = Bytes (p_Body resp')\<rparr>, w'))"

section \<open>The rewriting, segment by segment\<close>

text \<open>
  A body is a sequence of plain bytes and URL fields; rewriting redirects the fields and copies the rest.
\<close>

datatype segment = Plain byte | Field uri_field

function segments :: "string \<Rightarrow> segment list" where
  "segments [] = []"
| "segments (c # s) =
     (case match_field (c # s) of
        Some (f, rest) \<Rightarrow> Field f # segments rest | None \<Rightarrow> Plain c # segments s)"
  by pat_completeness auto

termination segments
  by (relation "measure length") (auto dest: match_field_shorter)

declare segments.simps(2) [simp del]

fun render_segment :: "segment \<Rightarrow> string" where
  "render_segment (Plain c) = [c]"
| "render_segment (Field f) = render_field f"

fun redirect_segment :: "string \<Rightarrow> segment \<Rightarrow> segment" where
  "redirect_segment clientHost (Plain c) = Plain c"
| "redirect_segment clientHost (Field f) = Field (redirect clientHost f)"

definition render :: "segment list \<Rightarrow> string" where
  "render ss = concat (map render_segment ss)"

lemma render_simps [simp]: "render [] = []" "render (x # ss) = render_segment x @ render ss"
  by (simp_all add: render_def)

lemma render_segments: "render (segments s) = s"
proof (induction s rule: segments.induct)
  case (2 c s)
  show ?case
  proof (cases "match_field (c # s)")
    case None
    with 2 show ?thesis by (simp add: segments.simps)
  next
    case (Some fr)
    then obtain f rest where f: "match_field (c # s) = Some (f, rest)" by (cases fr) auto
    then have "render (segments (c # s)) = render_field f @ rest" using 2 by (simp add: segments.simps)
    then show ?thesis using match_field_render [OF f] by simp
  qed
qed simp

lemma segments_ok: "Field f \<in> set (segments s) \<Longrightarrow> field_ok f"
  by (induction s rule: segments.induct)
    (auto simp: segments.simps dest: match_field_render split: option.splits)

lemma rewrite_segments: "rewritePrefix s h = render (map (redirect_segment h) (segments s))"
  by (induction s h rule: rewritePrefix.induct)
    (auto simp: rewritePrefix.simps segments.simps split: option.splits)

section \<open>What rewriting a body means\<close>

text \<open>
  A specification that mentions neither the matcher nor the replacement: a URL field is the text
  \<open>"name":blanks"scheme://authority/path"\<close>, and a body is rewritten from the left, a field at the
  head of it becoming \<open>"name":blanks'"scheme://host/path"\<close>, any byte at which no field begins being copied.
  \<open>keeps blanks blanks'\<close> says which white space may stand behind the colon of the rewritten field.
\<close>

definition url_field :: "string \<Rightarrow> string \<Rightarrow> string \<Rightarrow> string \<Rightarrow> string \<Rightarrow> string" where
  "url_field name blanks scheme authority path =
     [dquote] @ name @ [dquote] @ '':'' @ blanks @ [dquote] @ scheme @ ''://'' @ authority @ path @ [dquote]"

definition white_space :: "string \<Rightarrow> bool" where
  "white_space b \<longleftrightarrow> set b \<subseteq> {CHR '' '', CHR 0x09, CHR 0x0A, CHR 0x0C, CHR 0x0D}"

definition is_url_field :: "string \<Rightarrow> string \<Rightarrow> string \<Rightarrow> string \<Rightarrow> string \<Rightarrow> bool" where
  "is_url_field name blanks scheme authority path \<longleftrightarrow>
     name \<in> {''infoUri'', ''nextUri'', ''partialCancelUri''} \<and>
     white_space blanks \<and> scheme \<in> {''http'', ''https''} \<and> CHR ''/'' \<notin> set authority \<and> dquote \<notin> set authority \<and>
     path \<noteq> [] \<and> hd path = CHR ''/'' \<and> dquote \<notin> set path"

definition field_at_head :: "string \<Rightarrow> bool" where
  "field_at_head s \<longleftrightarrow> (\<exists>n b sc a p r. is_url_field n b sc a p \<and> s = url_field n b sc a p @ r)"

inductive rewritten :: "(string \<Rightarrow> string \<Rightarrow> bool) \<Rightarrow> string \<Rightarrow> string \<Rightarrow> string \<Rightarrow> bool" for keeps host where
  rewritten_end: "rewritten keeps host [] []"
| rewritten_field: "rewritten keeps host (url_field n b sc a p @ s) (url_field n b' sc host p @ t)"
    if "is_url_field n b sc a p" and "keeps b b'" and "rewritten keeps host s t"
| rewritten_copy: "rewritten keeps host (c # s) (c # t)"
    if "\<not> field_at_head (c # s)" and "rewritten keeps host s t"

lemma rewritten_weaken:
  "rewritten keeps host s t \<Longrightarrow> (\<And>b b'. keeps b b' \<Longrightarrow> keeps' b b') \<Longrightarrow> rewritten keeps' host s t"
  by (induction rule: rewritten.induct) (auto intro: rewritten.intros)

text \<open>The matcher recognises exactly these fields.\<close>

lemma is_ws_set: "is_ws c \<longleftrightarrow> c \<in> {CHR '' '', CHR 0x09, CHR 0x0A, CHR 0x0C, CHR 0x0D}"
proof -
  have "\<And>d. byte_val c = byte_val d \<longleftrightarrow> c = d" by simp
  from this [of "CHR '' ''"] this [of "CHR 0x09"] this [of "CHR 0x0A"] this [of "CHR 0x0C"] this [of "CHR 0x0D"]
  show ?thesis unfolding is_ws_def by auto
qed

lemma strip_prefix_simps:
  "strip_prefix [] s = Some s"
  "strip_prefix (x # p) (y # s) = (if x = y then strip_prefix p s else None)"
  by (auto simp: strip_prefix_def HasPrefix_iff)

lemma match_field_complete:
  assumes "is_url_field n b sc a p"
  shows "match_field (url_field n b sc a p @ r) =
    Some (\<lparr>f_name = n, f_blanks = b, f_scheme = sc @ ''://'', f_authority = a, f_path = p\<rparr>, r)"
proof -
  have ws: "\<forall>c\<in>set b. is_ws c" using assms by (auto simp: is_url_field_def white_space_def is_ws_set)
  have wq: "\<not> is_ws dquote" by (simp add: is_ws_set)
  have auth: "\<forall>c\<in>set a. authority_byte c" using assms by (auto simp: is_url_field_def authority_byte_def)
  obtain q where p: "p = CHR ''/'' # q" using assms by (cases p) (auto simp: is_url_field_def)
  have pq: "\<forall>c\<in>set p. c \<noteq> dquote" using assms by (auto simp: is_url_field_def)
  let ?s = "sc @ ''://'' @ a @ p @ dquote # r"
  have name: "match_name (url_field n b sc a p @ r) = Some (n, b, ?s)"
    using assms takeWhile_append_stop [OF ws wq, of ?s] dropWhile_append_stop [OF ws wq, of ?s]
    by (auto simp: is_url_field_def url_field_def match_name_def uri_names_def strip_prefix_simps)
  have stop: "\<not> authority_byte (CHR ''/'')" by (simp add: authority_byte_def)
  have tw: "takeWhile authority_byte (a @ p @ dquote # r) = a" "dropWhile authority_byte (a @ p @ dquote # r) = p @ dquote # r"
    using takeWhile_append_stop [OF auth stop, of "q @ dquote # r"]
      dropWhile_append_stop [OF auth stop, of "q @ dquote # r"] by (simp_all add: p)
  have tp: "takeWhile (\<lambda>c. c \<noteq> dquote) (p @ dquote # r) = p" "dropWhile (\<lambda>c. c \<noteq> dquote) (p @ dquote # r) = dquote # r"
    using takeWhile_append_stop [OF pq, of dquote r] dropWhile_append_stop [OF pq, of dquote r] by simp_all
  have "strip_one_of uri_schemes ?s = Some (sc @ ''://'', a @ p @ dquote # r)"
    using assms by (auto simp: is_url_field_def uri_schemes_def strip_prefix_simps)
  then have "match_url ?s = Some (sc @ ''://'', a, p, r)"
    by (simp only: match_url_def option.case prod.case Let_def tw tp) (simp add: p strip_prefix_simps)
  with name show ?thesis by (simp add: match_field_def)
qed

lemma match_field_url:
  assumes "match_field s = Some (f, r)"
  obtains sc where "is_url_field (f_name f) (f_blanks f) sc (f_authority f) (f_path f)"
    and "s = url_field (f_name f) (f_blanks f) sc (f_authority f) (f_path f) @ r" and "f_scheme f = sc @ ''://''"
proof -
  have s: "s = render_field f @ r" and ok: "field_ok f" using match_field_render [OF assms] by auto
  from ok obtain sc where sc: "f_scheme f = sc @ ''://''" "sc \<in> {''http'', ''https''}"
    by (auto simp: field_ok_def uri_schemes_def)
  have "is_url_field (f_name f) (f_blanks f) sc (f_authority f) (f_path f)"
    using ok sc(2) unfolding field_ok_def is_url_field_def white_space_def uri_names_def list_all_iff is_ws_set authority_byte_def
    by (elim conjE exE; intro conjI; fastforce)
  then show ?thesis using s sc(1) by (intro that) (auto simp: render_field_def url_field_def)
qed

lemma field_at_head_match: "field_at_head s \<longleftrightarrow> match_field s \<noteq> None"
proof
  assume "match_field s \<noteq> None"
  then obtain f r where "match_field s = Some (f, r)" by auto
  then show "field_at_head s" unfolding field_at_head_def by (blast elim: match_field_url)
qed (auto simp: field_at_head_def match_field_complete)

lemma rewritePrefix_field:
  assumes "is_url_field n b sc a p"
  shows "rewritePrefix (url_field n b sc a p @ s) host = url_field n '' '' sc host p @ rewritePrefix s host"
proof -
  obtain c u where c: "url_field n b sc a p @ s = c # u" by (simp add: url_field_def)
  from match_field_complete [OF assms, of s, unfolded c] show ?thesis
    by (simp add: c rewritePrefix.simps(2)) (simp add: render_field_def redirect_def url_field_def)
qed

lemma rewritePrefix_copy:
  "\<not> field_at_head (c # s) \<Longrightarrow> rewritePrefix (c # s) host = c # rewritePrefix s host"
  by (cases "match_field (c # s)") (auto simp: rewritePrefix.simps(2) field_at_head_match)

lemma rewritten_total: "rewritten (\<lambda>b b'. b' = '' '') host s (rewritePrefix s host)"
proof (induction s host rule: rewritePrefix.induct)
  case (2 c s host)
  note IH = 2
  show ?case
  proof (cases "match_field (c # s)")
    case None
    then have "\<not> field_at_head (c # s)" by (simp add: field_at_head_match)
    then show ?thesis using IH(1) [OF None] by (simp add: rewritePrefix_copy rewritten_copy)
  next
    case (Some fr)
    then obtain f r where f: "match_field (c # s) = Some (f, r)" by (cases fr) auto
    from match_field_url [OF this] obtain sc where
      ok: "is_url_field (f_name f) (f_blanks f) sc (f_authority f) (f_path f)"
      and s: "c # s = url_field (f_name f) (f_blanks f) sc (f_authority f) (f_path f) @ r" by metis
    show ?thesis unfolding s rewritePrefix_field [OF ok] by (rule rewritten_field [OF ok refl IH(2) [OF f refl]])
  qed
qed (simp add: rewritten_end)

section \<open>Properties\<close>

text \<open>The code implements one instance of it exactly: one space behind each rewritten colon.\<close>

lemma rewritePrefix_exact: "rewritten (\<lambda>b b'. b' = '' '') host s t \<longleftrightarrow> t = rewritePrefix s host"
proof
  assume "rewritten (\<lambda>b b'. b' = '' '') host s t"
  then show "t = rewritePrefix s host"
    by induction (simp_all add: rewritePrefix_field rewritePrefix_copy)
qed (simp add: rewritten_total)

text \<open>C40. In the part of a body that is rewritten (its first 64 KiB) every protocol URL is redirected to the
  client's host and nothing else changes: from the left, each field \<open>"name":blanks"scheme://authority/path"\<close> (name
  \<open>infoUri\<close>, \<open>nextUri\<close> or \<open>partialCancelUri\<close>, scheme \<open>http\<close> or \<open>https\<close>, an authority without slash or quote, a path
  without quote) comes out with the same name, scheme and path, the client's host for authority and only white
  space behind its colon, and every byte at which no such field begins is copied.\<close>

theorem rewritePrefix_redirects:
  "rewritten (\<lambda>_ b'. white_space b') host s (rewritePrefix s host)"
  using rewritten_total by (rule rewritten_weaken) (simp add: white_space_def)

text \<open>The body is a sequence of plain bytes and well-formed fields; rewriting maps the fields.\<close>

lemma rewritePrefix_fields:
  "rewritePrefix s h = render (map (redirect_segment h) (segments s)) \<and> render (segments s) = s \<and>
   list_all (case_segment (\<lambda>c. True) field_ok) (segments s)"
  using segments_ok [of _ s] by (auto simp: rewrite_segments render_segments list_all_iff split: segment.split)

text \<open>A body without a matching field comes out unchanged.\<close>

lemma rewritePrefix_plain: "\<forall>f. Field f \<notin> set (segments s) \<Longrightarrow> rewritePrefix s h = s"
proof -
  assume "\<forall>f. Field f \<notin> set (segments s)"
  then have "map (redirect_segment h) (segments s) = segments s"
    by (intro map_idI) (metis redirect_segment.elims)
  then show ?thesis by (simp add: rewrite_segments render_segments)
qed

text \<open>The response keeps its framing: a rewritten page shorter than the prefix announces exactly the length
  of its new body, a longer page announces none and its bytes behind the prefix are streamed unchanged.\<close>

lemma rewriteTrinoURIs_framing:
  assumes "rewriteTrinoURIs media_type (Some r) resp = Some resp'"
    and "ctx_clientHost r = Some h" and "h \<noteq> []"
    and "media_type (header_Get (p_Header resp) ''Content-Type'') = ''application/json''"
  shows "p_Status resp' = p_Status resp \<and>
    stream_data (p_Body resp') = rewritePrefix (take rewritePrefixBytes (stream_data (p_Body resp))) h
      @ drop rewritePrefixBytes (stream_data (p_Body resp)) \<and>
    header_values (p_Header resp') (CanonicalHeaderKey ''Content-Length'') =
      (if length (stream_data (p_Body resp)) < rewritePrefixBytes
       then [decimal (length (stream_data (p_Body resp')))] else [])"
  using assms
  by (auto simp: rewriteTrinoURIs_def Let_def header_values_Set header_values_Del min_def split: if_splits)

lemma rewriteTrinoURIs_framing_witness:
  "\<exists>resp'. rewriteTrinoURIs (\<lambda>_. ''application/json'')
      (Some \<lparr>r_Method = ''GET'', r_Path = ''/v1/statement/x'', r_Scheme = ''http'', r_URLHost = ''trino'',
         r_Host = ''trino'', r_Header = [], r_Body = \<lparr>stream_data = [], stream_broken = False\<rparr>,
         r_ContentLength = 0, ctx_clientHost = Some ''qg:8080'', ctx_requestID = None\<rparr>)
      \<lparr>p_Status = 200, p_Header = [], p_Body = \<lparr>stream_data = ''{}'', stream_broken = False\<rparr>\<rparr> = Some resp' \<and>
    p_Status resp' = 200"
proof -
  let ?r = "\<lparr>r_Method = ''GET'', r_Path = ''/v1/statement/x'', r_Scheme = ''http'', r_URLHost = ''trino'',
         r_Host = ''trino'', r_Header = [], r_Body = \<lparr>stream_data = [], stream_broken = False\<rparr>,
         r_ContentLength = 0, ctx_clientHost = Some ''qg:8080'', ctx_requestID = None\<rparr>"
  let ?resp = "\<lparr>p_Status = 200, p_Header = [], p_Body = \<lparr>stream_data = ''{}'', stream_broken = False\<rparr>\<rparr>"
  obtain resp' where run: "rewriteTrinoURIs (\<lambda>_. ''application/json'') (Some ?r) ?resp = Some resp'"
    by (simp add: rewriteTrinoURIs_def Let_def rewritePrefixBytes_def)
  with rewriteTrinoURIs_framing [OF run, of "''qg:8080''"] show ?thesis by simp
qed

text \<open>The director redirects a request and otherwise leaves it alone: method, path, body and every header
  but \<open>X-Forwarded-For\<close> and \<open>Accept-Encoding\<close> are the client's, the authority is the upstream's, and the
  host the client used is remembered.\<close>

lemma Director_transparent:
  "r_Method (Director t r) = r_Method r \<and> r_Path (Director t r) = r_Path r \<and> r_Body (Director t r) = r_Body r \<and>
   r_Scheme (Director t r) = t_Scheme t \<and> r_URLHost (Director t r) = t_Host t \<and> r_Host (Director t r) = t_Host t \<and>
   ctx_clientHost (Director t r) = Some (r_Host r) \<and>
   header_values (r_Header (Director t r)) k =
     (if k \<in> {''X-Forwarded-For'', ''Accept-Encoding''} then [] else header_values (r_Header r) k)"
  by (simp add: Director_def header_values_put)

text \<open>The client's request \<open>r\<close> as the upstream is given it.\<close>

definition relayed :: "Target \<Rightarrow> ProxyRequest \<Rightarrow> ProxyRequest \<Rightarrow> bool" where
  "relayed target r q \<longleftrightarrow> r_Method q = r_Method r \<and> r_Path q = r_Path r \<and>
     stream_data (r_Body q) = stream_data (r_Body r) \<and>
     r_Scheme q = t_Scheme target \<and> r_URLHost q = t_Host target \<and> r_Host q = t_Host target \<and>
     (\<forall>k. header_values (r_Header q) k =
       (if k \<in> {''X-Forwarded-For'', ''Accept-Encoding''} then [] else header_values (r_Header r) k))"

lemma Director_relays:
  "r_Method r' = r_Method r \<Longrightarrow> r_Path r' = r_Path r \<Longrightarrow> r_Header r' = r_Header r \<Longrightarrow>
     stream_data (r_Body r') = stream_data (r_Body r) \<Longrightarrow> relayed t r (Director t r')"
  using Director_transparent [of t r'] by (simp add: relayed_def)

text \<open>What the client gets back for it: the upstream's answer, rewritten, or 502.\<close>

definition relayed_reply :: "(string \<Rightarrow> string) \<Rightarrow> ProxyRequest \<Rightarrow> ProxyResponse option \<Rightarrow> Reply \<Rightarrow> bool" where
  "relayed_reply media_type q answer reply \<longleftrightarrow>
     (case answer of
        None \<Rightarrow> reply_Status reply = 502
      | Some resp \<Rightarrow> (case rewriteTrinoURIs media_type (Some q) resp of
          None \<Rightarrow> reply_Status reply = 502
        | Some resp' \<Rightarrow> reply_Status reply = p_Status resp' \<and> reply_Header reply = p_Header resp' \<and>
            reply_Body reply = Bytes (p_Body resp')))"

lemma proxy_serve_relays:
  assumes "proxy_serve media_type transport t r' w = (reply, w')"
  shows "\<exists>answer. transport (Director t r') w = (answer, w') \<and> relayed_reply media_type (Director t r') answer reply"
proof (cases "transport (Director t r') w")
  case (Pair answer w1)
  then show ?thesis
    using assms by (auto simp: proxy_serve_def relayed_reply_def Let_def split: option.splits)
qed

text \<open>
  A rewritten field keeps the scheme the upstream gave it.  Behind a TLS listener an \<open>http\<close> upstream thus
  hands out plain \<open>http\<close> URLs for the client's host, on which nothing listens.  And the field is not
  byte-identical apart from the URL: a blank appears behind the colon.
\<close>

lemma rewritten_scheme: "f_scheme (redirect h f) = f_scheme f"
  by (simp add: redirect_def)

lemma rewritten_blank: "f_blanks (redirect h f) = '' ''"
  by (simp add: redirect_def)

end
