(* ===== verification/Engine_Plan.thy ===== *)
theory Engine_Plan
  imports Engine_Limits "HOL-Library.Multiset"
begin

text \<open>
  The plan parsing of \<open>internal/engine/trino.go\<close>: estimates from Trino's I/O plan, or from an operator tree
  walked as a fallback.  Decoding JSON is the standard library's; the five shapes the code decodes a
  document into are the fields of the record \<open>Json\<close>, an argument of the parsing functions.  The decoded
  values, the walk over them, the regular expressions and the integer parsing are modelled.  A Go map is
  ranged over in no fixed order: an object is the list of its entries in the order of one range, and
  \<open>flatten\<close>, the order in which the table scans are read out, is a parameter as well.
\<close>

section \<open>Decoded documents\<close>

datatype JSON =
    JNull | JBool bool | JNumber float64 | JString string
  | JArray "JSON list" | JObject "(string \<times> JSON) list"

record trinoEstimate =
  OutputRowCount :: float64
  OutputSizeInBytes :: float64
  est_CPUCost :: float64

record trinoTableColumnInfo =
  info_Catalog :: string
  info_Schema :: string
  info_Table :: string
  info_Estimate :: trinoEstimate

record trinoIOPlan =
  InputTableColumnInfos :: "trinoTableColumnInfo list"
  io_Estimate :: trinoEstimate

text \<open>\<open>json.Unmarshal\<close> into: the I/O plan; a list of raw messages; one raw message; a struct with the raw
  message \<open>queryPlan\<close> (empty when absent); any value.\<close>

record Json =
  unmarshal_io :: "string \<Rightarrow> trinoIOPlan option"
  unmarshal_list :: "string \<Rightarrow> string list option"
  unmarshal_raw :: "string \<Rightarrow> string option"
  unmarshal_plan :: "string \<Rightarrow> string option"
  unmarshal_any :: "string \<Rightarrow> JSON option"

section \<open>The aggregate\<close>

record planAggregate =
  agg_scanBytes :: int64
  agg_rows :: int64
  agg_cpuCost :: float64
  agg_scans :: "TableScan list"

definition empty_aggregate :: planAggregate where
  "empty_aggregate = \<lparr>agg_scanBytes = 0, agg_rows = 0, agg_cpuCost = float_zero, agg_scans = []\<rparr>"

fun add_scan :: "string \<Rightarrow> int64 \<Rightarrow> int64 \<Rightarrow> TableScan list \<Rightarrow> TableScan list" where
  "add_scan name sb r [] = [\<lparr>scan_Table = name, ScanBytes = sb, Rows = r\<rparr>]"
| "add_scan name sb r (s # ss) =
     (if scan_Table s = name then s\<lparr>ScanBytes := ScanBytes s + sb, Rows := Rows s + r\<rparr> # ss
      else s # add_scan name sb r ss)"

section \<open>The I/O plan\<close>

definition qualifiedTable :: "string \<Rightarrow> string \<Rightarrow> string \<Rightarrow> string" where
  "qualifiedTable catalog schema table =
     join_with ''.'' (filter (\<lambda>p. p \<noteq> []) [catalog, schema, table])"

definition info_name :: "trinoTableColumnInfo \<Rightarrow> string" where
  "info_name info = qualifiedTable (info_Catalog info) (info_Schema info) (info_Table info)"

definition add_info :: "trinoTableColumnInfo \<Rightarrow> planAggregate \<Rightarrow> planAggregate" where
  "add_info info agg =
     (let sb = int64_of_float (OutputSizeInBytes (info_Estimate info));
          rows = int64_of_float (OutputRowCount (info_Estimate info))
      in agg\<lparr>agg_scanBytes := agg_scanBytes agg + sb, agg_rows := agg_rows agg + rows,
             agg_scans := add_scan (info_name info) sb rows (agg_scans agg)\<rparr>)"

section \<open>The operator tree\<close>

definition is_digit :: "byte \<Rightarrow> bool" where
  "is_digit c \<longleftrightarrow> 48 \<le> byte_val c \<and> byte_val c \<le> 57"

definition digits_value :: "string \<Rightarrow> int" where
  "digits_value ds = foldl (\<lambda>n c. 10 * n + (int (byte_val c) - 48)) 0 ds"

text \<open>\<open>strconv.ParseInt(s, 10, 64)\<close>: an optional sign, digits only, and the value in range.\<close>

definition ParseInt :: "string \<Rightarrow> int64 option" where
  "ParseInt s =
     (let neg = (case s of c # r \<Rightarrow> c = CHR ''-'' | [] \<Rightarrow> False);
          ds = (case s of c # r \<Rightarrow> if c = CHR ''-'' \<or> c = CHR ''+'' then r else s | [] \<Rightarrow> s);
          n = (if neg then - digits_value ds else digits_value ds)
      in if ds = [] \<or> \<not> list_all is_digit ds \<or> n < - (2 ^ 63) \<or> 2 ^ 63 \<le> n then None
         else Some (word_of_int n))"

text \<open>The leftmost match of a literal followed by one or more bytes of a class, greedy; its submatch.\<close>

fun find_submatch :: "string \<Rightarrow> (byte \<Rightarrow> bool) \<Rightarrow> string \<Rightarrow> string option" where
  "find_submatch pre P [] = None"
| "find_submatch pre P (c # s) =
     (if HasPrefix (c # s) pre \<and> takeWhile P (drop (length pre) (c # s)) \<noteq> []
      then Some (takeWhile P (drop (length pre) (c # s)))
      else find_submatch pre P s)"

definition table_byte :: "byte \<Rightarrow> bool" where
  "table_byte c \<longleftrightarrow> c \<noteq> CHR '','' \<and> byte_val c \<notin> {9, 10, 12, 13, 32}"

definition match_int :: "string \<Rightarrow> string \<Rightarrow> int64" where
  "match_int pre details =
     (case find_submatch pre is_digit details of
        None \<Rightarrow> 0 | Some ds \<Rightarrow> (case ParseInt ds of None \<Rightarrow> 0 | Some n \<Rightarrow> n))"

definition parseDetailsEstimates :: "string \<Rightarrow> int64 \<times> int64" where
  "parseDetailsEstimates details =
     (match_int ''estimatedDataSizeInBytes='' details, match_int ''estimatedRows='' details)"

definition extractTable :: "string \<Rightarrow> string" where
  "extractTable details =
     (case find_submatch ''table='' table_byte details of None \<Rightarrow> [] | Some t \<Rightarrow> t)"

definition numericKey :: "(string \<times> JSON) list \<Rightarrow> string \<Rightarrow> int64 option" where
  "numericKey m key = (case map_of m key of
     Some (JNumber n) \<Rightarrow> Some (int64_of_float n)
   | Some (JString s) \<Rightarrow> ParseInt s
   | _ \<Rightarrow> None)"

definition string_field :: "(string \<times> JSON) list \<Rightarrow> string \<Rightarrow> string option" where
  "string_field m key = (case map_of m key of Some (JString s) \<Rightarrow> Some s | _ \<Rightarrow> None)"

text \<open>The estimates of one node, and the table a scan node names.\<close>

definition node_estimates :: "(string \<times> JSON) list \<Rightarrow> int64 \<times> int64" where
  "node_estimates m =
     (let sb = (case numericKey m ''estimatedDataSizeInBytes'' of None \<Rightarrow> 0 | Some n \<Rightarrow> n);
          r = (case numericKey m ''estimatedRows'' of None \<Rightarrow> 0 | Some n \<Rightarrow> n)
      in case string_field m ''details'' of
           None \<Rightarrow> (sb, r)
         | Some d \<Rightarrow> (let (sb', r') = parseDetailsEstimates d in (sb + sb', r + r')))"

definition node_table :: "(string \<times> JSON) list \<Rightarrow> string option" where
  "node_table m =
     (if string_field m ''name'' = Some ''TableScan'' then
        (case string_field m ''details'' of
           None \<Rightarrow> None | Some d \<Rightarrow> if extractTable d = [] then None else Some (extractTable d))
      else None)"

definition add_node :: "(string \<times> JSON) list \<Rightarrow> planAggregate \<Rightarrow> planAggregate" where
  "add_node m agg =
     (let (sb, r) = node_estimates m
      in agg\<lparr>agg_scanBytes := agg_scanBytes agg + sb, agg_rows := agg_rows agg + r,
             agg_scans := (case node_table m of
                None \<Rightarrow> agg_scans agg | Some t \<Rightarrow> add_scan t sb r (agg_scans agg))\<rparr>)"

fun walkValue :: "JSON \<Rightarrow> planAggregate \<Rightarrow> planAggregate" where
  "walkValue (JObject m) agg = fold (\<lambda>(k, child). walkValue child) m (add_node m agg)"
| "walkValue (JArray items) agg = fold walkValue items agg"
| "walkValue v agg = agg"

definition walkPlanNode :: "Json \<Rightarrow> string \<Rightarrow> planAggregate \<Rightarrow> planAggregate" where
  "walkPlanNode json raw agg =
     (case unmarshal_any json raw of None \<Rightarrow> agg | Some v \<Rightarrow> walkValue v agg)"

section \<open>Documents and cells\<close>

definition parsePlanDoc :: "Json \<Rightarrow> string \<Rightarrow> planAggregate \<Rightarrow> planAggregate option" where
  "parsePlanDoc json body agg =
     (let walk = (\<lambda>plans. Some (fold (\<lambda>p agg. case unmarshal_plan json p of
              None \<Rightarrow> walkPlanNode json p agg
            | Some queryPlan \<Rightarrow> walkPlanNode json queryPlan agg) plans agg));
          fallback = (case unmarshal_list json body of
              Some plans \<Rightarrow> walk plans
            | None \<Rightarrow> (case unmarshal_raw json body of None \<Rightarrow> None | Some single \<Rightarrow> walk [single]))
      in case unmarshal_io json body of
           None \<Rightarrow> fallback
         | Some io \<Rightarrow>
             if InputTableColumnInfos io = [] then fallback
             else Some (fold add_info (InputTableColumnInfos io)
               (agg\<lparr>agg_cpuCost := float_add (agg_cpuCost agg) (est_CPUCost (io_Estimate io))\<rparr>)))"

text \<open>The first cell that is not JSON makes the whole parse fail.\<close>

fun parse_cells :: "Json \<Rightarrow> string list \<Rightarrow> planAggregate \<Rightarrow> planAggregate option" where
  "parse_cells json [] agg = Some agg"
| "parse_cells json (c # cs) agg =
     (case parsePlanDoc json c agg of None \<Rightarrow> None | Some agg' \<Rightarrow> parse_cells json cs agg')"

definition parsePlanCells ::
  "Json \<Rightarrow> (TableScan list \<Rightarrow> TableScan list) \<Rightarrow> string list
     \<Rightarrow> (int64 \<times> int64 \<times> TableScan list \<times> float64) option" where
  "parsePlanCells json flatten cells =
     map_option (\<lambda>agg. (agg_scanBytes agg, agg_rows agg, flatten (agg_scans agg), agg_cpuCost agg))
       (parse_cells json cells empty_aggregate)"

definition parseTrinoIOPlan ::
  "Json \<Rightarrow> (TableScan list \<Rightarrow> TableScan list) \<Rightarrow> string
     \<Rightarrow> (int64 \<times> int64 \<times> TableScan list \<times> float64) option" where
  "parseTrinoIOPlan json flatten body = parsePlanCells json flatten [body]"

section \<open>Lemmas on the aggregate\<close>

text \<open>What the scans hold for one table, and the multiset of their names.\<close>

definition table_total :: "(TableScan \<Rightarrow> int64) \<Rightarrow> string \<Rightarrow> TableScan list \<Rightarrow> int64" where
  "table_total field t ss = sum_list (map field (filter (\<lambda>s. scan_Table s = t) ss))"

lemma table_total_add_scan:
  "table_total ScanBytes t (add_scan name sb r ss) = table_total ScanBytes t ss + (if t = name then sb else 0)"
  "table_total Rows t (add_scan name sb r ss) = table_total Rows t ss + (if t = name then r else 0)"
  by (induction ss) (auto simp: table_total_def)

lemma names_add_scan:
  "set (map scan_Table (add_scan name sb r ss)) = insert name (set (map scan_Table ss))"
  by (induction ss) auto

lemma distinct_add_scan:
  "distinct (map scan_Table ss) \<Longrightarrow> distinct (map scan_Table (add_scan name sb r ss))"
proof (induction ss)
  case (Cons s ss)
  then show ?case using names_add_scan [of name sb r ss] by auto
qed simp

lemma sum_add_scan:
  "sum_list (map ScanBytes (add_scan name sb r ss)) = sum_list (map ScanBytes ss) + sb"
  by (induction ss) (auto simp: ac_simps)

text \<open>The contributions of the two kinds of step share one shape.\<close>

locale accumulation =
  fixes step :: "'a \<Rightarrow> planAggregate \<Rightarrow> planAggregate"
    and est :: "'a \<Rightarrow> int64 \<times> int64" and tab :: "'a \<Rightarrow> string option"
  assumes step_bytes: "agg_scanBytes (step x agg) = agg_scanBytes agg + fst (est x)"
    and step_rows: "agg_rows (step x agg) = agg_rows agg + snd (est x)"
    and step_cpu: "agg_cpuCost (step x agg) = agg_cpuCost agg"
    and step_scans: "agg_scans (step x agg) = (case tab x of
      None \<Rightarrow> agg_scans agg | Some t \<Rightarrow> add_scan t (fst (est x)) (snd (est x)) (agg_scans agg))"
begin

lemma totals:
  "agg_scanBytes (fold step xs agg) = agg_scanBytes agg + sum_list (map (fst \<circ> est) xs)"
  "agg_rows (fold step xs agg) = agg_rows agg + sum_list (map (snd \<circ> est) xs)"
  "agg_cpuCost (fold step xs agg) = agg_cpuCost agg"
  by (induction xs arbitrary: agg) (simp_all add: step_bytes step_rows step_cpu)

lemma table_totals:
  "table_total ScanBytes t (agg_scans (fold step xs agg)) = table_total ScanBytes t (agg_scans agg) +
     sum_list (map (fst \<circ> est) (filter (\<lambda>x. tab x = Some t) xs))"
  "table_total Rows t (agg_scans (fold step xs agg)) = table_total Rows t (agg_scans agg) +
     sum_list (map (snd \<circ> est) (filter (\<lambda>x. tab x = Some t) xs))"
  by (induction xs arbitrary: agg)
    (auto simp: step_scans table_total_add_scan split: option.split)

lemma names:
  "set (map scan_Table (agg_scans (fold step xs agg))) =
     set (map scan_Table (agg_scans agg)) \<union> {t. \<exists>x\<in>set xs. tab x = Some t}"
proof (induction xs arbitrary: agg)
  case (Cons x xs)
  have "set (map scan_Table (agg_scans (step x agg))) =
      set (map scan_Table (agg_scans agg)) \<union> {t. tab x = Some t}"
    using names_add_scan by (auto simp: step_scans split: option.split)
  then show ?case using Cons [of "step x agg"] by auto
qed simp

lemma distinct_names:
  "distinct (map scan_Table (agg_scans agg)) \<Longrightarrow> distinct (map scan_Table (agg_scans (fold step xs agg)))"
  by (induction xs arbitrary: agg) (auto simp: step_scans distinct_add_scan split: option.split)

lemma table_sum:
  "\<forall>x\<in>set xs. tab x \<noteq> None \<Longrightarrow>
    sum_list (map ScanBytes (agg_scans (fold step xs agg))) - agg_scanBytes (fold step xs agg) =
    sum_list (map ScanBytes (agg_scans agg)) - agg_scanBytes agg"
  by (induction xs arbitrary: agg) (auto simp: step_scans step_bytes sum_add_scan)

end

interpretation info: accumulation add_info
  "\<lambda>i. (int64_of_float (OutputSizeInBytes (info_Estimate i)), int64_of_float (OutputRowCount (info_Estimate i)))"
  "\<lambda>i. Some (info_name i)"
  by unfold_locales (simp_all add: add_info_def Let_def)

interpretation node: accumulation add_node node_estimates node_table
  by unfold_locales (simp_all add: add_node_def case_prod_beta Let_def)

text \<open>Every object of a document, in the order of the walk.\<close>

fun objects :: "JSON \<Rightarrow> (string \<times> JSON) list list" where
  "objects (JObject m) = m # concat (map (\<lambda>(k, child). objects child) m)"
| "objects (JArray items) = concat (map objects items)"
| "objects v = []"

lemma fold_concat: "fold f (concat xss) s = fold (fold f) xss s"
  by (induction xss arbitrary: s) simp_all

lemma walkValue_objects: "walkValue v agg = fold add_node (objects v) agg"
proof (induction v agg rule: walkValue.induct)
  case (1 m agg)
  have "fold (\<lambda>(k, child). walkValue child) m (add_node m agg) =
      fold (fold add_node) (map (\<lambda>(k, child). objects child) m) (add_node m agg)"
    unfolding fold_map by (rule fold_cong) (use 1 in \<open>auto simp: fun_eq_iff\<close>)
  then show ?case by (simp add: fold_concat)
next
  case (2 items agg)
  have "fold walkValue items agg = fold (fold add_node) (map objects items) agg"
    unfolding fold_map by (rule fold_cong) (use 2 in \<open>auto simp: fun_eq_iff\<close>)
  then show ?case by (simp add: fold_concat)
qed simp_all

text \<open>Sums of 64-bit words.\<close>

lemma sint_sum_list:
  fixes ws :: "int64 list"
  assumes "\<forall>w\<in>set ws. 0 \<le> sint w" and "sum_list (map sint ws) < 2 ^ 63"
  shows "sint (sum_list ws) = sum_list (map sint ws)"
  using assms
proof (induction ws)
  case (Cons w ws)
  have nonneg: "0 \<le> sum_list (map sint ws)"
    using Cons.prems(1) by (intro sum_list_nonneg) auto
  moreover have "0 \<le> sint w" using Cons.prems(1) by simp
  ultimately have "sint (sum_list ws) = sum_list (map sint ws)"
    using Cons.prems by (intro Cons.IH) auto
  then show ?case
    using Cons.prems nonneg \<open>0 \<le> sint w\<close> by (simp add: sint_add_exact)
qed simp

section \<open>Properties\<close>

text \<open>The estimates of an I/O plan as the code reads them.\<close>

definition info_bytes :: "trinoTableColumnInfo \<Rightarrow> int64" where
  "info_bytes i = int64_of_float (OutputSizeInBytes (info_Estimate i))"

definition info_rows :: "trinoTableColumnInfo \<Rightarrow> int64" where
  "info_rows i = int64_of_float (OutputRowCount (info_Estimate i))"

lemma parsePlanDoc_io:
  assumes "unmarshal_io json c = Some io" and "InputTableColumnInfos io \<noteq> []"
  shows "parsePlanDoc json c agg = Some (fold add_info (InputTableColumnInfos io)
    (agg\<lparr>agg_cpuCost := float_add (agg_cpuCost agg) (est_CPUCost (io_Estimate io))\<rparr>))"
  using assms by (simp add: parsePlanDoc_def Let_def)


text \<open>A plan over two columns of one table and one of another, and a decoder that returns it.\<close>

definition demo_info :: "string \<Rightarrow> rat \<Rightarrow> trinoTableColumnInfo" where
  "demo_info t b = \<lparr>info_Catalog = ''hive'', info_Schema = ''web'', info_Table = t,
     info_Estimate = \<lparr>OutputRowCount = Finite 10, OutputSizeInBytes = Finite b, est_CPUCost = Finite 0\<rparr>\<rparr>"

definition demo_io :: "trinoTableColumnInfo list \<Rightarrow> trinoIOPlan" where
  "demo_io infos = \<lparr>InputTableColumnInfos = infos,
     io_Estimate = \<lparr>OutputRowCount = Finite 0, OutputSizeInBytes = Finite 0, est_CPUCost = Finite 7\<rparr>\<rparr>"

definition demo_json :: "trinoIOPlan \<Rightarrow> Json" where
  "demo_json io = \<lparr>unmarshal_io = (\<lambda>_. Some io), unmarshal_list = (\<lambda>_. None),
     unmarshal_raw = (\<lambda>_. None), unmarshal_plan = (\<lambda>_. None), unmarshal_any = (\<lambda>_. None)\<rparr>"


text \<open>The walk over an operator tree does not depend on the order in which Go ranges over the maps of the
  decoded document: two documents with the same objects give the same totals and the same sums per table.\<close>

lemma walkValue_order_independent:
  assumes "mset (objects v) = mset (objects w)"
  shows "agg_scanBytes (walkValue v agg) = agg_scanBytes (walkValue w agg) \<and>
    agg_rows (walkValue v agg) = agg_rows (walkValue w agg) \<and>
    (\<forall>t. table_total ScanBytes t (agg_scans (walkValue v agg)) = table_total ScanBytes t (agg_scans (walkValue w agg)) \<and>
         table_total Rows t (agg_scans (walkValue v agg)) = table_total Rows t (agg_scans (walkValue w agg)))"
proof -
  have sums: "sum_list (map f (objects v)) = sum_list (map f (objects w))"
    and filtered: "sum_list (map f (filter P (objects v))) = sum_list (map f (filter P (objects w)))"
    for f :: "_ \<Rightarrow> int64" and P
    using assms by (simp_all flip: sum_mset_sum_list)
  show ?thesis
    unfolding walkValue_objects node.totals node.table_totals by (simp only: sums filtered simp_thms)
qed

lemma walkValue_order_independent_witness:
  "agg_scanBytes (walkValue (JArray [JObject [(''estimatedRows'', JNull)], JObject []]) empty_aggregate) =
   agg_scanBytes (walkValue (JArray [JObject [], JObject [(''estimatedRows'', JNull)]]) empty_aggregate)"
  using walkValue_order_independent [of "JArray [JObject [(''estimatedRows'', JNull)], JObject []]"
      "JArray [JObject [], JObject [(''estimatedRows'', JNull)]]" empty_aggregate]
  by simp

text \<open>C26. The verdict on a plan does not depend on the order in which the per-table scans are read out of
  their map: only the wording of a rejection can.\<close>

theorem verdict_order_independent:
  assumes "parsePlanCells json flatten cells = Some (bytes, rows, scans, cpu)"
    and "parsePlanCells json flatten' cells = Some (bytes', rows', scans', cpu')"
    and "\<forall>ss. mset (flatten ss) = mset ss" and "\<forall>ss. mset (flatten' ss) = mset ss"
  shows "fst (fst (evaluateLimits p bytes rows scans cpu m)) \<longleftrightarrow>
    fst (fst (evaluateLimits p bytes' rows' scans' cpu' m))"
proof -
  obtain agg where agg: "parse_cells json cells empty_aggregate = Some agg"
    and first: "bytes = agg_scanBytes agg" "cpu = agg_cpuCost agg" "scans = flatten (agg_scans agg)"
    using assms(1) by (auto simp: parsePlanCells_def)
  have second: "bytes' = agg_scanBytes agg" "cpu' = agg_cpuCost agg" "scans' = flatten' (agg_scans agg)"
    using assms(2) agg by (auto simp: parsePlanCells_def)
  have "set (flatten (agg_scans agg)) = set (agg_scans agg)" and "set (flatten' (agg_scans agg)) = set (agg_scans agg)"
    by (rule mset_eq_setD, rule assms [rule_format])+
  then show ?thesis
    by (simp add: evaluateLimits_allowed within_limit_def list_all_iff first second)
qed

lemma verdict_order_independent_witness:
  "\<exists>scans scans'.
     parsePlanCells (demo_json (demo_io [demo_info ''clicks'' 400, demo_info ''users'' 8])) id [''{}'']
       = Some (408, 20, scans, round64 7) \<and>
     parsePlanCells (demo_json (demo_io [demo_info ''clicks'' 400, demo_info ''users'' 8])) rev [''{}'']
       = Some (408, 20, scans', round64 7) \<and>
     fst (fst (evaluateLimits demo_policy 408 20 scans (round64 7) None)) =
     fst (fst (evaluateLimits demo_policy 408 20 scans' (round64 7) None))"
proof -
  let ?j = "demo_json (demo_io [demo_info ''clicks'' 400, demo_info ''users'' 8])"
  let ?ss = "[\<lparr>scan_Table = ''hive.web.clicks'', ScanBytes = 400, Rows = 10\<rparr>,
    \<lparr>scan_Table = ''hive.web.users'', ScanBytes = 8, Rows = 10\<rparr>]"
  have run: "parsePlanCells ?j flatten [''{}''] = Some (408, 20, flatten ?ss, round64 7)" for flatten
    by (simp add: parsePlanCells_def parsePlanDoc_def demo_json_def demo_io_def demo_info_def add_info_def
        empty_aggregate_def info_name_def qualifiedTable_def int64_of_float_def)
  show ?thesis
    by (intro exI conjI, rule run, rule run, rule verdict_order_independent [OF run run]) simp_all
qed

lemma io_total_exact:
  assumes "\<forall>i\<in>set infos. 0 \<le> sint (info_bytes i)" and "(\<Sum>i\<leftarrow>infos. sint (info_bytes i)) < 2 ^ 63"
    and "agg_scanBytes agg = 0"
  shows "sint (agg_scanBytes (fold add_info infos agg)) = (\<Sum>i\<leftarrow>infos. sint (info_bytes i))"
  using sint_sum_list [of "map info_bytes infos"] assms
  by (simp add: info.totals info_bytes_def [abs_def] comp_def)

lemma sint_int64_of_float:
  assumes "0 \<le> q" and "\<lfloor>q\<rfloor> < 2 ^ 63"
  shows "sint (int64_of_float (Finite q)) = \<lfloor>q\<rfloor>"
proof -
  have pos: "0 \<le> \<lfloor>q\<rfloor>" using assms(1) by simp
  then have "sint (word_of_int \<lfloor>q\<rfloor> :: int64) = \<lfloor>q\<rfloor>"
    using assms(2) by (intro sint_word_of_int64) simp_all
  moreover have "int64_of_float (Finite q) = word_of_int \<lfloor>q\<rfloor>"
    using assms pos unfolding int64_of_float_def Let_def float64.case by simp
  ultimately show ?thesis by simp
qed

lemma sum_list_member_le:
  fixes f :: "'a \<Rightarrow> int"
  shows "\<forall>x\<in>set xs. 0 \<le> f x \<Longrightarrow> x \<in> set xs \<Longrightarrow> f x \<le> (\<Sum>x\<leftarrow>xs. f x)"
proof (induction xs)
  case (Cons a xs)
  then have "0 \<le> (\<Sum>x\<leftarrow>xs. f x)" by (intro sum_list_nonneg) auto
  with Cons show ?case by auto
qed simp

text \<open>The size that an entry of the plan states, in whole bytes.\<close>

definition stated_bytes :: "trinoTableColumnInfo \<Rightarrow> int" where
  "stated_bytes i = (case OutputSizeInBytes (info_Estimate i) of Finite q \<Rightarrow> \<lfloor>q\<rfloor> | _ \<Rightarrow> - 1)"

text \<open>C25. Without overflow the total of an I/O plan is the sum of its estimates: when no entry states a negative,
  infinite or undefined size and the sizes in whole bytes add up to less than \<open>2 ^ 63\<close>, the 64-bit total that the limits
  are compared with is exactly their sum over the integers.\<close>

theorem plan_total_exact:
  assumes "unmarshal_io json c = Some io" and "InputTableColumnInfos io \<noteq> []"
    and "\<forall>i\<in>set (InputTableColumnInfos io). 0 \<le> stated_bytes i"
    and "(\<Sum>i\<leftarrow>InputTableColumnInfos io. stated_bytes i) < 2 ^ 63"
  shows "\<exists>bytes rows scans cpu. parsePlanCells json flatten [c] = Some (bytes, rows, scans, cpu) \<and>
    sint bytes = (\<Sum>i\<leftarrow>InputTableColumnInfos io. stated_bytes i)"
proof -
  let ?infos = "InputTableColumnInfos io"
  let ?agg = "empty_aggregate\<lparr>agg_cpuCost := float_add float_zero (est_CPUCost (io_Estimate io))\<rparr>"
  have read: "sint (info_bytes i) = stated_bytes i" if i: "i \<in> set ?infos" for i
  proof -
    obtain q where q: "OutputSizeInBytes (info_Estimate i) = Finite q" and "0 \<le> \<lfloor>q\<rfloor>"
      using assms(3) i by (fastforce simp: stated_bytes_def split: float64.splits)
    moreover have "stated_bytes i < 2 ^ 63" using sum_list_member_le [OF assms(3) i] assms(4) by linarith
    ultimately show ?thesis by (simp add: info_bytes_def stated_bytes_def sint_int64_of_float)
  qed
  then have sum: "(\<Sum>i\<leftarrow>?infos. sint (info_bytes i)) = (\<Sum>i\<leftarrow>?infos. stated_bytes i)"
    by (intro arg_cong [of _ _ sum_list] map_cong refl)
  have "sint (agg_scanBytes (fold add_info ?infos ?agg)) = (\<Sum>i\<leftarrow>?infos. stated_bytes i)"
    using io_total_exact [of ?infos ?agg] assms(3,4) sum read by (simp add: empty_aggregate_def)
  then show ?thesis
    by (simp add: parsePlanCells_def parsePlanDoc_io [OF assms(1,2)] empty_aggregate_def)
qed

lemma plan_total_exact_witness:
  "\<exists>bytes rows scans cpu. parsePlanCells (demo_json (demo_io [demo_info ''clicks'' 400, demo_info ''users'' 8])) id [''{}'']
       = Some (bytes, rows, scans, cpu) \<and> sint bytes = 408"
  using plan_total_exact [of "demo_json (demo_io [demo_info ''clicks'' 400, demo_info ''users'' 8])" "''{}''"
      "demo_io [demo_info ''clicks'' 400, demo_info ''users'' 8]" id]
  by (simp add: demo_json_def demo_io_def demo_info_def stated_bytes_def)

text \<open>
  With overflow it is not: two tables of \<open>2 ^ 62\<close> bytes each sum to the smallest integer, which no limit
  on the total catches.
\<close>

lemma overflowing_total_allowed:
  "agg_scanBytes (fold add_info [demo_info ''a'' (2 ^ 62), demo_info ''b'' (2 ^ 62)] empty_aggregate) = min_int64"
  "fst (fst (evaluateLimits demo_policy min_int64 20 [] (Finite 0) None))"
  by (simp_all add: add_info_def Let_def empty_aggregate_def demo_info_def int64_of_float_def
      evaluateLimits_allowed demo_policy_def demo_limit_def within_limit_def)

end
