(* ===== verification/Engine_Trino.thy ===== *)
theory Engine_Trino
  imports Engine_Plan
begin

text \<open>
  The evaluator of \<open>internal/engine/trino.go\<close>: the polling of a statement, one evaluation, the interface
  \<open>CostEvaluator\<close> of \<open>engine.go\<close> that the proxy calls, and the concurrency gate.  The HTTP client (with the
  deadline of the evaluation's context in it), the decoding of a response page and the live policy act on
  an abstract world \<open>'w\<close>; they are the record \<open>Client\<close> and the function \<open>policy_of\<close>, arguments of the
  definitions.  The polling loop has no bound of its own, so it is a partial function whose value is
  \<open>None\<close> when it never returns.
\<close>

section \<open>The evaluator\<close>

record TrinoEvaluator =
  ev_upstreamURL :: string
  ev_timeout :: int64
  ev_slots :: nat

definition trinoEngineName :: string where
  "trinoEngineName = ''trino''"

definition explainPrefix :: string where
  "explainPrefix = ''EXPLAIN (TYPE IO, FORMAT JSON) ''"

definition engine_statementPath :: string where
  "engine_statementPath = ''/v1/statement''"

definition trim_upstream :: "Policy \<Rightarrow> string" where
  "trim_upstream p = TrimRight (URL (Upstream p)) ''/''"

definition NewTrinoEvaluator :: "Policy \<Rightarrow> TrinoEvaluator" where
  "NewTrinoEvaluator p = \<lparr>ev_upstreamURL = trim_upstream p,
     ev_timeout = (if sint (preflight_Timeout (Preflight p)) \<le> 0 then seconds 2 else preflight_Timeout (Preflight p)),
     ev_slots = (if sint (MaxConcurrent (Preflight p)) \<le> 0 then 5 else nat (sint (MaxConcurrent (Preflight p))))\<rparr>"

text \<open>The timeout of one evaluation: the live one when it is positive.\<close>

definition eval_timeout :: "TrinoEvaluator \<Rightarrow> Policy \<Rightarrow> int64" where
  "eval_timeout e p = (if 0 < sint (preflight_Timeout (Preflight p)) then preflight_Timeout (Preflight p)
     else ev_timeout e)"

section \<open>Polling a statement\<close>

record trinoResponse =
  NextURI :: "string option"
  page_Data :: "JSON list list"
  page_State :: "string option"
  page_Error :: string

record 'w Client =
  valid_request :: "string \<Rightarrow> string \<Rightarrow> bool"
  do_request :: "Request \<Rightarrow> 'w \<Rightarrow> Response option \<times> 'w"
  unmarshal_page :: "string \<Rightarrow> trinoResponse option"

datatype statement_error =
    BadRequest | ClientError | BadStatus nat string | BadPage | QueryError string | QueryState string

definition shadow_header :: "string \<Rightarrow> Header \<Rightarrow> Header" where
  "shadow_header verb headers =
     copyHeaders (if verb = ''POST'' then header_Set ''Content-Type'' ''text/plain'' [] else []) headers"

definition fetch_page ::
  "'w Client \<Rightarrow> Header \<Rightarrow> string \<Rightarrow> string \<Rightarrow> string \<Rightarrow> 'w
     \<Rightarrow> (statement_error, trinoResponse) go_result \<times> 'w" where
  "fetch_page c headers uri verb body w =
     (if \<not> valid_request c verb uri then (Inl BadRequest, w)
      else case do_request c \<lparr>req_Method = verb, req_URL = uri,
             req_Body = (if verb = ''POST'' then Some body else None),
             req_Header = shadow_header verb headers\<rparr> w of
          (None, w') \<Rightarrow> (Inl ClientError, w')
        | (Some resp, w') \<Rightarrow>
            (if resp_StatusCode resp \<noteq> 200
             then Inl (BadStatus (resp_StatusCode resp) (TrimSpace (resp_Body resp)))
             else case unmarshal_page c (resp_Body resp) of None \<Rightarrow> Inl BadPage | Some page \<Rightarrow> Inr page, w'))"

definition page_cells :: "trinoResponse \<Rightarrow> string list" where
  "page_cells page =
     List.map_filter (\<lambda>row. case row of JString s # r \<Rightarrow> Some s | _ \<Rightarrow> None) (page_Data page)"

definition page_failure :: "trinoResponse \<Rightarrow> statement_error option" where
  "page_failure page =
     (if page_Error page \<noteq> [] \<and> page_Error page \<noteq> ''null'' then Some (QueryError (page_Error page))
      else case page_State page of
          Some state \<Rightarrow> if state \<in> {''FAILED'', ''CANCELED'', ''UNKNOWN''} then Some (QueryState state) else None
        | None \<Rightarrow> None)"

partial_function (option) run_loop ::
  "'w Client \<Rightarrow> Header \<Rightarrow> string \<Rightarrow> string \<Rightarrow> string \<Rightarrow> string list \<Rightarrow> 'w
     \<Rightarrow> ((statement_error, string list) go_result \<times> 'w) option" where
  [code]: "run_loop c headers uri verb body cells w =
     (case fetch_page c headers uri verb body w of (result, w') \<Rightarrow>
        case result of
          Inl e \<Rightarrow> Some (Inl e, w')
        | Inr page \<Rightarrow>
            case page_failure page of
              Some e \<Rightarrow> Some (Inl e, w')
            | None \<Rightarrow>
                case NextURI page of
                  None \<Rightarrow> Some (Inr (cells @ page_cells page), w')
                | Some uri' \<Rightarrow> run_loop c headers uri' ''GET'' [] (cells @ page_cells page) w')"

definition runStatement ::
  "'w Client \<Rightarrow> string \<Rightarrow> string \<Rightarrow> string \<Rightarrow> Header \<Rightarrow> 'w
     \<Rightarrow> ((statement_error, string list) go_result \<times> 'w) option" where
  "runStatement c startURI verb body headers w = run_loop c headers startURI verb body [] w"

section \<open>One evaluation\<close>

datatype eval_error = PreflightConcurrency | PreflightStatement statement_error | ParsePlan

text \<open>
  \<open>acquired\<close> is the outcome of the select on the gate: a slot, or the deadline first.
\<close>

definition Evaluate ::
  "'w Client \<Rightarrow> Json \<Rightarrow> (TableScan list \<Rightarrow> TableScan list) \<Rightarrow> ('w \<Rightarrow> Policy)
     \<Rightarrow> string \<Rightarrow> Header \<Rightarrow> bool \<Rightarrow> Metrics option \<Rightarrow> 'w
     \<Rightarrow> ((eval_error, CostResult) go_result \<times> Metrics option \<times> 'w) option" where
  "Evaluate c json flatten policy_of query headers acquired metrics w =
     (if \<not> acquired then Some (Inl PreflightConcurrency, metrics, w)
      else case runStatement c (trim_upstream (policy_of w) @ engine_statementPath) ''POST''
             (explainPrefix @ query) headers w of
          None \<Rightarrow> None
        | Some (Inl e, w') \<Rightarrow> Some (Inl (PreflightStatement e), metrics, w')
        | Some (Inr cells, w') \<Rightarrow>
            (case parsePlanCells json flatten cells of
               None \<Rightarrow> Some (Inl ParsePlan, metrics, w')
             | Some (scanBytes, rows, scans, cpuCost) \<Rightarrow>
                 (case evaluateLimits (policy_of w') scanBytes rows scans cpuCost metrics of
                    ((allowed, reason), metrics') \<Rightarrow>
                      Some (Inr \<lparr>Allowed = allowed, EstimatedScanBytes = scanBytes, EstimatedRows = rows,
                        EstimatedCPUCost = cpuCost, TableScans = scans, Reason = reason,
                        cost_Engine = trinoEngineName\<rparr>, metrics', w'))))"

section \<open>The polling loop\<close>

text \<open>
  The pages a successful run reads, in order, without the functions of the loop: every request gets an
  answer of status 200 whose body is a page that carries no error and is in no failed state.
\<close>

definition page_read ::
  "'w Client \<Rightarrow> Header \<Rightarrow> string \<Rightarrow> string \<Rightarrow> string option \<Rightarrow> 'w \<Rightarrow> trinoResponse \<Rightarrow> 'w \<Rightarrow> bool" where
  "page_read c headers uri verb body w page w' \<longleftrightarrow>
     valid_request c verb uri \<and>
     (\<exists>resp. do_request c \<lparr>req_Method = verb, req_URL = uri, req_Body = body, req_Header = shadow_header verb headers\<rparr> w
         = (Some resp, w') \<and>
       resp_StatusCode resp = 200 \<and> unmarshal_page c (resp_Body resp) = Some page) \<and>
     page_Error page \<in> {[], ''null''} \<and>
     page_State page \<notin> {Some ''FAILED'', Some ''CANCELED'', Some ''UNKNOWN''}"

text \<open>From the first request, through every \<open>nextUri\<close> by a GET without body, to a page without one.\<close>

inductive page_chain ::
  "'w Client \<Rightarrow> Header \<Rightarrow> string \<Rightarrow> string \<Rightarrow> string option \<Rightarrow> 'w \<Rightarrow> trinoResponse list \<Rightarrow> 'w \<Rightarrow> bool"
  for c headers where
  chain_last: "page_read c headers uri verb body w page w' \<Longrightarrow>
     NextURI page = None \<Longrightarrow> page_chain c headers uri verb body w [page] w'"
| chain_next: "page_read c headers uri verb body w page w' \<Longrightarrow>
     NextURI page = Some uri' \<Longrightarrow> page_chain c headers uri' ''GET'' None w' pages w'' \<Longrightarrow>
     page_chain c headers uri verb body w (page # pages) w''"

text \<open>The rows of a page that start with a string, each by that string.\<close>

definition first_strings :: "trinoResponse \<Rightarrow> string list" where
  "first_strings page = [s. JString s # _ \<leftarrow> page_Data page]"

definition sent_body :: "string \<Rightarrow> string \<Rightarrow> string option" where
  "sent_body verb body = (if verb = ''POST'' then Some body else None)"

lemma sent_body_simps [simp]: "sent_body ''GET'' b = None" "sent_body ''POST'' b = Some b"
  by (simp_all add: sent_body_def)

lemma page_failure_None:
  "page_failure page = None \<longleftrightarrow> page_Error page \<in> {[], ''null''} \<and>
     page_State page \<notin> {Some ''FAILED'', Some ''CANCELED'', Some ''UNKNOWN''}"
  by (auto simp: page_failure_def split: option.splits)

lemma page_read_fetch:
  "page_read c headers uri verb (sent_body verb body) w page w' \<longleftrightarrow>
     fetch_page c headers uri verb body w = (Inr page, w') \<and> page_failure page = None"
  by (auto simp: page_read_def sent_body_def fetch_page_def page_failure_None split: if_splits option.splits prod.splits)

lemma page_cells_first: "page_cells page = first_strings page"
proof -
  have "List.map_filter (\<lambda>row. case row of JString s # r \<Rightarrow> Some s | _ \<Rightarrow> None) rows = [s. JString s # _ \<leftarrow> rows]"
    for rows by (induction rows) (auto simp: List.map_filter_simps split: list.split JSON.split)
  then show ?thesis by (simp add: page_cells_def first_strings_def)
qed

lemma chain_run_loop_sent:
  "page_chain c headers uri verb body' w pages w' \<Longrightarrow> body' = sent_body verb body \<Longrightarrow>
    run_loop c headers uri verb body cells w = Some (Inr (cells @ concat (map first_strings pages)), w')"
proof (induction arbitrary: cells body rule: page_chain.induct)
  case (chain_last uri verb body' w page w')
  then show ?case by (simp add: page_read_fetch run_loop.simps page_cells_first)
next
  case (chain_next uri verb body' w page w' uri' pages w'')
  then show ?case by (simp add: page_read_fetch run_loop.simps page_cells_first)
qed

lemmas chain_run_loop = chain_run_loop_sent [OF _ refl]

lemma run_loop_chain:
  "run_loop c headers uri verb body cells w = Some y \<Longrightarrow>
    \<forall>out w'. y = (Inr out, w') \<longrightarrow> (\<exists>pages. page_chain c headers uri verb (sent_body verb body) w pages w' \<and>
      out = cells @ concat (map first_strings pages))"
proof (induction c headers uri verb body cells w y
    rule: run_loop.raw_induct [rotated, consumes 1, case_names step])
  case (step loop c headers uri verb body cells w y)
  show ?case
  proof (intro allI impI)
    fix out w' assume y: "y = (Inr out, w')"
    with step(2) obtain page w1 where page: "fetch_page c headers uri verb body w = (Inr page, w1)"
      "page_failure page = None"
      by (auto split: prod.splits sum.splits option.splits)
    then have read: "page_read c headers uri verb (sent_body verb body) w page w1" by (simp add: page_read_fetch)
    show "\<exists>pages. page_chain c headers uri verb (sent_body verb body) w pages w' \<and>
        out = cells @ concat (map first_strings pages)"
    proof (cases "NextURI page")
      case None
      with step(2) page read y show ?thesis
        by (intro exI [of _ "[page]"]) (auto intro: chain_last simp: page_cells_first)
    next
      case (Some uri')
      with step(2) page have "loop c headers uri' ''GET'' [] (cells @ page_cells page) w1 = Some y"
        by simp
      from step(1) [OF this] y obtain pages where "page_chain c headers uri' ''GET'' None w1 pages w'"
        and "out = (cells @ page_cells page) @ concat (map first_strings pages)" by auto
      with read Some show ?thesis
        by (intro exI [of _ "page # pages"]) (auto intro: chain_next simp: page_cells_first)
    qed
  qed
qed

lemma fetch_page_world:
  "fetch_page c headers uri verb body w = (Inr page, w') \<Longrightarrow>
    \<exists>r resp. do_request c r w = (Some resp, w')"
  by (auto simp: fetch_page_def split: if_splits prod.splits option.splits)

text \<open>Polling touches the world through the client only: what every round trip keeps, a run keeps.\<close>

lemma fetch_page_touches:
  "snd (fetch_page c headers uri verb body w) = w \<or> (\<exists>r. snd (fetch_page c headers uri verb body w) = snd (do_request c r w))"
proof (cases "valid_request c verb uri")
  case True
  let ?r = "\<lparr>req_Method = verb, req_URL = uri, req_Body = (if verb = ''POST'' then Some body else None),
    req_Header = shadow_header verb headers\<rparr>"
  have "snd (fetch_page c headers uri verb body w) = snd (do_request c ?r w)"
    using True by (cases "do_request c ?r w"; cases "fst (do_request c ?r w)") (auto simp: fetch_page_def)
  then show ?thesis by blast
qed (simp add: fetch_page_def)

lemma run_loop_world:
  "run_loop c headers uri verb body cells w = Some y \<Longrightarrow>
    (\<forall>w r. R w w \<and> R w (snd (do_request c r w))) \<and> (\<forall>x y z. R x y \<longrightarrow> R y z \<longrightarrow> R x z) \<longrightarrow> R w (snd y)"
proof (induction c headers uri verb body cells w y
    rule: run_loop.raw_induct [rotated, consumes 1, case_names step])
  case (step loop c headers uri verb body cells w y)
  show ?case
  proof (intro impI)
    assume R: "(\<forall>w r. R w w \<and> R w (snd (do_request c r w))) \<and> (\<forall>x y z. R x y \<longrightarrow> R y z \<longrightarrow> R x z)"
    obtain result w1 where fetch: "fetch_page c headers uri verb body w = (result, w1)" by fastforce
    with fetch_page_touches [of c headers uri verb body w] R have first: "R w w1" by auto
    show "R w (snd y)"
    proof (cases "\<exists>page uri'. result = Inr page \<and> page_failure page = None \<and> NextURI page = Some uri'")
      case True
      then obtain page uri' where "result = Inr page" "page_failure page = None" "NextURI page = Some uri'"
        by blast
      with step(2) fetch have "loop c headers uri' ''GET'' [] (cells @ page_cells page) w1 = Some y" by simp
      from step(1) [OF this] R have "R w1 (snd y)" by simp
      with R first show ?thesis by blast
    next
      case False
      with step(2) fetch have "snd y = w1" by (auto split: sum.splits option.splits)
      with first show ?thesis by simp
    qed
  qed
qed

text \<open>
  A deadline: every round trip that succeeds uses up some of a budget, so that the client fails at the
  latest when the budget is gone.
\<close>

definition deadline :: "'w Client \<Rightarrow> ('w \<Rightarrow> nat) \<Rightarrow> bool" where
  "deadline c budget \<longleftrightarrow> (\<forall>r w resp w'. do_request c r w = (Some resp, w') \<longrightarrow> budget w' < budget w)"

lemma run_loop_terminates:
  assumes "deadline c budget"
  shows "\<exists>r. run_loop c headers uri verb body cells w = Some r"
proof (induction "budget w" arbitrary: uri verb body cells w rule: less_induct)
  case less
  obtain result w' where fetch: "fetch_page c headers uri verb body w = (result, w')" by fastforce
  show ?case
  proof (cases result)
    case (Inl e)
    with fetch show ?thesis by (simp add: run_loop.simps)
  next
    case (Inr page)
    then obtain r resp where "do_request c r w = (Some resp, w')"
      using fetch by (metis fetch_page_world)
    then have "budget w' < budget w" using assms unfolding deadline_def by blast
    note less [OF this]
    with fetch Inr show ?thesis
      by (subst run_loop.simps) (auto split: option.split)
  qed
qed

section \<open>Properties of polling\<close>

lemma Evaluate_world:
  assumes "Evaluate c json flatten policy_of q h g m w = Some (r, m', w')"
    and "\<And>w r. R w w \<and> R w (snd (do_request c r w))" and "\<And>x y z. R x y \<Longrightarrow> R y z \<Longrightarrow> R x z"
  shows "R w w'"
proof (cases "runStatement c (trim_upstream (policy_of w) @ engine_statementPath) ''POST'' (explainPrefix @ q) h w")
  case None
  then show ?thesis using assms(1,2) by (auto simp: Evaluate_def split: if_splits)
next
  case (Some y)
  then have "R w (snd y)"
    using run_loop_world [of c h _ "''POST''" _ "[]" w y R] assms(2,3) unfolding runStatement_def by blast
  moreover have "w' = w \<or> w' = snd y"
    using assms(1) Some by (auto simp: Evaluate_def split: if_splits option.splits prod.splits sum.splits)
  ultimately show ?thesis using assms(2) by auto
qed

text \<open>A world for the witnesses: a client whose \<open>n\<close>-th answer is scripted, until the script is used up.\<close>

definition script_client :: "(string \<Rightarrow> trinoResponse option) \<Rightarrow> Response list Client" where
  "script_client unmarshal = \<lparr>valid_request = (\<lambda>verb uri. True),
     do_request = (\<lambda>r w. case w of [] \<Rightarrow> (None, []) | resp # w' \<Rightarrow> (Some resp, w')),
     unmarshal_page = unmarshal\<rparr>"

lemma script_deadline: "deadline (script_client u) length"
  by (auto simp: deadline_def script_client_def split: list.splits)

definition demo_page :: "string \<Rightarrow> trinoResponse option" where
  "demo_page body = Some \<lparr>NextURI = (if body = ''p1'' then Some ''http://t/p2'' else None),
     page_Data = [[JString body]], page_State = None, page_Error = []\<rparr>"

definition demo_script :: "Response list" where
  "demo_script = [\<lparr>resp_StatusCode = 200, resp_Body = ''p1''\<rparr>, \<lparr>resp_StatusCode = 200, resp_Body = ''p2''\<rparr>]"

text \<open>C22. Polling returns under a deadline: when every successful round trip uses up some of the time left,
  \<open>runStatement\<close> has a result, however long the chain of pages the server offers.\<close>

theorem runStatement_returns:
  assumes "deadline c budget"
  shows "\<exists>result w'. runStatement c uri verb body headers w = Some (result, w')"
  using run_loop_terminates [OF assms] by (simp add: runStatement_def)

lemma runStatement_returns_witness:
  "\<exists>result w'. runStatement (script_client demo_page) ''http://t/v1/statement'' ''POST'' ''q'' [] demo_script
    = Some (result, w')"
  by (rule runStatement_returns [OF script_deadline])

lemma runStatement_chain:
  "runStatement c uri verb body headers w = Some (Inr cells, w') \<longleftrightarrow>
     (\<exists>pages. page_chain c headers uri verb (sent_body verb body) w pages w' \<and>
        cells = concat (map first_strings pages))"
  using run_loop_chain [of c headers uri verb body "[]" w "(Inr cells, w')"]
    chain_run_loop [of c headers uri verb body w _ w' "[]"]
  by (auto simp: runStatement_def)

text \<open>C23. A statement posted to the coordinator succeeds exactly when the chain of pages from the POST through
  GETs of every \<open>nextUri\<close> ends in a page without one, each request well formed and answered with status 200 and a
  decodable page that carries no error and is not in the state FAILED, CANCELED or UNKNOWN; its result is the first
  cell of every row of every page, in order, where that cell is a string.\<close>

theorem runStatement_pages:
  "runStatement c uri ''POST'' body headers w = Some (Inr cells, w') \<longleftrightarrow>
     (\<exists>pages. page_chain c headers uri ''POST'' (Some body) w pages w' \<and>
        cells = concat (map (\<lambda>page. [s. JString s # _ \<leftarrow> page_Data page]) pages))"
  using runStatement_chain [of c uri "''POST''" body headers w cells w'] by (simp add: first_strings_def [abs_def])

section \<open>The interface of a cost evaluator\<close>

text \<open>
  What the proxy relies on, whatever the engine: a verdict compares the estimates it reports with the
  limits in force, a reason marks exactly the rejections, a saturated gate is an error and nothing else,
  the evaluator never counts a query, and \<open>fails_in\<close> worlds in which it cannot complete give an error.
\<close>

type_synonym 'w evaluator =
  "string \<Rightarrow> Header \<Rightarrow> bool \<Rightarrow> Metrics option \<Rightarrow> 'w
     \<Rightarrow> ((eval_error, CostResult) go_result \<times> Metrics option \<times> 'w) option"

locale cost_evaluator =
  fixes evaluate :: "'w evaluator" and engine_name :: string and limits :: "'w \<Rightarrow> CostLimit list"
  assumes verdict: "evaluate q h g m w = Some (Inr cost, m', w') \<Longrightarrow> Allowed cost \<longleftrightarrow>
      list_all (within_limit (EstimatedScanBytes cost) (TableScans cost) (EstimatedCPUCost cost)) (limits w')"
    and reasons: "evaluate q h g m w = Some (Inr cost, m', w') \<Longrightarrow> Reason cost = NoReason \<longleftrightarrow> Allowed cost"
    and engine_label: "evaluate q h g m w = Some (Inr cost, m', w') \<Longrightarrow> cost_Engine cost = engine_name"
    and saturated: "evaluate q h False m w = Some (Inl PreflightConcurrency, m, w)"
    and counts: "evaluate q h g m w = Some (r, m', w') \<Longrightarrow>
      (m' = None \<longleftrightarrow> m = None) \<and> query_count m' st e = query_count m st e"
begin

lemma rejection_has_cause:
  "evaluate q h g m w = Some (Inr cost, m', w') \<Longrightarrow> \<not> Allowed cost \<Longrightarrow> g \<and>
    (\<exists>cl\<in>set (limits w'). \<not> within_limit (EstimatedScanBytes cost) (TableScans cost) (EstimatedCPUCost cost) cl)"
  using verdict [of q h g m w cost m' w'] saturated [of q h m w]
  by (cases g) (auto simp: list_all_iff)

lemma no_limits_no_rejection:
  "evaluate q h g m w = Some (Inr cost, m', w') \<Longrightarrow> limits w' = [] \<Longrightarrow> Allowed cost"
  using verdict by fastforce

end

lemma Evaluate_Inr:
  assumes "Evaluate c json flatten policy_of q h g m w = Some (Inr cost, m', w')"
  shows "g \<and> (\<exists>cells bytes rows scans cpu.
    runStatement c (trim_upstream (policy_of w) @ engine_statementPath) ''POST'' (explainPrefix @ q) h w = Some (Inr cells, w') \<and>
    parsePlanCells json flatten cells = Some (bytes, rows, scans, cpu) \<and>
    ((Allowed cost, Reason cost), m') = evaluateLimits (policy_of w') bytes rows scans cpu m \<and>
    EstimatedScanBytes cost = bytes \<and> EstimatedRows cost = rows \<and> TableScans cost = scans \<and>
    EstimatedCPUCost cost = cpu \<and> cost_Engine cost = trinoEngineName)"
  using assms by (auto simp: Evaluate_def split: if_splits option.splits prod.splits sum.splits)

lemma evaluateLimits_counts:
  "(snd (evaluateLimits p bytes rows scans cpu m) = None \<longleftrightarrow> m = None) \<and>
   query_count (snd (evaluateLimits p bytes rows scans cpu m)) st e = query_count m st e"
  by (simp add: evaluateLimits_def Let_def)

lemma Evaluate_counts:
  assumes "Evaluate c json flatten policy_of q h g m w = Some (r, m', w')"
  shows "(m' = None \<longleftrightarrow> m = None) \<and> query_count m' st e = query_count m st e"
proof (cases r)
  case (Inl err)
  with assms have "m' = m"
    by (auto simp: Evaluate_def split: if_splits option.splits prod.splits sum.splits)
  then show ?thesis by simp
next
  case (Inr cost)
  then obtain bytes rows scans cpu
    where "m' = snd (evaluateLimits (policy_of w') bytes rows scans cpu m)"
    using Evaluate_Inr assms by (metis snd_conv)
  then show ?thesis by (simp add: evaluateLimits_counts)
qed

interpretation trino: cost_evaluator "Evaluate c json flatten policy_of" trinoEngineName
    "\<lambda>w. CostLimits (Rules (policy_of w))"
proof unfold_locales
  fix q h g m w cost m' w'
  assume "Evaluate c json flatten policy_of q h g m w = Some (Inr cost, m', w')"
  note run = Evaluate_Inr [OF this]
  then show "Allowed cost \<longleftrightarrow>
      list_all (within_limit (EstimatedScanBytes cost) (TableScans cost) (EstimatedCPUCost cost))
        (CostLimits (Rules (policy_of w')))"
    using evaluateLimits_allowed by (metis fst_conv)
  from run show "Reason cost = NoReason \<longleftrightarrow> Allowed cost"
    using evaluateLimits_reason by (metis fst_conv snd_conv)
  from run show "cost_Engine cost = trinoEngineName" by blast
qed (simp add: Evaluate_def, rule Evaluate_counts)

lemma Evaluate_returns:
  assumes "deadline c budget"
  shows "\<exists>r m' w'. Evaluate c json flatten policy_of q h g m w = Some (r, m', w')"
proof -
  obtain s ws where "runStatement c (trim_upstream (policy_of w) @ engine_statementPath) ''POST''
      (explainPrefix @ q) h w = Some (s, ws)"
    using run_loop_terminates [OF assms] unfolding runStatement_def by fastforce
  then have "Evaluate c json flatten policy_of q h g m w \<noteq> None"
    by (simp add: Evaluate_def split: option.split prod.split sum.split)
  then show ?thesis by fastforce
qed

lemma page_read_exact:
  "page_read c h uri verb b w page w1 \<Longrightarrow> page_read c h uri verb b w page' w2 \<Longrightarrow> page' = page \<and> w2 = w1"
  by (auto simp: page_read_def)

lemma page_chain_exact:
  "page_chain c h uri verb b w pages w1 \<Longrightarrow> page_chain c h uri verb b w pages' w2 \<Longrightarrow> pages' = pages \<and> w2 = w1"
proof (induction arbitrary: pages' w2 rule: page_chain.induct)
  case (chain_last uri verb b w page w')
  from chain_last(3) show ?case
    by cases (use chain_last(1,2) page_read_exact in \<open>fastforce\<close>)+
next
  case (chain_next uri verb b w page w' uri' pages w'')
  from chain_next(5) show ?case
  proof cases
    case (chain_last page')
    then show ?thesis using chain_next(1,2) page_read_exact by fastforce
  next
    case (chain_next page' w3 uri3 pages3)
    with \<open>page_read c h uri verb b w page w'\<close> have "page' = page" and "w3 = w'" by (blast dest: page_read_exact)+
    with chain_next \<open>NextURI page = Some uri'\<close> chain_next.IH show ?thesis by simp
  qed
qed

text \<open>The pages that the EXPLAIN of a query yields at the live upstream.\<close>

definition explain_pages ::
  "'w Client \<Rightarrow> ('w \<Rightarrow> Policy) \<Rightarrow> string \<Rightarrow> Header \<Rightarrow> 'w \<Rightarrow> trinoResponse list \<Rightarrow> 'w \<Rightarrow> bool" where
  "explain_pages c policy_of q h w pages w' \<longleftrightarrow>
     page_chain c h (TrimRight (URL (Upstream (policy_of w))) ''/'' @ ''/v1/statement'') ''POST''
       (Some (''EXPLAIN (TYPE IO, FORMAT JSON) '' @ q)) w pages w'"

lemma explain_pages_run:
  "runStatement c (trim_upstream (policy_of w) @ engine_statementPath) ''POST'' (explainPrefix @ q) h w
      = Some (Inr cells, w1) \<longleftrightarrow>
    (\<exists>pages. explain_pages c policy_of q h w pages w1 \<and> cells = concat (map first_strings pages))"
  unfolding runStatement_chain explain_pages_def engine_statementPath_def explainPrefix_def trim_upstream_def sent_body_simps
  by (rule refl)

lemma explain_pages_exact:
  "explain_pages c policy_of q h w pages w1 \<Longrightarrow> explain_pages c policy_of q h w pages' w2 \<Longrightarrow> pages' = pages"
  unfolding explain_pages_def by (rule conjunct1 [OF page_chain_exact])

text \<open>The four ways an evaluation ends.\<close>

lemma Evaluate_cases:
  assumes "Evaluate c json flatten policy_of q h g m w = Some (r, m', w')"
  obtains (gate) "\<not> g" "r = Inl PreflightConcurrency" "m' = m"
    | (statement) e where "g" "r = Inl (PreflightStatement e)" "m' = m" "\<And>pages w1. \<not> explain_pages c policy_of q h w pages w1"
    | (unreadable) pages where "g" "r = Inl ParsePlan" "m' = m" "explain_pages c policy_of q h w pages w'"
        "parsePlanCells json flatten (concat (map first_strings pages)) = None"
    | (verdict) cost pages where "g" "r = Inr cost" "explain_pages c policy_of q h w pages w'"
        "parsePlanCells json flatten (concat (map first_strings pages)) =
           Some (EstimatedScanBytes cost, EstimatedRows cost, TableScans cost, EstimatedCPUCost cost)"
proof -
  let ?run = "runStatement c (trim_upstream (policy_of w) @ engine_statementPath) ''POST'' (explainPrefix @ q) h w"
  consider "\<not> g" "r = Inl PreflightConcurrency" "m' = m"
    | e where "g" "?run = Some (Inl e, w')" "r = Inl (PreflightStatement e)" "m' = m"
    | cells where "g" "?run = Some (Inr cells, w')" "parsePlanCells json flatten cells = None" "r = Inl ParsePlan" "m' = m"
    | cost where "r = Inr cost"
    using assms by (auto simp: Evaluate_def split: if_splits option.splits prod.splits sum.splits)
  then show ?thesis
  proof cases
    case 2
    moreover have "\<not> explain_pages c policy_of q h w pages w1" for pages w1
      using 2(2) explain_pages_run [of c policy_of w q h _ w1] by force
    ultimately show ?thesis using statement by blast
  next
    case 3
    then show ?thesis using unreadable explain_pages_run [of c policy_of w q h cells w'] by blast
  next
    case 4
    with Evaluate_Inr [OF assms [unfolded 4]] show ?thesis
      using verdict [of cost] explain_pages_run [of c policy_of w q h _ w'] by metis
  qed (use gate in blast)
qed

text \<open>C21. Under a deadline every evaluation ends, and in one of four ways.  It fails with the gate's error exactly
  when no slot was acquired; with a statement error exactly when one was and the EXPLAIN has no complete chain of
  pages; with a plan error exactly when it has one whose cells are no readable plan; and these three leave the metrics
  alone.  Otherwise it is a verdict on the estimates of the plan that the chain of pages carries, and it rejects exactly
  when they break a cost limit of the policy in force when the plan has arrived.  So no failure on the way is ever a
  rejection.\<close>

theorem Evaluate_verdict:
  assumes "deadline c budget"
  shows "\<exists>r m' w'. Evaluate c json flatten policy_of q h g m w = Some (r, m', w') \<and>
    (r = Inl PreflightConcurrency \<longleftrightarrow> \<not> g) \<and>
    ((\<exists>e. r = Inl (PreflightStatement e)) \<longleftrightarrow> g \<and> \<not> (\<exists>pages w1. explain_pages c policy_of q h w pages w1)) \<and>
    (r = Inl ParsePlan \<longleftrightarrow> g \<and> (\<exists>pages w1. explain_pages c policy_of q h w pages w1 \<and>
      parsePlanCells json flatten (concat (map first_strings pages)) = None)) \<and>
    (\<forall>e. r = Inl e \<longrightarrow> m' = m) \<and>
    (\<forall>cost. r = Inr cost \<longrightarrow> g \<and> (\<exists>pages. explain_pages c policy_of q h w pages w' \<and>
        parsePlanCells json flatten (concat (map first_strings pages)) =
          Some (EstimatedScanBytes cost, EstimatedRows cost, TableScans cost, EstimatedCPUCost cost)) \<and>
      (Allowed cost \<longleftrightarrow> list_all (within_limit (EstimatedScanBytes cost) (TableScans cost) (EstimatedCPUCost cost))
        (CostLimits (Rules (policy_of w')))))"
proof -
  obtain r m' w' where run: "Evaluate c json flatten policy_of q h g m w = Some (r, m', w')"
    using Evaluate_returns [OF assms] by blast
  from run show ?thesis
  proof (cases rule: Evaluate_cases)
    case (unreadable pages)
    then show ?thesis using run by auto
  next
    case (verdict cost pages)
    then have "parsePlanCells json flatten (concat (map first_strings pages')) \<noteq> None"
      if "explain_pages c policy_of q h w pages' w1" for pages' w1
      using explain_pages_exact [OF verdict(3) that] by simp
    moreover note trino.verdict [OF run [unfolded verdict(2)]]
    ultimately show ?thesis using run verdict by fastforce
  qed (use run in auto)
qed

lemma Evaluate_verdict_witness:
  "\<exists>r m' w'. Evaluate (script_client demo_page) (demo_json (demo_io [demo_info ''clicks'' 400])) id
      (\<lambda>_. demo_policy) ''SELECT 1'' [] True None demo_script = Some (r, m', w')"
  using Evaluate_verdict [OF script_deadline [of demo_page],
      of "demo_json (demo_io [demo_info ''clicks'' 400])" id "\<lambda>_. demo_policy" "''SELECT 1''" "[]" True None demo_script]
  by blast

end
