(* ===== verification/Labelled_Steps.thy ===== *)
theory Labelled_Steps
  imports Go_Prelude
begin

text \<open>
  Runs of a labelled step relation, for the parts of the program that run concurrently: the gate, the watcher, the
  requests of the serving process, and the process itself.  Where the label determines the step, a run can be
  computed: that is the locale \<open>executable_steps\<close>.
\<close>

section \<open>Runs\<close>

inductive steps :: "('s \<Rightarrow> 'l \<Rightarrow> 's \<Rightarrow> bool) \<Rightarrow> 's \<Rightarrow> 'l list \<Rightarrow> 's \<Rightarrow> bool" for step where
  steps_Nil: "steps step s [] s"
| steps_snoc: "steps step s ls s' \<Longrightarrow> step s' l s'' \<Longrightarrow> steps step s (ls @ [l]) s''"

inductive_cases steps_NilE: "steps step s [] s'"
inductive_cases steps_snocE: "steps step s (ls @ [l]) s'"

lemma steps_Nil_iff [simp]: "steps step s [] s' \<longleftrightarrow> s' = s"
  by (auto intro: steps_Nil elim: steps_NilE)

lemma steps_snoc_iff: "steps step s (ls @ [l]) s'' \<longleftrightarrow> (\<exists>s'. steps step s ls s' \<and> step s' l s'')"
  by (auto intro: steps_snoc elim: steps_snocE)

lemma steps_one: "step s l s' \<Longrightarrow> steps step s [l] s'"
  using steps_snoc [OF steps_Nil] by fastforce

lemma steps_append: "steps step s' ls' s'' \<Longrightarrow> steps step s ls s' \<Longrightarrow> steps step s (ls @ ls') s''"
proof (induction rule: steps.induct)
  case (steps_snoc s' ls' s'' l s3)
  then show ?case by (metis append_assoc steps.steps_snoc)
qed simp

lemma steps_invariant:
  "steps step s ls s' \<Longrightarrow> I s \<Longrightarrow> (\<And>s l s'. step s l s' \<Longrightarrow> I s \<Longrightarrow> I s') \<Longrightarrow> I s'"
  by (induction rule: steps.induct) auto

text \<open>An invariant of the state and of the labels so far.\<close>

lemma steps_history:
  "steps step s ls s' \<Longrightarrow> I [] s \<Longrightarrow> (\<And>ls s l s'. step s l s' \<Longrightarrow> I ls s \<Longrightarrow> I (ls @ [l]) s') \<Longrightarrow> I ls s'"
  by (induction rule: steps.induct) auto

section \<open>Computing a run\<close>

primrec execs :: "('l \<Rightarrow> 's \<Rightarrow> 's option) \<Rightarrow> 'l list \<Rightarrow> 's \<Rightarrow> 's option" where
  "execs exec [] s = Some s"
| "execs exec (l # ls) s = Option.bind (exec l s) (execs exec ls)"

lemma execs_append: "execs exec (ls @ ls') s = Option.bind (execs exec ls s) (execs exec ls')"
  by (induction ls arbitrary: s) (simp_all add: bind_assoc split: bind_splits)

locale executable_steps =
  fixes step :: "'s \<Rightarrow> 'l \<Rightarrow> 's \<Rightarrow> bool" and exec :: "'l \<Rightarrow> 's \<Rightarrow> 's option"
  assumes step_exec: "step s l s' \<longleftrightarrow> exec l s = Some s'"
begin

lemma steps_execs: "steps step s ls s' \<longleftrightarrow> execs exec ls s = Some s'"
proof (induction ls arbitrary: s' rule: rev_induct)
  case (snoc l ls)
  then show ?case by (auto simp: steps_snoc_iff step_exec execs_append split: bind_splits)
qed auto

lemma deterministic: "steps step s ls t \<Longrightarrow> steps step s ls u \<Longrightarrow> t = u"
  by (simp add: steps_execs)

end

end
