(* ===== verification/Engine_Gate.thy ===== *)
theory Engine_Gate
  imports Engine_Trino Labelled_Steps
begin

text \<open>
  The concurrency gate of \<open>internal/engine/trino.go\<close>: the buffered channel \<open>sem\<close> that \<open>Evaluate\<close> sends
  to before the shadow request and receives from when it returns.  The requests of the process run
  concurrently, so the gate is a labelled step relation over the evaluations that wait for a slot and
  those that hold one.
\<close>

section \<open>The gate\<close>

record gate =
  capacity :: nat
  waiting :: "nat list"
  holding :: "nat list"

datatype gate_label = Arrive nat | Acquire nat | Expire nat | Release nat

definition new_gate :: "TrinoEvaluator \<Rightarrow> gate" where
  "new_gate e = \<lparr>capacity = ev_slots e, waiting = [], holding = []\<rparr>"

text \<open>
  \<open>Acquire\<close> is the send on \<open>sem\<close>, possible while the buffer has room; \<open>Expire\<close> is the branch of the select
  in which the deadline comes first; \<open>Release\<close> is the deferred receive.
\<close>

inductive gate_step :: "gate \<Rightarrow> gate_label \<Rightarrow> gate \<Rightarrow> bool" where
  gate_arrive: "i \<notin> set (waiting g) \<Longrightarrow> i \<notin> set (holding g) \<Longrightarrow>
     gate_step g (Arrive i) (g\<lparr>waiting := waiting g @ [i]\<rparr>)"
| gate_acquire: "i \<in> set (waiting g) \<Longrightarrow> length (holding g) < capacity g \<Longrightarrow>
     gate_step g (Acquire i) (g\<lparr>waiting := remove1 i (waiting g), holding := holding g @ [i]\<rparr>)"
| gate_expire: "i \<in> set (waiting g) \<Longrightarrow>
     gate_step g (Expire i) (g\<lparr>waiting := remove1 i (waiting g)\<rparr>)"
| gate_release: "i \<in> set (holding g) \<Longrightarrow>
     gate_step g (Release i) (g\<lparr>holding := remove1 i (holding g)\<rparr>)"

inductive_simps gate_acquire_iff: "gate_step g (Acquire i) g'"
inductive_simps gate_expire_iff: "gate_step g (Expire i) g'"
inductive_simps gate_release_iff: "gate_step g (Release i) g'"
inductive_cases gate_stepE: "gate_step g l g'"

abbreviation gate_run :: "gate \<Rightarrow> gate_label list \<Rightarrow> gate \<Rightarrow> bool" where
  "gate_run \<equiv> steps gate_step"

lemmas gate_run_Nil = steps_Nil [of "gate_step"]
lemmas gate_run_one = steps_one [of "gate_step"]
lemmas gate_run_snoc = steps_snoc [of "gate_step"]
lemmas gate_run_append = steps_append [of "gate_step"]

section \<open>The invariant\<close>

definition gate_ok :: "gate \<Rightarrow> bool" where
  "gate_ok g \<longleftrightarrow> length (holding g) \<le> capacity g \<and> distinct (waiting g @ holding g)"

lemma gate_step_ok: "gate_step g l g' \<Longrightarrow> gate_ok g \<Longrightarrow> gate_ok g' \<and> capacity g' = capacity g"
  by (induction rule: gate_step.induct) (auto simp: gate_ok_def length_remove1)

lemma gate_run_ok:
  "gate_run g ls g' \<Longrightarrow> gate_ok g \<Longrightarrow> gate_ok g' \<and> capacity g' = capacity g"
  by (induction rule: steps.induct) (auto dest: gate_step_ok)

lemma new_gate_ok: "gate_ok (new_gate e)"
  by (simp add: gate_ok_def new_gate_def)

section \<open>Properties\<close>

text \<open>At most \<open>preflight.max_concurrent\<close> shadow requests are in flight, and no evaluation holds two slots,
  in every state that any interleaving of evaluations reaches; the number of slots is positive, whatever
  the policy says.\<close>

lemma gate_bounded:
  assumes "gate_run (new_gate (NewTrinoEvaluator p)) ls g"
  shows "int (length (holding g)) \<le>
      (if sint (MaxConcurrent (Preflight p)) \<le> 0 then 5 else sint (MaxConcurrent (Preflight p))) \<and>
    distinct (holding g) \<and> 0 < capacity g"
  using gate_run_ok [OF assms new_gate_ok]
  by (auto simp: gate_ok_def new_gate_def NewTrinoEvaluator_def split: if_splits)

lemma gate_bounded_witness:
  "\<exists>g. gate_run (new_gate (NewTrinoEvaluator demo_policy)) [Arrive 1] g \<and> length (holding g) \<le> 5"
proof -
  let ?g = "new_gate (NewTrinoEvaluator demo_policy)"
  have run: "gate_run ?g [Arrive 1] (?g\<lparr>waiting := waiting ?g @ [1]\<rparr>)"
    using gate_run_one [OF gate_arrive [of 1 ?g]] by (simp add: new_gate_def)
  with gate_bounded [OF run] show ?thesis by (auto simp: demo_policy_def)
qed

text \<open>The gate never blocks a query for good: an evaluation that waits can always fail open, and when it
  cannot have a slot at once, some evaluation holds one whose release lets it in.\<close>

lemma gate_no_deadlock:
  assumes "gate_run (new_gate (NewTrinoEvaluator p)) ls g" and "i \<in> set (waiting g)"
  shows "(\<exists>g'. gate_step g (Expire i) g') \<and>
    ((\<exists>g'. gate_step g (Acquire i) g') \<or>
     (\<exists>j g' g''. j \<in> set (holding g) \<and> gate_step g (Release j) g' \<and> gate_step g' (Acquire i) g''))"
proof (intro conjI)
  show "\<exists>g'. gate_step g (Expire i) g'" using assms(2) by (auto simp: gate_expire_iff)
  have ok: "gate_ok g" and pos: "0 < capacity g"
    using gate_run_ok [OF assms(1) new_gate_ok] by (auto simp: new_gate_def NewTrinoEvaluator_def)
  show "(\<exists>g'. gate_step g (Acquire i) g') \<or>
     (\<exists>j g' g''. j \<in> set (holding g) \<and> gate_step g (Release j) g' \<and> gate_step g' (Acquire i) g'')"
  proof (cases "length (holding g) < capacity g")
    case True
    then show ?thesis using assms(2) by (auto simp: gate_acquire_iff)
  next
    case False
    then obtain j js where "holding g = j # js" using pos by (cases "holding g") auto
    then show ?thesis
      using ok assms(2) by (auto simp: gate_release_iff gate_acquire_iff gate_ok_def)
  qed
qed

lemma gate_no_deadlock_witness:
  "\<exists>g g'. gate_run (new_gate (NewTrinoEvaluator demo_policy)) [Arrive 1] g \<and> gate_step g (Expire 1) g'"
proof -
  let ?g = "new_gate (NewTrinoEvaluator demo_policy)"
  have run: "gate_run ?g [Arrive 1] (?g\<lparr>waiting := waiting ?g @ [1]\<rparr>)"
    using gate_run_one [OF gate_arrive [of 1 ?g]] by (simp add: new_gate_def)
  with gate_no_deadlock [OF run, of 1] show ?thesis by auto
qed

text \<open>
  The gate is sized once, from the policy at start-up: a reload that changes \<open>preflight.max_concurrent\<close>
  does not change it, unlike the timeout and the upstream, which \<open>Evaluate\<close> reads from the live policy.
\<close>

lemma gate_capacity_fixed:
  "gate_run (new_gate (NewTrinoEvaluator p)) ls g \<Longrightarrow> capacity g = ev_slots (NewTrinoEvaluator p)"
  using gate_run_ok [OF _ new_gate_ok] by (simp add: new_gate_def)

end
