(* ===== verification/Ctxlog.thy ===== *)
theory Ctxlog
  imports Go_Http Proxy_Reverse
begin

text \<open>
  \<open>internal/ctxlog/ctxlog.go\<close>: the request identifier.  The context of a request is its field
  \<open>ctx_requestID\<close>; the random source and the clock are arguments.
\<close>

section \<open>Definitions\<close>

definition HeaderName :: string where
  "HeaderName = ''X-Request-ID''"

definition hex_EncodeToString :: "byte list \<Rightarrow> string" where
  "hex_EncodeToString bs = concat (map (\<lambda>b. [hex_digit (byte_val b div 16), hex_digit (byte_val b mod 16)]) bs)"

fun hex_number :: "nat \<Rightarrow> string" where
  "hex_number n = (if n < 16 then [hex_digit n] else hex_number (n div 16) @ [hex_digit (n mod 16)])"

declare hex_number.simps [simp del]

text \<open>\<open>None\<close>: the random source failed, and the time is used instead.\<close>

definition NewID :: "byte list option \<Rightarrow> nat \<Rightarrow> string" where
  "NewID random unix_nano = (case random of
     Some bs \<Rightarrow> hex_EncodeToString bs | None \<Rightarrow> ''t'' @ hex_number unix_nano)"

definition WithRequestID :: "string \<Rightarrow> ProxyRequest \<Rightarrow> ProxyRequest" where
  "WithRequestID i r = r\<lparr>ctx_requestID := Some i\<rparr>"

definition FromContext :: "ProxyRequest \<Rightarrow> string" where
  "FromContext r = (case ctx_requestID r of None \<Rightarrow> [] | Some i \<Rightarrow> i)"

section \<open>Facts\<close>

lemma FromContext_WithRequestID [simp]: "FromContext (WithRequestID i r) = i"
  by (simp add: FromContext_def WithRequestID_def)

lemma WithRequestID_simps [simp]:
  "r_Body (WithRequestID i r) = r_Body r" "r_Header (WithRequestID i r) = r_Header r"
  "r_Method (WithRequestID i r) = r_Method r" "r_Path (WithRequestID i r) = r_Path r"
  by (simp_all add: WithRequestID_def)

definition is_hex :: "byte \<Rightarrow> bool" where
  "is_hex c \<longleftrightarrow> (48 \<le> byte_val c \<and> byte_val c \<le> 57) \<or> (97 \<le> byte_val c \<and> byte_val c \<le> 102)"

lemma is_hex_digit: "n < 16 \<Longrightarrow> is_hex (hex_digit n)"
  by (simp add: is_hex_def byte_val_hex_digit)

lemma byte_val_div_16: "byte_val b div 16 < 16"
  using nat_of_char_less_256 [of b] by linarith

lemma hex_digit_inject: "m < 16 \<Longrightarrow> n < 16 \<Longrightarrow> hex_digit m = hex_digit n \<longleftrightarrow> m = n"
proof
  assume "m < 16" "n < 16" "hex_digit m = hex_digit n"
  then have "byte_val (hex_digit m) = byte_val (hex_digit n)" by simp
  with \<open>m < 16\<close> \<open>n < 16\<close> show "m = n" by (simp add: byte_val_hex_digit split: if_splits)
qed simp

lemma hex_encode_length: "length (hex_EncodeToString bs) = 2 * length bs"
  by (induction bs) (simp_all add: hex_EncodeToString_def)

lemma hex_encode_digits: "list_all is_hex (hex_EncodeToString bs)"
  by (induction bs) (simp_all add: hex_EncodeToString_def is_hex_digit byte_val_div_16)

lemma byte_pair_inject:
  "byte_val a div 16 = byte_val b div 16 \<Longrightarrow> byte_val a mod 16 = byte_val b mod 16 \<Longrightarrow> a = b"
  by (metis char_of_char div_mod_decomp)

lemma hex_encode_inject: "hex_EncodeToString bs = hex_EncodeToString cs \<Longrightarrow> bs = cs"
proof (induction bs arbitrary: cs)
  case Nil
  then show ?case by (cases cs) (simp_all add: hex_EncodeToString_def)
next
  case (Cons b bs)
  then obtain c cs' where cs: "cs = c # cs'" by (cases cs) (simp_all add: hex_EncodeToString_def)
  with Cons.prems have "hex_digit (byte_val b div 16) = hex_digit (byte_val c div 16)"
    and "hex_digit (byte_val b mod 16) = hex_digit (byte_val c mod 16)"
    and "hex_EncodeToString bs = hex_EncodeToString cs'"
    by (simp_all add: hex_EncodeToString_def)
  with Cons.IH cs show ?case by (simp add: hex_digit_inject byte_val_div_16 byte_pair_inject)
qed

text \<open>A minted identifier is the lossless encoding of its random bytes: 16 lowercase hexadecimal digits for
  eight bytes, and different bytes give different identifiers.\<close>

lemma NewID_encodes:
  assumes "length bs = 8"
  shows "length (NewID (Some bs) t) = 16 \<and> list_all is_hex (NewID (Some bs) t) \<and>
    (NewID (Some bs) t = NewID (Some cs) u \<longleftrightarrow> bs = cs)"
  using assms hex_encode_inject by (auto simp: NewID_def hex_encode_length hex_encode_digits)

lemma NewID_encodes_witness: "length (NewID (Some ''abcdefgh'') 0) = 16"
  using NewID_encodes [of "''abcdefgh''" 0 "''abcdefgh''" 0] by simp

end
