(* ===== verification/Proxy_Handler.thy ===== *)
theory Proxy_Handler
  imports Proxy_Reverse Engine_Gate Ctxlog
begin

text \<open>
  \<open>internal/proxy/handler.go\<close>: the HTTP handler, from routing to the two-tier evaluation of a statement.
  What the handler calls outside the repository, and what other goroutines do meanwhile, acts on a world
  \<open>'w\<close>: the record \<open>Env\<close> holds those functions.  \<open>policy_of\<close> and \<open>target_of\<close> read the live configuration
  and the active reverse proxy, and \<open>interfere\<close> is what happens between two such reads, a hot reload for
  instance.  The handler's own effects are the metrics and the audit log, which are passed through as state.
  A result \<open>None\<close> means that the handler does not return.
\<close>

section \<open>The environment and the state\<close>

record 'w Env =
  policy_of :: "'w \<Rightarrow> Policy"
  target_of :: "'w \<Rightarrow> Target"
  interfere :: "'w \<Rightarrow> 'w"
  transport :: "ProxyRequest \<Rightarrow> 'w \<Rightarrow> ProxyResponse option \<times> 'w"
  media_type :: "string \<Rightarrow> string"
  parse_sql :: "string \<Rightarrow> Statement option"
  evaluator :: "'w evaluator option"
  gate_open :: "'w \<Rightarrow> bool"
  elapsed :: "'w \<Rightarrow> int64"
  minted_id :: "'w \<Rightarrow> string"
  engine_label :: string

record audit_record =
  au_Query :: string
  au_Reason :: RejectionReason
  au_Tables :: "string list"
  au_WhereColumns :: "string list"
  au_User :: string
  au_ClientTags :: string
  au_RequestID :: string
  au_Snapshot :: "CostResult option"

record 'w HandlerState =
  st_World :: 'w
  st_Metrics :: "Metrics option"
  st_Audit :: "audit_record list"

section \<open>Telemetry, forwarding and rejection\<close>

definition record_status :: "'w Env \<Rightarrow> QueryStatus \<Rightarrow> 'w HandlerState \<Rightarrow> 'w HandlerState" where
  "record_status env status st = st\<lparr>st_Metrics := RecordQuery status (engine_label env) (st_Metrics st)\<rparr>"

definition metricsParserError :: "'w HandlerState \<Rightarrow> 'w HandlerState" where
  "metricsParserError st = st\<lparr>st_Metrics := RecordParserError (st_Metrics st)\<rparr>"

definition observePreflight :: "int64 \<Rightarrow> 'w HandlerState \<Rightarrow> 'w HandlerState" where
  "observePreflight d st = st\<lparr>st_Metrics := ObservePreflight d (st_Metrics st)\<rparr>"

definition metricsBlockedBytes :: "int64 \<Rightarrow> 'w HandlerState \<Rightarrow> 'w HandlerState" where
  "metricsBlockedBytes b st = st\<lparr>st_Metrics := RecordBlockedBytes b (st_Metrics st)\<rparr>"

definition metricsPreflightRejected :: "'w HandlerState \<Rightarrow> 'w HandlerState" where
  "metricsPreflightRejected st = st\<lparr>st_Metrics := RecordPreflightRejected (st_Metrics st)\<rparr>"

text \<open>Let the rest of the process run.\<close>

definition yield_world :: "'w Env \<Rightarrow> 'w HandlerState \<Rightarrow> 'w HandlerState" where
  "yield_world env st = st\<lparr>st_World := interfere env (st_World st)\<rparr>"

definition serve_upstream :: "'w Env \<Rightarrow> ProxyRequest \<Rightarrow> 'w HandlerState \<Rightarrow> Reply \<times> 'w HandlerState" where
  "serve_upstream env r st =
     (case proxy_serve (media_type env) (transport env) (target_of env (st_World st)) r (st_World st) of
        (reply, w) \<Rightarrow> (reply, st\<lparr>st_World := w\<rparr>))"

definition forward :: "'w Env \<Rightarrow> ProxyRequest \<Rightarrow> string \<Rightarrow> 'w HandlerState \<Rightarrow> Reply \<times> 'w HandlerState" where
  "forward env r body st = serve_upstream env
     (r\<lparr>r_Body := \<lparr>stream_data = body, stream_broken = False\<rparr>, r_ContentLength := int (length body)\<rparr>) st"

text \<open>The prefix that was read, then what is left of the reader.\<close>

definition forwardFull :: "'w Env \<Rightarrow> ProxyRequest \<Rightarrow> string \<Rightarrow> 'w HandlerState \<Rightarrow> Reply \<times> 'w HandlerState" where
  "forwardFull env r prefix st = serve_upstream env
     (r\<lparr>r_Body := \<lparr>stream_data = prefix @ drop (length prefix) (stream_data (r_Body r)),
        stream_broken = stream_broken (r_Body r)\<rparr>, r_ContentLength := - 1\<rparr>) st"

definition reject :: "ProxyRequest \<Rightarrow> RejectionReason \<Rightarrow> rejection_message \<Rightarrow> Reply" where
  "reject r reason message = WriteRejection 400 reason message (FromContext r)"

definition auditRejection ::
  "'w Env \<Rightarrow> ProxyRequest \<Rightarrow> string \<Rightarrow> RejectionReason \<Rightarrow> AnalysisResult \<Rightarrow> CostResult option
     \<Rightarrow> 'w HandlerState \<Rightarrow> 'w HandlerState" where
  "auditRejection env r query reason res cost st =
     (let p = policy_of env (st_World st)
      in if \<not> LogRejections (Audit p) then st
         else st\<lparr>st_Audit := st_Audit st @
           [\<lparr>au_Query = query, au_Reason = reason, au_Tables = Tables res, au_WhereColumns = WhereColumns res,
             au_User = header_Get (r_Header r) ''X-Trino-User'',
             au_ClientTags = header_Get (r_Header r) ''X-Trino-Client-Tags'',
             au_RequestID = FromContext r,
             au_Snapshot = (if SnapshotPlan (Audit p) then cost else None)\<rparr>]\<rparr>)"

section \<open>Tier 2\<close>

definition shouldPreflight :: "'w Env \<Rightarrow> 'w HandlerState \<Rightarrow> StatementClass \<Rightarrow> bool" where
  "shouldPreflight env st cls \<longleftrightarrow>
     (if cls \<noteq> StatementSelect then False
      else CostLimits (Rules (policy_of env (st_World st))) \<noteq> [] \<and> evaluator env \<noteq> None)"

text \<open>The call on a nil evaluator, which \<open>shouldPreflight\<close> excludes, has no value.\<close>

definition tier2 ::
  "'w Env \<Rightarrow> Header \<Rightarrow> string \<Rightarrow> 'w HandlerState
     \<Rightarrow> ((eval_error, bool \<times> limit_reason \<times> CostResult) go_result \<times> 'w HandlerState) option" where
  "tier2 env headers query st =
     (case evaluator env of None \<Rightarrow> None | Some evaluate \<Rightarrow>
      case evaluate query headers (gate_open env (st_World st)) (st_Metrics st) (st_World st) of
        None \<Rightarrow> None
      | Some (result, metrics, w) \<Rightarrow>
          (let st = observePreflight (elapsed env w) (st\<lparr>st_Metrics := metrics, st_World := w\<rparr>)
           in case result of
               Inl err \<Rightarrow> Some (Inl err, if err = PreflightConcurrency then metricsPreflightRejected st else st)
             | Inr cost \<Rightarrow>
                 if \<not> Allowed cost
                 then Some (Inr (False, Reason cost, cost), metricsBlockedBytes (EstimatedScanBytes cost) st)
                 else Some (Inr (True, NoReason, cost), st)))"

section \<open>A statement\<close>

definition maxStatementBodyBytes :: nat where
  "maxStatementBodyBytes = 8388608"

definition semicolon_blanks :: string where
  "semicolon_blanks = [CHR '';'', CHR '' '', CHR 0x09, CHR 0x0A, CHR 0x0D]"

text \<open>From Tier 1 on: the statement is analysed and is no bypass statement.\<close>

definition evaluate_tiers ::
  "'w Env \<Rightarrow> ProxyRequest \<Rightarrow> string \<Rightarrow> string \<Rightarrow> AnalysisResult \<Rightarrow> 'w HandlerState
     \<Rightarrow> (Reply \<times> 'w HandlerState) option" where
  "evaluate_tiers env r body query res st =
     (case tier1 (policy_of env (st_World st)) res of (reason, msg, allow) \<Rightarrow>
      if \<not> allow then
        Some (reject r reason (Tier1Message msg),
              record_status env StatusBlocked (auditRejection env r query reason res None (yield_world env st)))
      else let st = yield_world env st
      in if shouldPreflight env st (result_class res) then
           (case tier2 env (r_Header r) query (yield_world env st) of
              None \<Rightarrow> None
            | Some (Inl err, st') \<Rightarrow> Some (forward env r body (record_status env StatusAllowed (yield_world env st')))
            | Some (Inr (allowed, reason, cost), st') \<Rightarrow>
                if \<not> allowed then
                  Some (reject r ReasonCostLimitBreach (CostMessage reason),
                        record_status env StatusBlocked
                          (auditRejection env r query ReasonCostLimitBreach res (Some cost) (yield_world env st')))
                else Some (forward env r body (record_status env StatusAllowed (yield_world env st'))))
         else Some (forward env r body (record_status env StatusAllowed (yield_world env st))))"

definition handle_query ::
  "'w Env \<Rightarrow> ProxyRequest \<Rightarrow> string \<Rightarrow> string \<Rightarrow> 'w HandlerState \<Rightarrow> (Reply \<times> 'w HandlerState) option" where
  "handle_query env r body query st =
     (case Analyze (parse_sql env) query of
        Inl err \<Rightarrow> Some (forward env r body (record_status env StatusBypassed (metricsParserError st)))
      | Inr res \<Rightarrow>
          if IsBypass (result_class res) then Some (forward env r body (record_status env StatusBypassed st))
          else evaluate_tiers env r body query res (yield_world env st))"

definition handleStatement ::
  "'w Env \<Rightarrow> ProxyRequest \<Rightarrow> 'w HandlerState \<Rightarrow> (Reply \<times> 'w HandlerState) option" where
  "handleStatement env r0 st =
     (let inbound = header_Get (r_Header r0) HeaderName;
          reqID = (if inbound = [] then minted_id env (st_World st) else inbound);
          r = WithRequestID reqID r0;
          body = take (maxStatementBodyBytes + 1) (stream_data (r_Body r))
      in if length body < maxStatementBodyBytes + 1 \<and> stream_broken (r_Body r) then
           Some (forward env r body (record_status env StatusBypassed st))
         else if maxStatementBodyBytes < length body then
           Some (forwardFull env r body (record_status env StatusBypassed st))
         else let query = TrimSpace body
         in if query = [] then Some (forward env r body (record_status env StatusBypassed st))
            else handle_query env r body (TrimRight query semicolon_blanks) st)"

section \<open>Probes and routing\<close>

definition text_reply :: "nat \<Rightarrow> string \<Rightarrow> Header \<Rightarrow> Reply" where
  "text_reply status body header = \<lparr>reply_Status = status,
     reply_Header = header_Set ''Content-Type'' ''text/plain; charset=utf-8'' header,
     reply_Body = Bytes \<lparr>stream_data = body @ [newline], stream_broken = False\<rparr>\<rparr>"

definition handleHealthz :: Reply where
  "handleHealthz = text_reply 200 ''ok'' []"

text \<open>\<open>http.Error\<close> also forbids content sniffing.\<close>

definition http_Error :: "string \<Rightarrow> nat \<Rightarrow> Reply" where
  "http_Error msg status = text_reply status msg (header_Set ''X-Content-Type-Options'' ''nosniff'' [])"

text \<open>
  \<open>probe\<close> is the GET on the upstream: \<open>None\<close> when the request cannot be built, \<open>Some None\<close> when it fails.
\<close>

definition handleReadyz :: "(string \<Rightarrow> 'w \<Rightarrow> nat option option \<times> 'w) \<Rightarrow> 'w Env \<Rightarrow> 'w HandlerState
    \<Rightarrow> Reply \<times> 'w HandlerState" where
  "handleReadyz probe env st =
     (case probe (trim_upstream (policy_of env (st_World st)) @ ''/v1/info'') (st_World st) of (answer, w) \<Rightarrow>
       (case answer of
          None \<Rightarrow> http_Error ''not ready'' 503
        | Some None \<Rightarrow> http_Error ''not ready: upstream unreachable'' 503
        | Some (Some status) \<Rightarrow>
            if status \<noteq> 200 then http_Error ''not ready: upstream unhealthy'' 503 else text_reply 200 ''ok'' [],
        st\<lparr>st_World := w\<rparr>))"

text \<open>The scrape endpoint: not found without metrics, the text of all counters otherwise.\<close>

definition metrics_Handler :: "Metrics option \<Rightarrow> Reply" where
  "metrics_Handler m = (case m of
     None \<Rightarrow> http_Error ''404 page not found'' 404
   | Some metrics \<Rightarrow> \<lparr>reply_Status = 200, reply_Header = [], reply_Body = MetricsText\<rparr>)"

definition metricsPath :: "Policy \<Rightarrow> string" where
  "metricsPath p =
     (if \<not> telemetry_Enabled (Telemetry p) then []
      else if telemetry_Path (Telemetry p) = [] then ''/metrics'' else telemetry_Path (Telemetry p))"

datatype route = Healthz | Readyz | MetricsEndpoint | StatementEndpoint | Passthrough

definition route_of :: "'w Env \<Rightarrow> ProxyRequest \<Rightarrow> 'w HandlerState \<Rightarrow> route" where
  "route_of env r st =
     (if r_Path r = ''/healthz'' then Healthz
      else if r_Path r = ''/readyz'' then Readyz
      else if st_Metrics st \<noteq> None \<and> r_Method r = ''GET'' \<and> r_Path r = metricsPath (policy_of env (st_World st))
      then MetricsEndpoint
      else if r_Method r = ''POST'' \<and> r_Path r = ''/v1/statement'' then StatementEndpoint
      else Passthrough)"

definition ServeHTTP :: "(string \<Rightarrow> 'w \<Rightarrow> nat option option \<times> 'w) \<Rightarrow> 'w Env \<Rightarrow> ProxyRequest \<Rightarrow> 'w HandlerState
    \<Rightarrow> (Reply \<times> 'w HandlerState) option" where
  "ServeHTTP probe env r st =
     (case route_of env r st of
        Healthz \<Rightarrow> Some (handleHealthz, st)
      | Readyz \<Rightarrow> Some (handleReadyz probe env st)
      | MetricsEndpoint \<Rightarrow> Some (metrics_Handler (st_Metrics st), st)
      | StatementEndpoint \<Rightarrow> handleStatement env r st
      | Passthrough \<Rightarrow> Some (serve_upstream env r st))"

section \<open>Construction\<close>

text \<open>A handler that starts: its target, and the label its queries are counted under.\<close>

definition NewHandler ::
  "(string \<Rightarrow> Target option) \<Rightarrow> Policy \<Rightarrow> string option \<Rightarrow> (proxy_error, Target \<times> string) go_result" where
  "NewHandler parse_url p evaluator_engine =
     (case newReverseProxy parse_url (URL (Upstream p)) of
        Inl e \<Rightarrow> Inl e
      | Inr target \<Rightarrow> Inr (target, case evaluator_engine of None \<Rightarrow> ''trino'' | Some e \<Rightarrow> e))"

text \<open>On an error the active proxy stays.\<close>

definition UpdateUpstream ::
  "(string \<Rightarrow> Target option) \<Rightarrow> string \<Rightarrow> Target \<Rightarrow> proxy_error option \<times> Target" where
  "UpdateUpstream parse_url upstream target =
     (case newReverseProxy parse_url upstream of Inl e \<Rightarrow> (Some e, target) | Inr t \<Rightarrow> (None, t))"

section \<open>The cases of a statement\<close>

definition request_id :: "'w Env \<Rightarrow> ProxyRequest \<Rightarrow> 'w HandlerState \<Rightarrow> string" where
  "request_id env r st = (if header_Get (r_Header r) HeaderName = [] then minted_id env (st_World st)
     else header_Get (r_Header r) HeaderName)"

text \<open>The body is complete, within the cap and not blank: the statement is inspected.\<close>

definition inspected :: "ProxyRequest \<Rightarrow> bool" where
  "inspected r \<longleftrightarrow> \<not> stream_broken (r_Body r) \<and> length (stream_data (r_Body r)) \<le> maxStatementBodyBytes \<and>
     TrimSpace (stream_data (r_Body r)) \<noteq> []"

definition inspected_query :: "ProxyRequest \<Rightarrow> string" where
  "inspected_query r = TrimRight (TrimSpace (stream_data (r_Body r))) semicolon_blanks"

lemma handleStatement_inspected:
  "inspected r \<Longrightarrow> handleStatement env r st =
    handle_query env (WithRequestID (request_id env r st) r) (stream_data (r_Body r)) (inspected_query r) st"
  by (simp add: handleStatement_def inspected_def inspected_query_def request_id_def Let_def)

text \<open>What reaches the upstream on the other paths: the body as far as it could be read.\<close>

definition replayed :: "ProxyRequest \<Rightarrow> ProxyRequest \<Rightarrow> bool" where
  "replayed r r' \<longleftrightarrow> r_Method r' = r_Method r \<and> r_Path r' = r_Path r \<and> r_Header r' = r_Header r \<and>
     stream_data (r_Body r') = stream_data (r_Body r)"

lemma replayed_simps:
  "replayed r (WithRequestID i r)"
  "replayed r r1 \<Longrightarrow> replayed r (r1\<lparr>r_Body := \<lparr>stream_data = stream_data (r_Body r), stream_broken = b\<rparr>, r_ContentLength := n\<rparr>)"
  by (simp_all add: replayed_def)

lemma handleStatement_uninspected:
  assumes "\<not> inspected r"
  shows "\<exists>r'. replayed r r' \<and>
    handleStatement env r st = Some (serve_upstream env r' (record_status env StatusBypassed st))"
proof -
  let ?data = "stream_data (r_Body r)" and ?r = "WithRequestID (request_id env r st) r"
  let ?body = "take (maxStatementBodyBytes + 1) ?data"
  consider (broken) "length ?body < maxStatementBodyBytes + 1" "stream_broken (r_Body r)"
    | (large) "\<not> (length ?body < maxStatementBodyBytes + 1 \<and> stream_broken (r_Body r))" "maxStatementBodyBytes < length ?body"
    | (blank) "\<not> stream_broken (r_Body r)" "length ?data \<le> maxStatementBodyBytes" "TrimSpace ?data = []"
  proof (cases "stream_broken (r_Body r)")
    case True
    then show ?thesis using broken large by fastforce
  next
    case False
    then show ?thesis using assms large blank by (cases "length ?data \<le> maxStatementBodyBytes") (auto simp: inspected_def)
  qed
  then show ?thesis
  proof cases
    case broken
    then have "length ?data \<le> maxStatementBodyBytes" by (simp add: min_less_iff_disj)
    with broken show ?thesis
      by (intro exI [of _ "?r\<lparr>r_Body := \<lparr>stream_data = ?data, stream_broken = False\<rparr>, r_ContentLength := int (length ?data)\<rparr>"])
        (simp add: handleStatement_def request_id_def Let_def forward_def replayed_def)
  next
    case large
    have "?body @ drop (length ?body) ?data = ?data"
      by (cases "length ?data \<le> maxStatementBodyBytes + 1") simp_all
    with large show ?thesis
      by (intro exI [of _ "?r\<lparr>r_Body := \<lparr>stream_data = ?data, stream_broken = stream_broken (r_Body r)\<rparr>, r_ContentLength := - 1\<rparr>"])
        (auto simp: handleStatement_def request_id_def Let_def forwardFull_def replayed_def)
  next
    case blank
    then have "?body = ?data" by simp
    with blank show ?thesis
      by (intro exI [of _ "?r\<lparr>r_Body := \<lparr>stream_data = ?data, stream_broken = False\<rparr>, r_ContentLength := int (length ?data)\<rparr>"])
        (simp add: handleStatement_def request_id_def Let_def forward_def replayed_def)
  qed
qed

section \<open>Frame lemmas\<close>

lemma world_steps [simp]:
  "st_World (record_status env s st) = st_World st" "st_World (auditRejection env r q re res c st) = st_World st"
  "st_World (metricsParserError st) = st_World st" "st_World (yield_world env st) = interfere env (st_World st)"
  "st_World (metricsBlockedBytes b st) = st_World st" "st_World (metricsPreflightRejected st) = st_World st"
  "st_World (observePreflight d st) = st_World st"
  by (simp_all add: record_status_def auditRejection_def metricsParserError_def yield_world_def Let_def
      metricsBlockedBytes_def metricsPreflightRejected_def observePreflight_def)

lemma audit_steps [simp]:
  "st_Audit (record_status env s st) = st_Audit st" "st_Audit (metricsParserError st) = st_Audit st"
  "st_Audit (yield_world env st) = st_Audit st" "st_Audit (metricsBlockedBytes b st) = st_Audit st"
  "st_Audit (metricsPreflightRejected st) = st_Audit st" "st_Audit (observePreflight d st) = st_Audit st"
  "st_Audit (snd (serve_upstream env r st)) = st_Audit st" "st_Audit (snd (forward env r body st)) = st_Audit st"
  by (simp_all add: record_status_def metricsParserError_def yield_world_def metricsBlockedBytes_def
      metricsPreflightRejected_def observePreflight_def serve_upstream_def forward_def split: prod.split)

lemma metrics_steps [simp]:
  "st_Metrics (yield_world env st) = st_Metrics st"
  "st_Metrics (auditRejection env r q re res c st) = st_Metrics st"
  "st_Metrics (snd (serve_upstream env r st)) = st_Metrics st" "st_Metrics (snd (forward env r body st)) = st_Metrics st"
  "st_Metrics (record_status env s st) = RecordQuery s (engine_label env) (st_Metrics st)"
  by (simp_all add: record_status_def auditRejection_def yield_world_def serve_upstream_def forward_def
      Let_def split: prod.split)

text \<open>What the upstream answers is never a rejection of the guard.\<close>

lemma served_body: "\<exists>b. reply_Body (fst (serve_upstream env r st)) = Bytes b"
  by (auto simp: serve_upstream_def proxy_serve_def Let_def split: prod.split option.split)

lemma forward_body: "\<exists>b. reply_Body (fst (forward env r body st)) = Bytes b"
  by (simp add: forward_def served_body)

definition rejection_of :: "Reply \<Rightarrow> rejectionResponse option" where
  "rejection_of reply = (case reply_Body reply of RejectionBody x \<Rightarrow> Some x | _ \<Rightarrow> None)"

lemma rejection_of_simps [simp]:
  "rejection_of (fst (serve_upstream env r st)) = None" "rejection_of (fst (forward env r body st)) = None"
  "rejection_of (reject r reason msg) = Some \<lparr>rr_ErrorCode = errorCodeLimitBreach, rr_Reason = reason,
     rr_Message = msg, rr_RequestID = FromContext r\<rparr>"
  using served_body [of env r st] forward_body [of env r body st]
  by (auto simp: rejection_of_def reject_def WriteRejection_def)

section \<open>The tiers, as three outcomes\<close>

inductive tiers_outcome ::
  "'w Env \<Rightarrow> ProxyRequest \<Rightarrow> string \<Rightarrow> string \<Rightarrow> AnalysisResult \<Rightarrow> 'w HandlerState \<Rightarrow> Reply \<times> 'w HandlerState \<Rightarrow> bool"
  for env r body query res st where
  tier1_rejects: "tier1 (policy_of env (st_World st)) res = (reason, msg, False) \<Longrightarrow>
     tiers_outcome env r body query res st (reject r reason (Tier1Message msg),
       record_status env StatusBlocked (auditRejection env r query reason res None (yield_world env st)))"
| tier2_rejects: "snd (snd (tier1 (policy_of env (st_World st)) res)) \<Longrightarrow>
     shouldPreflight env (yield_world env st) (result_class res) \<Longrightarrow>
     tier2 env (r_Header r) query (yield_world env (yield_world env st)) = Some (Inr (False, reason, cost), st') \<Longrightarrow>
     tiers_outcome env r body query res st (reject r ReasonCostLimitBreach (CostMessage reason),
       record_status env StatusBlocked
         (auditRejection env r query ReasonCostLimitBreach res (Some cost) (yield_world env st')))"
| tiers_forward: "snd (snd (tier1 (policy_of env (st_World st)) res)) \<Longrightarrow>
     \<not> shouldPreflight env (yield_world env st) (result_class res) \<and> st' = yield_world env st \<or>
     (\<exists>x. tier2 env (r_Header r) query (yield_world env (yield_world env st)) = Some (x, st') \<and>
        (\<forall>reason cost. x \<noteq> Inr (False, reason, cost))) \<Longrightarrow>
     tiers_outcome env r body query res st
       (forward env r body (record_status env StatusAllowed (yield_world env st')))"

lemma evaluate_tiers_outcome:
  assumes "evaluate_tiers env r body query res st = Some out"
  shows "tiers_outcome env r body query res st out"
proof -
  obtain reason msg allow where t1: "tier1 (policy_of env (st_World st)) res = (reason, msg, allow)"
    by (metis prod_cases3)
  show ?thesis
  proof (cases allow)
    case False
    with t1 assms have "out = (reject r reason (Tier1Message msg),
       record_status env StatusBlocked (auditRejection env r query reason res None (yield_world env st)))"
      by (simp add: evaluate_tiers_def)
    with t1 False show ?thesis by (simp add: tier1_rejects)
  next
    case True
    with t1 have allowed: "snd (snd (tier1 (policy_of env (st_World st)) res))" by simp
    show ?thesis
    proof (cases "shouldPreflight env (yield_world env st) (result_class res)")
      case no: False
      with True t1 assms have "out = forward env r body (record_status env StatusAllowed
          (yield_world env (yield_world env st)))"
        by (simp add: evaluate_tiers_def)
      with allowed no show ?thesis by (simp add: tiers_forward)
    next
      case yes: True
      with True t1 assms obtain x st' where
        t2: "tier2 env (r_Header r) query (yield_world env (yield_world env st)) = Some (x, st')"
        by (auto simp: evaluate_tiers_def split: option.splits)
      show ?thesis
      proof (cases "\<exists>reason cost. x = Inr (False, reason, cost)")
        case True
        then obtain why cost where x: "x = Inr (False, why, cost)" by blast
        with \<open>allow\<close> yes t1 t2 assms have out: "out = (reject r ReasonCostLimitBreach (CostMessage why),
            record_status env StatusBlocked
              (auditRejection env r query ReasonCostLimitBreach res (Some cost) (yield_world env st')))"
          by (simp add: evaluate_tiers_def)
        show ?thesis unfolding out by (rule tier2_rejects [OF allowed yes t2 [unfolded x]])
      next
        case False
        then have "out = forward env r body (record_status env StatusAllowed (yield_world env st'))"
          using \<open>allow\<close> yes t1 t2 assms
          by (cases x) (auto simp: evaluate_tiers_def split: prod.splits if_splits)
        with allowed t2 False show ?thesis by (auto intro: tiers_forward)
      qed
    qed
  qed
qed

end
