(* ===== verification/Proxy_Properties.thy ===== *)
theory Proxy_Properties
  imports Proxy_Handler
begin

text \<open>
  What the handler guarantees for a statement: the cases of \<open>handleStatement\<close>, its metrics and its audit log,
  when it rejects and when it forwards, first for any cost evaluator (inside the locale \<open>cost_evaluator\<close>) and
  then for Trino's, and the decision it takes as a function of the policy, the statement and the estimates.
\<close>

section \<open>The Trino evaluator in the handler\<close>

text \<open>The environment of a handler whose evaluator reads the same live configuration.\<close>

definition trino_env ::
  "'w Client \<Rightarrow> Json \<Rightarrow> (TableScan list \<Rightarrow> TableScan list) \<Rightarrow> 'w Env \<Rightarrow> 'w Env" where
  "trino_env c json flatten env =
     env\<lparr>evaluator := Some (Evaluate c json flatten (policy_of env)), engine_label := trinoEngineName\<rparr>"

lemma trino_env_simps [simp]:
  "evaluator (trino_env c json flatten env) = Some (Evaluate c json flatten (policy_of env))"
  "engine_label (trino_env c json flatten env) = ''trino''"
  "policy_of (trino_env c json flatten env) = policy_of env"
  "interfere (trino_env c json flatten env) = interfere env"
  "parse_sql (trino_env c json flatten env) = parse_sql env"
  "minted_id (trino_env c json flatten env) = minted_id env"
  by (simp_all add: trino_env_def trinoEngineName_def)

lemma request_id_trino [simp]: "request_id (trino_env c json flatten env) r st = request_id env r st"
  by (simp add: request_id_def)

section \<open>The cases of a statement\<close>

lemma handle_query_bypass:
  "IsBypass (Classify query) \<Longrightarrow>
    handle_query env r body query st = Some (forward env r body (record_status env StatusBypassed st))"
  by (simp add: handle_query_def Analyze_bypass empty_result_def)

lemma handle_query_tiers:
  assumes "\<not> IsBypass (Classify query)"
  obtains res where "Analyze (parse_sql env) query = Inr res" and "result_class res = Classify query"
    and "handle_query env r body query st = evaluate_tiers env r body query res (yield_world env st)"
proof -
  obtain res where "Analyze (parse_sql env) query = Inr res" and "result_class res = Classify query"
    using Analyze_classified by blast
  with assms show ?thesis by (intro that [of res]) (simp_all add: handle_query_def)
qed

lemma handleStatement_cases:
  assumes "handleStatement env r st = Some out"
  obtains (uninspected) r' where "\<not> inspected r" and "replayed r r'"
      and "out = serve_upstream env r' (record_status env StatusBypassed st)"
    | (bypass) "inspected r" and "IsBypass (Classify (inspected_query r))"
      and "out = forward env (WithRequestID (request_id env r st) r) (stream_data (r_Body r))
        (record_status env StatusBypassed st)"
    | (tiers) res where "inspected r" and "\<not> IsBypass (Classify (inspected_query r))"
      and "Analyze (parse_sql env) (inspected_query r) = Inr res"
      and "result_class res = Classify (inspected_query r)"
      and "tiers_outcome env (WithRequestID (request_id env r st) r) (stream_data (r_Body r)) (inspected_query r)
        res (yield_world env st) out"
proof (cases "inspected r")
  case False
  then show ?thesis using handleStatement_uninspected [OF False, of env st] assms uninspected by force
next
  case True
  note run = handleStatement_inspected [OF True, of env st] assms
  show ?thesis
  proof (cases "IsBypass (Classify (inspected_query r))")
    case yes: True
    then show ?thesis using run True bypass by (simp add: handle_query_bypass)
  next
    case no: False
    from handle_query_tiers [OF no] run obtain res where "Analyze (parse_sql env) (inspected_query r) = Inr res"
      and "result_class res = Classify (inspected_query r)"
      and "evaluate_tiers env (WithRequestID (request_id env r st) r) (stream_data (r_Body r)) (inspected_query r)
        res (yield_world env st) = Some out" by metis
    then show ?thesis using True no tiers evaluate_tiers_outcome by blast
  qed
qed

section \<open>With any cost evaluator\<close>

text \<open>What Tier 2 leaves alone, and what a rejection of it rests on.\<close>

context cost_evaluator
begin

lemma tier2_frame:
  assumes "evaluator env = Some evaluate" and "tier2 env h q st = Some (x, st')"
  shows "st_Audit st' = st_Audit st \<and> (st_Metrics st' = None \<longleftrightarrow> st_Metrics st = None) \<and>
    query_count (st_Metrics st') s e = query_count (st_Metrics st) s e"
proof -
  from assms obtain res m w where
    "evaluate q h (gate_open env (st_World st)) (st_Metrics st) (st_World st) = Some (res, m, w)"
    and "(st_Metrics st' = None \<longleftrightarrow> m = None) \<and> query_count (st_Metrics st') s e = query_count m s e \<and>
      st_Audit st' = st_Audit st"
    by (auto simp: tier2_def Let_def observePreflight_def metricsPreflightRejected_def metricsBlockedBytes_def
        split: option.splits sum.splits if_splits)
  with counts show ?thesis by metis
qed

lemma tier2_breach:
  assumes "evaluator env = Some evaluate" and "tier2 env h q st = Some (Inr (False, reason, cost), st')"
  shows "\<exists>m. evaluate q h True (st_Metrics st) (st_World st) = Some (Inr cost, m, st_World st') \<and>
    gate_open env (st_World st) \<and> \<not> Allowed cost \<and> reason = Reason cost \<and> reason \<noteq> NoReason \<and>
    (\<exists>cl\<in>set (limits (st_World st')).
      \<not> within_limit (EstimatedScanBytes cost) (TableScans cost) (EstimatedCPUCost cost) cl)"
proof -
  from assms obtain m where
    run: "evaluate q h (gate_open env (st_World st)) (st_Metrics st) (st_World st) = Some (Inr cost, m, st_World st')"
    and no: "\<not> Allowed cost" "reason = Reason cost"
    by (auto simp: tier2_def Let_def split: option.splits sum.splits if_splits)
  from rejection_has_cause [OF run no(1)] reasons [OF run] no run show ?thesis by auto
qed

end

lemma tier2_runs: "evaluator env \<in> {None, Some f} \<Longrightarrow> tier2 env h q st = Some y \<Longrightarrow> evaluator env = Some f"
  by (auto simp: tier2_def)

lemma record_status_count:
  "engine_label env \<noteq> [] \<Longrightarrow> st_Metrics st \<noteq> None \<Longrightarrow>
    query_count (st_Metrics (record_status env s st)) s' e =
      query_count (st_Metrics st) s' e + (if s' = s \<and> e = engine_label env then 1 else 0)"
  by (auto simp: RecordQuery_count)

text \<open>The reply to a statement, what is counted and what is audited.\<close>

definition status_of_reply :: "bool \<Rightarrow> Reply \<Rightarrow> QueryStatus" where
  "status_of_reply evaluated reply =
     (if rejection_of reply \<noteq> None then StatusBlocked else if evaluated then StatusAllowed else StatusBypassed)"

definition evaluated :: "ProxyRequest \<Rightarrow> bool" where
  "evaluated r \<longleftrightarrow> inspected r \<and> \<not> IsBypass (Classify (inspected_query r))"

definition same_counts :: "'w HandlerState \<Rightarrow> 'w HandlerState \<Rightarrow> bool" where
  "same_counts st st' \<longleftrightarrow> st_Audit st' = st_Audit st \<and> (st_Metrics st' = None \<longleftrightarrow> st_Metrics st = None) \<and>
     (\<forall>s e. query_count (st_Metrics st') s e = query_count (st_Metrics st) s e)"

lemma same_counts_yield: "same_counts (yield_world env st) st' \<longleftrightarrow> same_counts st st'"
    "same_counts st (yield_world env st') \<longleftrightarrow> same_counts st st'"
  by (simp_all add: same_counts_def)

lemma same_counts_refl [simp]: "same_counts st st"
  by (simp add: same_counts_def)

definition audit_entry :: "'w Env \<Rightarrow> 'w \<Rightarrow> string \<Rightarrow> ProxyRequest \<Rightarrow> AnalysisResult \<Rightarrow> RejectionReason
    \<Rightarrow> CostResult option \<Rightarrow> audit_record list" where
  "audit_entry env w query r res reason cost =
     (if LogRejections (Audit (policy_of env w)) then
        [\<lparr>au_Query = query, au_Reason = reason, au_Tables = Tables res, au_WhereColumns = WhereColumns res,
          au_User = header_Get (r_Header r) ''X-Trino-User'',
          au_ClientTags = header_Get (r_Header r) ''X-Trino-Client-Tags'', au_RequestID = FromContext r,
          au_Snapshot = (if SnapshotPlan (Audit (policy_of env w)) then cost else None)\<rparr>] else [])"

lemma auditRejection_entry:
  "st_Audit (auditRejection env r q reason res cost st) =
     st_Audit st @ audit_entry env (st_World st) q r res reason cost"
  by (simp add: auditRejection_def audit_entry_def Let_def)

context cost_evaluator
begin

lemma tier2_same_counts:
  "evaluator env = Some evaluate \<Longrightarrow> tier2 env h q st = Some (x, st') \<Longrightarrow> same_counts st st'"
  unfolding same_counts_def using tier2_frame by blast

text \<open>How the tiers end, with the state just before the statement is counted.\<close>

lemma tiers_ends:
  assumes "evaluator env \<in> {None, Some evaluate}" and "tiers_outcome env r body q res st out"
  shows "(\<exists>st1. same_counts st st1 \<and> out = forward env r body (record_status env StatusAllowed st1)) \<or>
    (\<exists>st1 reason msg cost. same_counts st st1 \<and> (cost \<noteq> None \<longrightarrow> reason = ReasonCostLimitBreach) \<and>
       out = (reject r reason msg, record_status env StatusBlocked (auditRejection env r q reason res cost st1)))"
  using assms(2)
proof cases
  case (tier1_rejects reason msg)
  have "same_counts st (yield_world env st)" by (simp add: same_counts_yield)
  with tier1_rejects show ?thesis by blast
next
  case (tier2_rejects reason cost st')
  have "evaluator env = Some evaluate" using tier2_runs [OF assms(1) tier2_rejects(4)] .
  from tier2_same_counts [OF this tier2_rejects(4)] have "same_counts st (yield_world env st')"
    by (simp add: same_counts_yield)
  with tier2_rejects(1) show ?thesis by blast
next
  case (tiers_forward st')
  from tiers_forward(3) have "same_counts st (yield_world env st')"
  proof (elim disjE conjE exE)
    fix x assume "tier2 env (r_Header r) q (yield_world env (yield_world env st)) = Some (x, st')"
    moreover from this have "evaluator env = Some evaluate" by (rule tier2_runs [OF assms(1)])
    ultimately have "same_counts (yield_world env (yield_world env st)) st'" by (rule tier2_same_counts [rotated])
    then show ?thesis by (simp add: same_counts_yield)
  qed (simp add: same_counts_yield)
  with tiers_forward(1) show ?thesis by blast
qed

end

section \<open>Accounting\<close>

lemma serve_same_counts: "same_counts st st' \<Longrightarrow> same_counts st (snd (serve_upstream env r st'))"
  by (simp add: same_counts_def serve_upstream_def split: prod.split)

context cost_evaluator
begin

lemma statement_accounting:
  assumes "evaluator env \<in> {None, Some evaluate}" and "engine_label env \<noteq> []" and "st_Metrics st \<noteq> None"
    and "handleStatement env r st = Some (reply, st')"
  shows "query_count (st_Metrics st') s e = query_count (st_Metrics st) s e +
    (if s = status_of_reply (evaluated r) reply \<and> e = engine_label env then 1 else 0)"
  using assms(4)
proof (cases rule: handleStatement_cases)
  case (uninspected r')
  then have "rejection_of reply = None" "st_Metrics st' = st_Metrics (record_status env StatusBypassed st)"
    by (metis fst_conv rejection_of_simps(1), metis snd_conv metrics_steps(3))
  then show ?thesis using uninspected(1) record_status_count [OF assms(2,3)]
    by (simp add: status_of_reply_def evaluated_def)
next
  case bypass
  then have "rejection_of reply = None" "st_Metrics st' = st_Metrics (record_status env StatusBypassed st)"
    by (metis fst_conv rejection_of_simps(2), metis snd_conv metrics_steps(4))
  then show ?thesis using bypass(2) record_status_count [OF assms(2,3)]
    by (simp add: status_of_reply_def evaluated_def)
next
  case (tiers res)
  then have ev: "evaluated r" by (simp add: evaluated_def)
  have split: "query_count (st_Metrics st1) s e = query_count (st_Metrics st) s e \<and> st_Metrics st1 \<noteq> None"
    if "same_counts (yield_world env st) st1" for st1
    using that assms(3) by (auto simp: same_counts_def)
  from tiers_ends [OF assms(1) tiers(5)] show ?thesis
  proof (elim disjE exE conjE)
    fix st1 assume st1: "same_counts (yield_world env st) st1" and out: "(reply, st') =
      forward env (WithRequestID (request_id env r st) r) (stream_data (r_Body r)) (record_status env StatusAllowed st1)"
    then have "rejection_of reply = None" "st_Metrics st' = st_Metrics (record_status env StatusAllowed st1)"
      by (metis fst_conv rejection_of_simps(2), metis snd_conv metrics_steps(4))
    then show ?thesis using ev record_status_count [OF assms(2), of st1] split [OF st1]
      by (simp add: status_of_reply_def)
  next
    fix st1 reason msg cost assume st1: "same_counts (yield_world env st) st1" and out: "(reply, st') =
      (reject (WithRequestID (request_id env r st) r) reason msg, record_status env StatusBlocked
        (auditRejection env (WithRequestID (request_id env r st) r) (inspected_query r) reason res cost st1))"
    moreover from this have "st_Metrics st' = st_Metrics (record_status env StatusBlocked st1)" by simp
    ultimately show ?thesis using ev record_status_count [OF assms(2), of st1] split [OF st1]
      by (simp add: status_of_reply_def)
  qed
qed

text \<open>The audit log gains at most one entry, and that of the rejection.\<close>

lemma statement_audit:
  assumes "evaluator env \<in> {None, Some evaluate}" and "handleStatement env r st = Some (reply, st')"
  shows "case rejection_of reply of
      None \<Rightarrow> st_Audit st' = st_Audit st
    | Some x \<Rightarrow> \<exists>w res cost. Analyze (parse_sql env) (inspected_query r) = Inr res \<and>
        (cost \<noteq> None \<longrightarrow> rr_Reason x = ReasonCostLimitBreach) \<and>
        st_Audit st' = st_Audit st @ audit_entry env w (inspected_query r) (WithRequestID (rr_RequestID x) r)
          res (rr_Reason x) cost"
  using assms(2)
proof (cases rule: handleStatement_cases)
  case (uninspected r')
  then have "rejection_of reply = None" "st_Audit st' = st_Audit st"
    by (metis fst_conv rejection_of_simps(1), metis snd_conv audit_steps(1,7))
  then show ?thesis by simp
next
  case bypass
  then have "rejection_of reply = None" "st_Audit st' = st_Audit st"
    by (metis fst_conv rejection_of_simps(2), metis snd_conv audit_steps(1,8))
  then show ?thesis by simp
next
  case (tiers res)
  from tiers_ends [OF assms(1) tiers(5)] show ?thesis
  proof (elim disjE exE conjE)
    fix st1 assume st1: "same_counts (yield_world env st) st1" and out: "(reply, st') =
      forward env (WithRequestID (request_id env r st) r) (stream_data (r_Body r)) (record_status env StatusAllowed st1)"
    then have "rejection_of reply = None" "st_Audit st' = st_Audit st1"
      by (metis fst_conv rejection_of_simps(2), metis snd_conv audit_steps(1,8))
    then show ?thesis using st1 by (simp add: same_counts_def)
  next
    fix st1 reason msg cost assume st1: "same_counts (yield_world env st) st1"
      and cost: "cost \<noteq> None \<longrightarrow> reason = ReasonCostLimitBreach" and out: "(reply, st') =
      (reject (WithRequestID (request_id env r st) r) reason msg, record_status env StatusBlocked
        (auditRejection env (WithRequestID (request_id env r st) r) (inspected_query r) reason res cost st1))"
    then show ?thesis using tiers(3)
      by (auto simp: auditRejection_entry same_counts_def intro!: exI [of _ cost])
  qed
qed

end

section \<open>A concrete handler\<close>

text \<open>An upstream that answers nothing and a Trino client with a script: the world is what is left of it.\<close>

definition demo_env :: "Response list Env" where
  "demo_env = \<lparr>policy_of = (\<lambda>w. demo_policy), target_of = (\<lambda>w. \<lparr>t_Scheme = ''http'', t_Host = ''trino:8080''\<rparr>),
     interfere = (\<lambda>w. w), transport = (\<lambda>r w. (None, w)), media_type = (\<lambda>s. s), parse_sql = (\<lambda>s. None),
     evaluator = None, gate_open = (\<lambda>w. True), elapsed = (\<lambda>w. 7), minted_id = (\<lambda>w. ''id-1''), engine_label = []\<rparr>"

definition demo_trino :: "Response list Env" where
  "demo_trino = trino_env (script_client demo_page) (demo_json (demo_io [demo_info ''clicks'' 400])) id demo_env"

definition demo_request :: "string \<Rightarrow> ProxyRequest" where
  "demo_request body = \<lparr>r_Method = ''POST'', r_Path = ''/v1/statement'', r_Scheme = [], r_URLHost = [],
     r_Host = ''qg:8080'', r_Header = [], r_Body = \<lparr>stream_data = body, stream_broken = False\<rparr>,
     r_ContentLength = int (length body), ctx_clientHost = None, ctx_requestID = None\<rparr>"

definition demo_state :: "Response list HandlerState" where
  "demo_state = \<lparr>st_World = demo_script, st_Metrics = Some NewMetrics, st_Audit = []\<rparr>"

lemma demo_simps [simp]:
  "r_Body (demo_request b) = \<lparr>stream_data = b, stream_broken = False\<rparr>" "r_Header (demo_request b) = []"
  "r_Method (demo_request b) = ''POST''" "r_Path (demo_request b) = ''/v1/statement''"
  "st_Metrics demo_state = Some NewMetrics" "st_Audit demo_state = []"
  "policy_of demo_env w = demo_policy" "policy_of demo_trino w = demo_policy"
  "interfere demo_env w = w" "interfere demo_trino w = w"
  by (simp_all add: demo_request_def demo_state_def demo_env_def demo_trino_def)

lemma demo_drop_query: "inspected (demo_request ''drop table t;'')"
    "inspected_query (demo_request ''drop table t;'') = ''drop table t''"
    "Classify ''drop table t'' = StatementDrop"
  by (simp_all add: inspected_def inspected_query_def maxStatementBodyBytes_def semicolon_blanks_def go_eval
      Classify_def extractVerb_def strip_comments.simps runes_ascii encode_rune_def unicode_ToUpper_def
      verbClass_def TrimRight_def)

lemma demo_blocked: "tier1_verdict demo_policy ((empty_result StatementDrop)\<lparr>Tables := ts\<rparr>) = Some ReasonStatementBlocklist"
  by (simp add: tier1_verdict_def statement_blocked_def demo_policy_def EqualFold_refl)

section \<open>Termination\<close>

lemma tier2_returns:
  assumes "evaluator env = Some evaluate" and "\<And>q h g m w. evaluate q h g m w \<noteq> None"
  shows "tier2 env h q st \<noteq> None"
  using assms by (simp add: tier2_def Let_def split: option.split prod.split sum.split)

lemma handleStatement_defined:
  assumes "evaluator env = Some evaluate" and "\<And>q h g m w. evaluate q h g m w \<noteq> None"
  shows "handleStatement env r st \<noteq> None"
proof -
  have tiers: "evaluate_tiers env r body q res st \<noteq> None" for r body q res st
  proof -
    obtain x st' where "tier2 env (r_Header r) q (yield_world env (yield_world env st)) = Some (x, st')"
      using tier2_returns [OF assms] by fastforce
    then show ?thesis by (simp add: evaluate_tiers_def Let_def split: prod.split sum.split)
  qed
  then have "handle_query env r body q st \<noteq> None" for r body q st
    by (simp add: handle_query_def split: sum.split)
  then show ?thesis by (simp add: handleStatement_def Let_def)
qed

lemma trino_defined:
  assumes "deadline c budget"
  shows "\<exists>reply st'. handleStatement (trino_env c json flatten env) r st = Some (reply, st')"
proof -
  have "Evaluate c json flatten (policy_of env) q h g m w \<noteq> None" for q h g m w
    using Evaluate_returns [OF assms] by fastforce
  from handleStatement_defined [OF trino_env_simps(1) this]
  have "handleStatement (trino_env c json flatten env) r st \<noteq> None" .
  then show ?thesis by auto
qed

lemma demo_defined: "\<exists>reply st'. handleStatement demo_trino r st = Some (reply, st')"
  unfolding demo_trino_def by (rule trino_defined [OF script_deadline])

text \<open>C8. Every statement is answered: with the Trino evaluator under a deadline the handler returns a reply,
  whatever the request, the policy, the concurrent reloads and the answers of the upstream.\<close>

theorem statements_answered:
  assumes "deadline c budget"
  shows "\<exists>reply st'. handleStatement (trino_env c json flatten env) r st = Some (reply, st')"
  by (rule trino_defined [OF assms])

lemma statements_answered_witness:
  "\<exists>reply st'. handleStatement (trino_env (script_client demo_page) (demo_json (demo_io [])) id demo_env)
    (demo_request ''drop table t;'') demo_state = Some (reply, st')"
  by (rule statements_answered [OF script_deadline])

section \<open>Rejected or forwarded\<close>

lemma reject_status [simp]: "reply_Status (reject r reason msg) = 400"
  by (simp add: reject_def WriteRejection_def)

lemma rejected_in_tiers:
  assumes "handleStatement env r st = Some (reply, st')" and "rejection_of reply = Some x"
  obtains res where "inspected r" and "\<not> IsBypass (Classify (inspected_query r))"
    and "Analyze (parse_sql env) (inspected_query r) = Inr res" and "result_class res = Classify (inspected_query r)"
    and "tiers_outcome env (WithRequestID (request_id env r st) r) (stream_data (r_Body r)) (inspected_query r) res
      (yield_world env st) (reply, st')"
  using assms(1)
proof (cases rule: handleStatement_cases)
  case (uninspected r')
  then show ?thesis using assms(2) by (metis fst_conv option.distinct(1) rejection_of_simps(1))
next
  case bypass
  then show ?thesis using assms(2) by (metis fst_conv option.distinct(1) rejection_of_simps(2))
next
  case (tiers res)
  then show ?thesis using that by blast
qed

lemma rejections_cause:
  assumes "handleStatement (trino_env c json flatten env) r st = Some (reply, st')"
    and "rejection_of reply = Some x"
  shows "reply_Status reply = 400 \<and> rr_RequestID x = request_id env r st \<and> evaluated r \<and>
    (\<exists>res. Analyze (parse_sql env) (inspected_query r) = Inr res \<and>
      (tier1_verdict (policy_of env (interfere env (st_World st))) res = Some (rr_Reason x) \<or>
       rr_Reason x = ReasonCostLimitBreach \<and> Classify (inspected_query r) = StatementSelect \<and>
       (\<exists>w' m' cost. Evaluate c json flatten (policy_of env) (inspected_query r) (r_Header r) True (st_Metrics st)
           (interfere env (interfere env (interfere env (st_World st)))) = Some (Inr cost, m', w') \<and>
         \<not> list_all (within_limit (EstimatedScanBytes cost) (TableScans cost) (EstimatedCPUCost cost))
           (CostLimits (Rules (policy_of env w'))))))"
proof -
  from assms obtain res where res: "inspected r" "\<not> IsBypass (Classify (inspected_query r))"
    "Analyze (parse_sql env) (inspected_query r) = Inr res" "result_class res = Classify (inspected_query r)"
    and "tiers_outcome (trino_env c json flatten env) (WithRequestID (request_id env r st) r) (stream_data (r_Body r))
      (inspected_query r) res (yield_world (trino_env c json flatten env) st) (reply, st')"
    by (elim rejected_in_tiers) auto
  from this(5) show ?thesis
  proof cases
    case (tier1_rejects reason msg)
    then have "tier1_verdict (policy_of env (interfere env (st_World st))) res = Some reason"
      using tier1_verdict [of "policy_of env (interfere env (st_World st))" res] by simp
    then show ?thesis using tier1_rejects assms(2) res by (auto simp: evaluated_def)
  next
    case (tier2_rejects reason cost st1)
    let ?w = "interfere env (interfere env (interfere env (st_World st)))"
    have "\<exists>w' m' cost. Evaluate c json flatten (policy_of env) (inspected_query r) (r_Header r) True (st_Metrics st) ?w
        = Some (Inr cost, m', w') \<and> \<not> list_all (within_limit (EstimatedScanBytes cost) (TableScans cost)
          (EstimatedCPUCost cost)) (CostLimits (Rules (policy_of env w')))"
      using trino.tier2_breach [OF trino_env_simps(1) tier2_rejects(5)] by (auto simp: list_all_iff)
    moreover have "Classify (inspected_query r) = StatementSelect"
      using tier2_rejects(4) res(4) by (simp add: shouldPreflight_def split: if_splits)
    ultimately show ?thesis using tier2_rejects(1) assms(2) res by (auto simp: evaluated_def)
  next
    case (tiers_forward st1)
    then show ?thesis using assms(2) by (metis fst_conv option.distinct(1) rejection_of_simps(2))
  qed
qed

lemma forwarded_request:
  "r_Method ((WithRequestID i r)\<lparr>r_Body := b, r_ContentLength := n\<rparr>) = r_Method r"
  "r_Path ((WithRequestID i r)\<lparr>r_Body := b, r_ContentLength := n\<rparr>) = r_Path r"
  "r_Header ((WithRequestID i r)\<lparr>r_Body := b, r_ContentLength := n\<rparr>) = r_Header r"
  "stream_data (r_Body ((WithRequestID i r)\<lparr>r_Body := \<lparr>stream_data = d, stream_broken = x\<rparr>, r_ContentLength := n\<rparr>)) = d"
  by (simp_all add: WithRequestID_def)

lemma demo_rejected:
  "\<exists>st'. handleStatement demo_trino (demo_request ''drop table t;'') demo_state =
    Some (reject (WithRequestID ''id-1'' (demo_request ''drop table t;'')) ReasonStatementBlocklist
      (Tier1Message (StatementBlocked StatementDrop)), st') \<and> st_World st' = demo_script"
proof -
  have parse: "parse_sql demo_trino = (\<lambda>s. None)" and no: "\<not> IsBypass StatementDrop"
    and id: "request_id demo_trino (demo_request b) demo_state = ''id-1''" for b
    by (simp_all add: demo_trino_def demo_env_def IsBypass_def request_id_def header_Get_def header_values_def)
  have "tier1 demo_policy ((empty_result StatementDrop)\<lparr>Tables := ts\<rparr>) =
      (ReasonStatementBlocklist, StatementBlocked StatementDrop, False)" for ts
    by (simp add: tier1_def check_statement_def demo_policy_def EqualFold_refl)
  then show ?thesis
    by (simp add: handleStatement_inspected demo_drop_query handle_query_def Analyze_unparsed no parse id
        evaluate_tiers_def) (simp add: demo_state_def)
qed

text \<open>C3. Statements are rejected for cause only: a rejection is a 400 that carries the request's identifier,
  and the statement was read completely, is no bypass statement, and either violates the Tier 1 stage
  named as the reason under the policy then in force, or is a SELECT for which the engine reported
  estimates beyond a limit of the policy in force when they arrived.\<close>

theorem rejections_have_cause:
  assumes "handleStatement (trino_env c json flatten env) r st = Some (reply, st')"
    and "rejection_of reply = Some x"
  shows "reply_Status reply = 400 \<and> rr_RequestID x = request_id env r st \<and> evaluated r \<and>
    (\<exists>res. Analyze (parse_sql env) (inspected_query r) = Inr res \<and>
      (tier1_verdict (policy_of env (interfere env (st_World st))) res = Some (rr_Reason x) \<or>
       rr_Reason x = ReasonCostLimitBreach \<and> Classify (inspected_query r) = StatementSelect \<and>
       (\<exists>w' m' cost. Evaluate c json flatten (policy_of env) (inspected_query r) (r_Header r) True (st_Metrics st)
           (interfere env (interfere env (interfere env (st_World st)))) = Some (Inr cost, m', w') \<and>
         \<not> list_all (within_limit (EstimatedScanBytes cost) (TableScans cost) (EstimatedCPUCost cost))
           (CostLimits (Rules (policy_of env w'))))))"
  by (rule rejections_cause [OF assms])

lemma rejections_have_cause_witness:
  "\<exists>res. Analyze (parse_sql demo_env) ''drop table t'' = Inr res \<and> tier1_verdict demo_policy res = Some ReasonStatementBlocklist"
proof -
  obtain st' where run: "handleStatement demo_trino (demo_request ''drop table t;'') demo_state =
    Some (reject (WithRequestID ''id-1'' (demo_request ''drop table t;'')) ReasonStatementBlocklist
      (Tier1Message (StatementBlocked StatementDrop)), st')" using demo_rejected by blast
  show ?thesis
    using rejections_have_cause [OF run [unfolded demo_trino_def] rejection_of_simps(3)]
    by (auto simp: demo_drop_query)
qed

lemma forwarded_served:
  assumes "handleStatement env r st = Some (reply, st')" and "rejection_of reply = None"
  shows "\<exists>r' st1. (reply, st') = serve_upstream env r' st1 \<and> r_Method r' = r_Method r \<and> r_Path r' = r_Path r \<and>
    r_Header r' = r_Header r \<and> stream_data (r_Body r') = stream_data (r_Body r)"
  using assms(1)
proof (cases rule: handleStatement_cases)
  case (uninspected r')
  then show ?thesis unfolding replayed_def by metis
next
  case bypass
  then show ?thesis unfolding forward_def by (metis forwarded_request)
next
  case (tiers res)
  from tiers(5) show ?thesis
  proof cases
    case (tiers_forward st1)
    then show ?thesis unfolding forward_def by (metis forwarded_request)
  qed (use assms(2) in simp_all)
qed



lemma rejected_by_tier1:
  assumes "evaluated r" and "Analyze (parse_sql env) (inspected_query r) = Inr res"
    and "tier1_verdict (policy_of env (interfere env (st_World st))) res = Some reason"
  shows "\<exists>reply st' x. handleStatement env r st = Some (reply, st') \<and> rejection_of reply = Some x \<and>
    rr_Reason x = reason \<and> reply_Status reply = 400 \<and> st_World st' = interfere env (interfere env (st_World st))"
proof -
  obtain why msg allow where t1: "tier1 (policy_of env (interfere env (st_World st))) res = (why, msg, allow)"
    by (metis prod_cases3)
  with tier1_verdict [of "policy_of env (interfere env (st_World st))" res] assms(3)
  have "\<not> allow" "why = reason" by auto
  with t1 assms(1,2) have "handleStatement env r st = Some (reject (WithRequestID (request_id env r st) r) reason (Tier1Message msg),
      record_status env StatusBlocked (auditRejection env (WithRequestID (request_id env r st) r) (inspected_query r)
        reason res None (yield_world env (yield_world env st))))"
    using Analyze_classified [of "parse_sql env" "inspected_query r"]
    by (auto simp: evaluated_def handleStatement_inspected handle_query_def evaluate_tiers_def)
  then show ?thesis by simp
qed

text \<open>C4. Tier 1 is enforced before anything leaves the process.  For a statement whose body was read to its end,
  has at most 8 MiB, is not blank and whose class is none of the bypass classes (SHOW, DESCRIBE, EXPLAIN, USE and SET, which no
  tier inspects): when it violates Tier 1 under the policy in force, it is answered by the rejection, whatever the
  evaluator would say, and the only thing that acts on the world on the way is the rest of the process, never the
  transport.\<close>

theorem tier1_enforced:
  assumes "evaluated r" and "Analyze (parse_sql env) (inspected_query r) = Inr res"
    and "tier1_verdict (policy_of env (interfere env (st_World st))) res = Some reason"
  shows "\<exists>reply st' x. handleStatement env r st = Some (reply, st') \<and> rejection_of reply = Some x \<and>
    rr_Reason x = reason \<and> reply_Status reply = 400 \<and> st_World st' = interfere env (interfere env (st_World st))"
  by (rule rejected_by_tier1 [OF assms])

lemma tier1_enforced_witness:
  "\<exists>reply st' x. handleStatement demo_env (demo_request ''drop table t;'') demo_state = Some (reply, st') \<and>
    rejection_of reply = Some x \<and> rr_Reason x = ReasonStatementBlocklist \<and> st_World st' = demo_script"
proof -
  have "evaluated (demo_request ''drop table t;'')"
    by (simp add: evaluated_def demo_drop_query IsBypass_def)
  moreover have "Analyze (parse_sql demo_env) (inspected_query (demo_request ''drop table t;'')) =
      Inr ((empty_result StatementDrop)\<lparr>Tables := extractTableNamesRaw ''drop table t'' []\<rparr>)"
    by (simp add: demo_drop_query Analyze_unparsed IsBypass_def demo_env_def)
  ultimately show ?thesis using tier1_enforced [of "demo_request ''drop table t;''" demo_env _ demo_state]
    by (fastforce simp: demo_blocked demo_state_def)
qed

text \<open>A bypass statement is forwarded whatever the policy and the evaluator: the handler consults neither, and
  counts it as bypassed.\<close>

lemma bypass_ungoverned:
  assumes "inspected r" and "IsBypass (Classify (inspected_query r))"
  shows "handleStatement (env\<lparr>policy_of := pol, evaluator := e\<rparr>) r st = handleStatement env r st \<and>
    (\<exists>r'. replayed r r' \<and> handleStatement env r st = Some (serve_upstream env r' (record_status env StatusBypassed st)))"
proof -
  have "request_id (env\<lparr>policy_of := pol, evaluator := e\<rparr>) r st = request_id env r st"
    by (simp add: request_id_def)
  moreover have "replayed r (WithRequestID i r\<lparr>r_Body := \<lparr>stream_data = stream_data (r_Body r), stream_broken = b\<rparr>,
      r_ContentLength := n\<rparr>)" for i b n
    by (simp add: replayed_def)
  ultimately show ?thesis using assms
    by (auto simp: handleStatement_inspected handle_query_bypass forward_def serve_upstream_def record_status_def)
qed

text \<open>
  The classification skips a comment that it takes to be closed where it opens: \<open>/*/ SHOW */ DELETE\<close> is a
  SHOW statement to it, and a DELETE to the engine.
\<close>

lemma comment_bypass:
  "inspected (demo_request ''/*/ SHOW */ DELETE FROM t'')"
  "inspected_query (demo_request ''/*/ SHOW */ DELETE FROM t'') = ''/*/ SHOW */ DELETE FROM t''"
  "Classify ''/*/ SHOW */ DELETE FROM t'' = StatementShow"
  by (simp_all add: inspected_def inspected_query_def maxStatementBodyBytes_def semicolon_blanks_def go_eval
      Classify_def extractVerb_def strip_comments.simps runes_ascii encode_rune_def unicode_ToUpper_def
      verbClass_def TrimRight_def)

lemma bypass_ungoverned_witness:
  "\<exists>r'. stream_data (r_Body r') = ''/*/ SHOW */ DELETE FROM t'' \<and>
    handleStatement demo_env (demo_request ''/*/ SHOW */ DELETE FROM t'') demo_state =
      Some (serve_upstream demo_env r' (record_status demo_env StatusBypassed demo_state))"
  using bypass_ungoverned [OF comment_bypass(1), where env = demo_env and st = demo_state]
  by (auto simp: comment_bypass IsBypass_def replayed_def)

section \<open>Routing\<close>

text \<open>The guard stands before the statement endpoint and nothing else: a POST to \<open>/v1/statement\<close> always
  takes the path of \<open>handleStatement\<close>; every other request is answered, never rejected, and neither counted
  nor audited.\<close>

lemma guarded_endpoint:
  "if r_Method r = ''POST'' \<and> r_Path r = ''/v1/statement''
   then ServeHTTP probe env r st = handleStatement env r st
   else (\<exists>reply st'. ServeHTTP probe env r st = Some (reply, st') \<and> rejection_of reply = None \<and>
     st_Metrics st' = st_Metrics st \<and> st_Audit st' = st_Audit st)"
proof (cases "r_Method r = ''POST'' \<and> r_Path r = ''/v1/statement''")
  case True
  then show ?thesis by (simp add: ServeHTTP_def route_of_def)
next
  case False
  then have "route_of env r st \<noteq> StatementEndpoint" by (auto simp: route_of_def)
  moreover have "rejection_of (text_reply s b h) = None" for s b h
    by (simp add: rejection_of_def text_reply_def)
  ultimately show ?thesis using False rejection_of_simps(1) [of env r st] audit_steps(7) [of env r st] metrics_steps(3) [of env r st]
    by (cases "route_of env r st"; cases "serve_upstream env r st")
      (auto simp: ServeHTTP_def handleHealthz_def handleReadyz_def http_Error_def rejection_of_def metrics_Handler_def
        split: prod.split option.split)
qed

text \<open>
  With telemetry disabled the metrics are not unreachable: their path is then the empty string, which an
  absolute-form request without a path has.
\<close>

lemma disabled_metrics_served:
  "\<not> telemetry_Enabled (Telemetry (policy_of env (st_World st))) \<Longrightarrow> st_Metrics st \<noteq> None \<Longrightarrow>
    r_Method r = ''GET'' \<Longrightarrow> r_Path r = [] \<Longrightarrow>
    ServeHTTP probe env r st = Some (\<lparr>reply_Status = 200, reply_Header = [], reply_Body = MetricsText\<rparr>, st)"
  by (auto simp: ServeHTTP_def route_of_def metricsPath_def metrics_Handler_def)

section \<open>Statements the parser cannot read\<close>

text \<open>The documents call the fallback for a statement that the parser rejects fail-open.  The code extracts its
  tables all the same, so a blocklisted table still blocks it, and a guarded table blocks it whatever its
  WHERE clause says, since no filter is seen.\<close>

lemma unparsed_still_guarded:
  assumes "evaluated r" and "parse_sql env (normalizeForVitess (inspected_query r)) = None"
    and "t \<in> set (extractTableNamesRaw (inspected_query r) [])"
    and "list_ex (tableBlocklisted t) (TableBlocklist (Rules p)) \<or>
      list_ex (\<lambda>rf. requiredFilterMatches t rf \<and> filter_Columns rf \<noteq> []) (RequiredFilters (Rules p))"
    and "p = policy_of env (interfere env (st_World st))"
  shows "\<exists>reply st'. handleStatement env r st = Some (reply, st') \<and> rejection_of reply \<noteq> None \<and>
    st_World st' = interfere env (interfere env (st_World st))"
proof -
  let ?res = "(empty_result (Classify (inspected_query r)))\<lparr>Tables := extractTableNamesRaw (inspected_query r) []\<rparr>"
  have res: "Analyze (parse_sql env) (inspected_query r) = Inr ?res"
    using assms(1,2) by (simp add: Analyze_unparsed evaluated_def)
  have "tableHasFilter ?res t col = False" for t col
    by (simp add: tableHasFilter_def)
  then have "filter_satisfied ?res t rf \<longleftrightarrow> filter_Columns rf = []" for t rf
    by (auto simp: filter_satisfied_def list_all_iff list_ex_iff filter_empty_conv)
  then have "table_blocked (TableBlocklist (Rules p)) ?res \<or> \<not> filters_satisfied p ?res"
    using assms(3,4) by (auto simp: table_blocked_def filters_satisfied_def list_ex_iff)
  then have "tier1_verdict p ?res \<noteq> None" by (auto simp: tier1_verdict_def)
  then obtain reason where "tier1_verdict p ?res = Some reason" by blast
  with rejected_by_tier1 [OF assms(1) res] assms(5) show ?thesis by fastforce
qed

lemma demo_select_query: "inspected (demo_request ''select k from hive.secret.keys'')"
    "inspected_query (demo_request ''select k from hive.secret.keys'') = ''select k from hive.secret.keys''"
    "Classify ''select k from hive.secret.keys'' = StatementSelect"
  by (simp_all add: inspected_def inspected_query_def maxStatementBodyBytes_def semicolon_blanks_def go_eval
      Classify_def extractVerb_def strip_comments.simps runes_ascii encode_rune_def unicode_ToUpper_def
      verbClass_def TrimRight_def)

lemma demo_select_tokens:
  "tokenizeRaw ''select k from hive.secret.keys'' = [''select'', ''k'', ''from'', ''hive.secret.keys'']"
  by (simp add: tokenizeRaw_def tokenize_loop_lex go_eval)

lemma demo_select_tables:
  "extractTableNamesRaw ''select k from hive.secret.keys'' [] = [''hive.secret.keys'']"
  by (simp add: extractTableNamesRaw_candidates demo_select_tokens candidates_eval go_eval)

lemma unparsed_still_guarded_witness:
  "\<exists>reply st'. handleStatement demo_env (demo_request ''select k from hive.secret.keys'') demo_state =
    Some (reply, st') \<and> rejection_of reply \<noteq> None"
proof -
  have "evaluated (demo_request ''select k from hive.secret.keys'')"
    by (simp add: evaluated_def demo_select_query IsBypass_def)
  moreover have "list_ex (tableBlocklisted ''hive.secret.keys'') (TableBlocklist (Rules demo_policy))"
    by (simp add: demo_policy_def tableBlocklisted_def EqualFold_refl)
  ultimately show ?thesis
    using unparsed_still_guarded [of "demo_request ''select k from hive.secret.keys''" demo_env "''hive.secret.keys''"
        demo_policy demo_state]
    by (auto simp: demo_select_query demo_select_tables demo_env_def)
qed

section \<open>Accounting and audit\<close>

text \<open>Every statement is counted exactly once, under the engine's label: as blocked when it is rejected, as
  allowed when it was evaluated and forwarded, and as bypassed otherwise; no other counter of queries
  moves.\<close>

lemma statements_counted_once:
  assumes "handleStatement (trino_env c json flatten env) r st = Some (reply, st')" and "st_Metrics st \<noteq> None"
  shows "query_count (st_Metrics st') s e = query_count (st_Metrics st) s e +
    (if s = status_of_reply (evaluated r) reply \<and> e = ''trino'' then 1 else 0)"
  using trino.statement_accounting [of "trino_env c json flatten env", OF _ _ assms(2,1)] by simp

lemma statements_counted_once_witness:
  "\<exists>reply st'. handleStatement demo_trino (demo_request ''drop table t;'') demo_state = Some (reply, st') \<and>
    query_count (st_Metrics st') StatusBlocked ''trino'' = 1"
proof -
  obtain reply st' where run: "handleStatement demo_trino (demo_request ''drop table t;'') demo_state = Some (reply, st')"
    and no: "rejection_of reply \<noteq> None"
    using demo_rejected by force
  have "query_count (Some NewMetrics) s e = 0" for s e by (simp add: query_count_def NewMetrics_def)
  then show ?thesis
    using statements_counted_once [OF run [unfolded demo_trino_def], of StatusBlocked "''trino''"] run no
    by (auto simp: status_of_reply_def)
qed

text \<open>C19. The audit log records rejections and nothing else: a forwarded statement leaves it as it was; a
  rejected one adds at most one entry, with the query, the tables and the reason of the rejection, the
  user's name and the request's identifier, and with a plan snapshot only when the reason is a cost limit.\<close>

theorem audit_records_rejections:
  assumes "handleStatement (trino_env c json flatten env) r st = Some (reply, st')"
  shows "case rejection_of reply of
      None \<Rightarrow> st_Audit st' = st_Audit st
    | Some x \<Rightarrow> \<exists>w res cost. Analyze (parse_sql env) (inspected_query r) = Inr res \<and>
        (cost = None \<or> rr_Reason x = ReasonCostLimitBreach) \<and>
        st_Audit st' = st_Audit st @ audit_entry env w (inspected_query r) (WithRequestID (rr_RequestID x) r)
          res (rr_Reason x) cost"
proof -
  have "audit_entry (trino_env c json flatten env) = audit_entry env"
    by (simp add: audit_entry_def fun_eq_iff)
  moreover have "evaluator (trino_env c json flatten env) \<in> {None, Some (Evaluate c json flatten (policy_of env))}"
    by simp
  ultimately show ?thesis
    using trino.statement_audit [OF _ assms] by (fastforce split: option.splits)
qed

lemma audit_records_rejections_witness:
  "\<exists>reply st'. handleStatement demo_trino (demo_request ''drop table t;'') demo_state = Some (reply, st') \<and>
    map au_Query (st_Audit st') = [''drop table t''] \<and> map au_RequestID (st_Audit st') = [''id-1'']"
proof -
  obtain reply st' x where run: "handleStatement demo_trino (demo_request ''drop table t;'') demo_state = Some (reply, st')"
    and no: "rejection_of reply = Some x" "rr_RequestID x = ''id-1''"
    using demo_rejected by force
  have "LogRejections (Audit demo_policy)" by (simp add: demo_policy_def)
  then show ?thesis
    using audit_records_rejections [OF run [unfolded demo_trino_def]] run no
    by (auto simp: audit_entry_def demo_drop_query)
qed

section \<open>The decision as a specification\<close>

text \<open>What the guard promises about a statement: a function of the policy, the statement and the estimates.\<close>

datatype decision = Forward | Reject RejectionReason

definition decision_of :: "Reply \<Rightarrow> decision" where
  "decision_of reply = (case rejection_of reply of None \<Rightarrow> Forward | Some x \<Rightarrow> Reject (rr_Reason x))"

definition cost_decision :: "Policy \<Rightarrow> CostResult option \<Rightarrow> decision" where
  "cost_decision p estimates = (case estimates of
     None \<Rightarrow> Forward
   | Some cost \<Rightarrow>
       if list_all (within_limit (EstimatedScanBytes cost) (TableScans cost) (EstimatedCPUCost cost))
            (CostLimits (Rules p))
       then Forward else Reject ReasonCostLimitBreach)"

definition guard_spec ::
  "Policy \<Rightarrow> (string \<Rightarrow> Statement option) \<Rightarrow> CostResult option \<Rightarrow> string \<Rightarrow> decision" where
  "guard_spec p parse estimates query =
     (if IsBypass (Classify query) then Forward
      else case Analyze parse query of
          Inl e \<Rightarrow> Forward
        | Inr res \<Rightarrow> case tier1_verdict p res of
            Some reason \<Rightarrow> Reject reason
          | None \<Rightarrow> if Classify query = StatementSelect then cost_decision p estimates else Forward)"

text \<open>The estimates the evaluator reports for the statement, if it completes.\<close>

definition reported :: "'w Env \<Rightarrow> ProxyRequest \<Rightarrow> 'w HandlerState \<Rightarrow> CostResult option" where
  "reported env r st =
     (let w = interfere env (interfere env (interfere env (st_World st)))
      in case evaluator env of
          None \<Rightarrow> None
        | Some evaluate \<Rightarrow>
            case evaluate (inspected_query r) (r_Header r) (gate_open env w) (st_Metrics st) w of
              Some (Inr cost, m, w') \<Rightarrow> Some cost
            | _ \<Rightarrow> None)"

lemma decision_of_simps [simp]:
  "decision_of (fst (serve_upstream env r st)) = Forward" "decision_of (fst (forward env r body st)) = Forward"
  "decision_of (reject r reason msg) = Reject reason"
  by (simp_all add: decision_of_def)

context cost_evaluator
begin

lemma tier2_decision:
  assumes "evaluator env = Some evaluate" and "tier2 env h q st = Some (x, st')"
    and "\<And>w. limits w = CostLimits (Rules p)"
  shows "cost_decision p (case evaluate q h (gate_open env (st_World st)) (st_Metrics st) (st_World st) of
        Some (Inr cost, m, w') \<Rightarrow> Some cost | _ \<Rightarrow> None) =
    (if \<exists>reason cost. x = Inr (False, reason, cost) then Reject ReasonCostLimitBreach else Forward)"
proof -
  from assms obtain y m w where run:
    "evaluate q h (gate_open env (st_World st)) (st_Metrics st) (st_World st) = Some (y, m, w)"
    by (auto simp: tier2_def split: option.splits)
  have "x = (case y of Inl e \<Rightarrow> Inl e
      | Inr cost \<Rightarrow> Inr (Allowed cost, if Allowed cost then NoReason else Reason cost, cost))"
    using assms(1,2) run by (auto simp: tier2_def Let_def split: sum.splits if_splits)
  with run verdict [of q h _ _ _ _ m w] assms(3) show ?thesis
    by (cases y) (auto simp: cost_decision_def)
qed

lemma guard_refines:
  assumes "evaluator env = Some evaluate" and "\<And>w. policy_of env w = p"
    and "\<And>w. limits w = CostLimits (Rules p)" and "handleStatement env r st = Some (reply, st')"
  shows "decision_of reply =
    (if inspected r then guard_spec p (parse_sql env) (reported env r st) (inspected_query r) else Forward)"
  using assms(4)
proof (cases rule: handleStatement_cases)
  case (uninspected r')
  then show ?thesis by (metis decision_of_simps(1) fst_conv)
next
  case bypass
  then show ?thesis by (simp add: guard_spec_def) (metis decision_of_simps(2) fst_conv)
next
  case (tiers res)
  have allowed: "snd (snd (tier1 p res)) \<longleftrightarrow> tier1_verdict p res = None" by (rule tier1_allows_iff)
  let ?st = "yield_world env (yield_world env (yield_world env st))"
  have est: "reported env r st = (case evaluate (inspected_query r) (r_Header r) (gate_open env (st_World ?st))
      (st_Metrics ?st) (st_World ?st) of Some (Inr cost, m, w') \<Rightarrow> Some cost | _ \<Rightarrow> None)"
    by (simp add: reported_def assms(1) Let_def)
  from tiers(5) show ?thesis
  proof cases
    case (tier1_rejects reason msg)
    then have "tier1_verdict p res = Some reason"
      using tier1_verdict [of p res] assms(2) by simp
    then show ?thesis using tier1_rejects tiers by (simp add: guard_spec_def)
  next
    case (tier2_rejects reason cost st1)
    then have "Classify (inspected_query r) = StatementSelect"
      using tiers(4) by (simp add: shouldPreflight_def split: if_splits)
    moreover have "cost_decision p (reported env r st) = Reject ReasonCostLimitBreach"
      unfolding est using tier2_decision [OF assms(1) _ assms(3), of "r_Header r" "inspected_query r" ?st] tier2_rejects(5) by auto
    ultimately show ?thesis using tier2_rejects tiers allowed assms(2) by (simp add: guard_spec_def)
  next
    case (tiers_forward st1)
    have "Classify (inspected_query r) = StatementSelect \<Longrightarrow> cost_decision p (reported env r st) = Forward"
      using tiers_forward(3)
    proof (elim disjE conjE exE)
      assume "Classify (inspected_query r) = StatementSelect"
        and "\<not> shouldPreflight env (yield_world env (yield_world env st)) (result_class res)"
      then have "CostLimits (Rules p) = []" using tiers(4) assms(1,2) by (auto simp: shouldPreflight_def)
      then show ?thesis by (simp add: cost_decision_def split: option.split)
    next
      fix x assume "tier2 env (r_Header (WithRequestID (request_id env r st) r)) (inspected_query r) ?st = Some (x, st1)"
        and "\<forall>reason cost. x \<noteq> Inr (False, reason, cost)"
      then show ?thesis
        unfolding est using tier2_decision [OF assms(1) _ assms(3), of "r_Header r" "inspected_query r" ?st] by auto
    qed
    moreover have "decision_of reply = Forward" using tiers_forward(1) by (metis decision_of_simps(2) fst_conv)
    ultimately show ?thesis using tiers tiers_forward(2) allowed assms(2) by (simp add: guard_spec_def)
  qed
qed

end

text \<open>C1. While the policy stands, the handler implements the specification of the guard: whether it rejects, and
  the reason it gives, is \<open>guard_spec\<close> of the policy, the statement without its trailing semicolons, and the
  estimates Trino reports; a statement it does not inspect is forwarded.\<close>

theorem guard_implements_spec:
  assumes "\<forall>w. policy_of env w = p" and "handleStatement (trino_env c json flatten env) r st = Some (reply, st')"
  shows "decision_of reply =
    (if inspected r then guard_spec p (parse_sql env) (reported (trino_env c json flatten env) r st) (inspected_query r)
     else Forward)"
  using trino.guard_refines [OF trino_env_simps(1) _ _ assms(2), of p] assms(1) by simp

lemma guard_implements_spec_witness:
  "\<exists>reply st'. handleStatement demo_trino (demo_request ''drop table t;'') demo_state = Some (reply, st') \<and>
    decision_of reply = guard_spec demo_policy (parse_sql demo_env)
      (reported demo_trino (demo_request ''drop table t;'') demo_state) ''drop table t''"
proof -
  obtain reply st' where run: "handleStatement demo_trino (demo_request ''drop table t;'') demo_state = Some (reply, st')"
    using demo_defined by blast
  with guard_implements_spec [OF _ run [unfolded demo_trino_def], of demo_policy]
  show ?thesis by (auto simp: demo_drop_query demo_trino_def)
qed

end
