(* ===== verification/Handler_Program.thy ===== *)
theory Handler_Program
  imports Proxy_Properties
begin

text \<open>
  The handler of a statement as a program of atomic actions.  \<open>Proxy_Handler\<close> runs a request from start to end
  and lets the rest of the process act in between; here the same code is a tree of the accesses it makes
  to what the goroutines of the process share: the live policy, the gate, the metrics, the audit log, the
  clock, and the network.  \<open>run\<close> executes the tree in the environment of \<open>Proxy_Handler\<close>, and is shown to be
  \<open>handleStatement\<close>; \<open>resume\<close> takes one action at a time, which \<open>Request_System\<close> interleaves.
\<close>

section \<open>Actions\<close>

datatype metric_event =
    QueryCounted QueryStatus string
  | ParserFailed
  | PreflightObserved int64
  | BytesBlocked int64
  | SaturationCounted
  | EstimatesMissing

primrec apply_metric :: "metric_event \<Rightarrow> Metrics option \<Rightarrow> Metrics option" where
  "apply_metric (QueryCounted status engine) m = RecordQuery status engine m"
| "apply_metric ParserFailed m = RecordParserError m"
| "apply_metric (PreflightObserved d) m = ObservePreflight d m"
| "apply_metric (BytesBlocked b) m = RecordBlockedBytes b m"
| "apply_metric SaturationCounted m = RecordPreflightRejected m"
| "apply_metric EstimatesMissing m = RecordPreflightNoTableEstimates m"

type_synonym statement_result = "(statement_error, string list) go_result"

text \<open>
  \<open>Answer\<close> ends a request with a reply of the handler, \<open>SendUpstream\<close> hands it to the reverse proxy.  \<open>TakeSlot\<close>
  is the select on the gate, whose outcome is a slot or the deadline.  \<open>Pause\<close> marks a point between two
  actions.
\<close>

datatype prog =
    Answer Reply
  | SendUpstream ProxyRequest
  | Pause prog
  | ReadPolicy "Policy \<Rightarrow> prog"
  | MintID "string \<Rightarrow> prog"
  | ReadClock "int64 \<Rightarrow> prog"
  | Record metric_event prog
  | LogRejection audit_record prog
  | TakeSlot "bool \<Rightarrow> prog"
  | FreeSlot prog
  | Shadow string string Header "statement_result \<Rightarrow> prog"

section \<open>The evaluator\<close>

text \<open>The slot is released when \<open>Evaluate\<close> returns, on every path behind the send.\<close>

definition verdict_prog ::
  "Json \<Rightarrow> (TableScan list \<Rightarrow> TableScan list) \<Rightarrow> ((eval_error, CostResult) go_result \<Rightarrow> prog)
     \<Rightarrow> statement_result \<Rightarrow> prog" where
  "verdict_prog json flatten k result =
     (case result of
        Inl e \<Rightarrow> FreeSlot (k (Inl (PreflightStatement e)))
      | Inr cells \<Rightarrow>
          (case parsePlanCells json flatten cells of
             None \<Rightarrow> FreeSlot (k (Inl ParsePlan))
           | Some (scanBytes, rows, scans, cpuCost) \<Rightarrow> ReadPolicy (\<lambda>p.
               let (allowed, reason) = fst (evaluateLimits p scanBytes rows scans cpuCost None);
                   next = FreeSlot (k (Inr \<lparr>Allowed = allowed, EstimatedScanBytes = scanBytes,
                     EstimatedRows = rows, EstimatedCPUCost = cpuCost, TableScans = scans, Reason = reason,
                     cost_Engine = trinoEngineName\<rparr>))
               in if list_ex table_scoped (CostLimits (Rules p)) \<and> scans = [] then Record EstimatesMissing next
                  else next)))"

definition evaluate_prog ::
  "Json \<Rightarrow> (TableScan list \<Rightarrow> TableScan list) \<Rightarrow> string \<Rightarrow> Header
     \<Rightarrow> ((eval_error, CostResult) go_result \<Rightarrow> prog) \<Rightarrow> prog" where
  "evaluate_prog json flatten query headers k =
     ReadPolicy (\<lambda>p. TakeSlot (\<lambda>acquired.
       if \<not> acquired then k (Inl PreflightConcurrency)
       else Shadow (trim_upstream p @ engine_statementPath) (explainPrefix @ query) headers
         (verdict_prog json flatten k)))"

section \<open>The handler\<close>

definition forward_prog :: "string \<Rightarrow> QueryStatus \<Rightarrow> ProxyRequest \<Rightarrow> string \<Rightarrow> prog" where
  "forward_prog engine status r body = Record (QueryCounted status engine) (SendUpstream
     (r\<lparr>r_Body := \<lparr>stream_data = body, stream_broken = False\<rparr>, r_ContentLength := int (length body)\<rparr>))"

definition reject_prog ::
  "string \<Rightarrow> ProxyRequest \<Rightarrow> string \<Rightarrow> AnalysisResult \<Rightarrow> CostResult option \<Rightarrow> RejectionReason
     \<Rightarrow> rejection_message \<Rightarrow> prog" where
  "reject_prog engine r query res cost reason msg = Pause (ReadPolicy (\<lambda>p.
     let next = Record (QueryCounted StatusBlocked engine) (Answer (reject r reason msg))
     in if \<not> LogRejections (Audit p) then next
        else LogRejection
          \<lparr>au_Query = query, au_Reason = reason, au_Tables = Tables res, au_WhereColumns = WhereColumns res,
            au_User = header_Get (r_Header r) ''X-Trino-User'',
            au_ClientTags = header_Get (r_Header r) ''X-Trino-Client-Tags'',
            au_RequestID = FromContext r,
            au_Snapshot = (if SnapshotPlan (Audit p) then cost else None)\<rparr> next))"

text \<open>What \<open>tier2\<close> and its caller do with the result of the evaluator.\<close>

definition costed_prog ::
  "string \<Rightarrow> ProxyRequest \<Rightarrow> string \<Rightarrow> string \<Rightarrow> AnalysisResult \<Rightarrow> (eval_error, CostResult) go_result \<Rightarrow> prog"
where
  "costed_prog engine r body query res result = ReadClock (\<lambda>d. Record (PreflightObserved d)
     (case result of
        Inl err \<Rightarrow>
          if err = PreflightConcurrency
          then Record SaturationCounted (Pause (forward_prog engine StatusAllowed r body))
          else Pause (forward_prog engine StatusAllowed r body)
      | Inr cost \<Rightarrow>
          if \<not> Allowed cost
          then Record (BytesBlocked (EstimatedScanBytes cost))
            (reject_prog engine r query res (Some cost) ReasonCostLimitBreach (CostMessage (Reason cost)))
          else Pause (forward_prog engine StatusAllowed r body)))"

definition tier2_prog ::
  "Json \<Rightarrow> (TableScan list \<Rightarrow> TableScan list) \<Rightarrow> string \<Rightarrow> ProxyRequest \<Rightarrow> string \<Rightarrow> string \<Rightarrow> AnalysisResult \<Rightarrow> prog"
where
  "tier2_prog json flatten engine r body query res =
     evaluate_prog json flatten query (r_Header r) (costed_prog engine r body query res)"

definition tiers_prog ::
  "Json \<Rightarrow> (TableScan list \<Rightarrow> TableScan list) \<Rightarrow> string \<Rightarrow> ProxyRequest \<Rightarrow> string \<Rightarrow> string \<Rightarrow> AnalysisResult \<Rightarrow> prog"
where
  "tiers_prog json flatten engine r body query res = ReadPolicy (\<lambda>p.
     case tier1 p res of (reason, msg, allow) \<Rightarrow>
       if \<not> allow then reject_prog engine r query res None reason (Tier1Message msg)
       else Pause
         (if result_class res \<noteq> StatementSelect then Pause (forward_prog engine StatusAllowed r body)
          else ReadPolicy (\<lambda>p.
            if CostLimits (Rules p) \<noteq> [] then Pause (tier2_prog json flatten engine r body query res)
            else Pause (forward_prog engine StatusAllowed r body))))"

definition query_prog ::
  "(string \<Rightarrow> Statement option) \<Rightarrow> Json \<Rightarrow> (TableScan list \<Rightarrow> TableScan list) \<Rightarrow> string \<Rightarrow> ProxyRequest
     \<Rightarrow> string \<Rightarrow> string \<Rightarrow> prog" where
  "query_prog parse json flatten engine r body query =
     (case Analyze parse query of
        Inl err \<Rightarrow> Record ParserFailed (forward_prog engine StatusBypassed r body)
      | Inr res \<Rightarrow>
          if IsBypass (result_class res) then forward_prog engine StatusBypassed r body
          else Pause (tiers_prog json flatten engine r body query res))"

definition body_prog ::
  "(string \<Rightarrow> Statement option) \<Rightarrow> Json \<Rightarrow> (TableScan list \<Rightarrow> TableScan list) \<Rightarrow> string \<Rightarrow> ProxyRequest \<Rightarrow> prog"
where
  "body_prog parse json flatten engine r =
     (let body = take (maxStatementBodyBytes + 1) (stream_data (r_Body r))
      in if length body < maxStatementBodyBytes + 1 \<and> stream_broken (r_Body r) then
           forward_prog engine StatusBypassed r body
         else if maxStatementBodyBytes < length body then
           Record (QueryCounted StatusBypassed engine) (SendUpstream
             (r\<lparr>r_Body := \<lparr>stream_data = body @ drop (length body) (stream_data (r_Body r)),
                stream_broken = stream_broken (r_Body r)\<rparr>, r_ContentLength := - 1\<rparr>))
         else if TrimSpace body = [] then forward_prog engine StatusBypassed r body
         else query_prog parse json flatten engine r body (TrimRight (TrimSpace body) semicolon_blanks))"

definition statement_prog ::
  "(string \<Rightarrow> Statement option) \<Rightarrow> Json \<Rightarrow> (TableScan list \<Rightarrow> TableScan list) \<Rightarrow> string \<Rightarrow> ProxyRequest \<Rightarrow> prog"
where
  "statement_prog parse json flatten engine r0 =
     (let inbound = header_Get (r_Header r0) HeaderName
      in if inbound = [] then MintID (\<lambda>i. body_prog parse json flatten engine (WithRequestID i r0))
         else body_prog parse json flatten engine (WithRequestID inbound r0))"

section \<open>Running a program alone\<close>

text \<open>
  The shadow request is a function of the world; a client gives one.  \<open>evaluate_with\<close> is \<open>Evaluate\<close> over it, and
  \<open>shadow_env\<close> is \<open>trino_env\<close> over it.
\<close>

type_synonym 'w shadow = "string \<Rightarrow> string \<Rightarrow> Header \<Rightarrow> 'w \<Rightarrow> (statement_result \<times> 'w) option"

definition client_shadow :: "'w Client \<Rightarrow> 'w shadow" where
  "client_shadow c uri q h w = runStatement c uri ''POST'' q h w"

definition evaluate_with ::
  "'w shadow \<Rightarrow> Json \<Rightarrow> (TableScan list \<Rightarrow> TableScan list) \<Rightarrow> ('w \<Rightarrow> Policy) \<Rightarrow> 'w evaluator" where
  "evaluate_with shadow json flatten pol query headers acquired metrics w =
     (if \<not> acquired then Some (Inl PreflightConcurrency, metrics, w)
      else case shadow (trim_upstream (pol w) @ engine_statementPath) (explainPrefix @ query) headers w of
          None \<Rightarrow> None
        | Some (Inl e, w') \<Rightarrow> Some (Inl (PreflightStatement e), metrics, w')
        | Some (Inr cells, w') \<Rightarrow>
            (case parsePlanCells json flatten cells of
               None \<Rightarrow> Some (Inl ParsePlan, metrics, w')
             | Some (scanBytes, rows, scans, cpuCost) \<Rightarrow>
                 (case evaluateLimits (pol w') scanBytes rows scans cpuCost metrics of
                    ((allowed, reason), metrics') \<Rightarrow>
                      Some (Inr \<lparr>Allowed = allowed, EstimatedScanBytes = scanBytes, EstimatedRows = rows,
                        EstimatedCPUCost = cpuCost, TableScans = scans, Reason = reason,
                        cost_Engine = trinoEngineName\<rparr>, metrics', w'))))"

definition shadow_env :: "'w shadow \<Rightarrow> Json \<Rightarrow> (TableScan list \<Rightarrow> TableScan list) \<Rightarrow> 'w Env \<Rightarrow> 'w Env" where
  "shadow_env shadow json flatten env =
     env\<lparr>evaluator := Some (evaluate_with shadow json flatten (policy_of env)), engine_label := trinoEngineName\<rparr>"

lemma Evaluate_with: "Evaluate c json flatten pol = evaluate_with (client_shadow c) json flatten pol"
  by (intro ext) (simp only: Evaluate_def evaluate_with_def client_shadow_def)

lemma trino_shadow_env: "trino_env c json flatten env = shadow_env (client_shadow c) json flatten env"
  by (simp add: trino_env_def shadow_env_def Evaluate_with)

lemma shadow_env_simps [simp]:
  "evaluator (shadow_env shadow json flatten env) = Some (evaluate_with shadow json flatten (policy_of env))"
  "engine_label (shadow_env shadow json flatten env) = ''trino''"
  "policy_of (shadow_env shadow json flatten env) = policy_of env"
  "interfere (shadow_env shadow json flatten env) = interfere env"
  "parse_sql (shadow_env shadow json flatten env) = parse_sql env"
  "minted_id (shadow_env shadow json flatten env) = minted_id env"
  "elapsed (shadow_env shadow json flatten env) = elapsed env"
  "gate_open (shadow_env shadow json flatten env) = gate_open env"
  "target_of (shadow_env shadow json flatten env) = target_of env"
  "transport (shadow_env shadow json flatten env) = transport env"
  "media_type (shadow_env shadow json flatten env) = media_type env"
  by (simp_all add: shadow_env_def trinoEngineName_def)

primrec run :: "'w shadow \<Rightarrow> 'w Env \<Rightarrow> prog \<Rightarrow> 'w HandlerState \<Rightarrow> (Reply \<times> 'w HandlerState) option" where
  "run f env (Answer reply) st = Some (reply, st)"
| "run f env (SendUpstream r) st = Some (serve_upstream env r st)"
| "run f env (Pause p) st = run f env p (yield_world env st)"
| "run f env (ReadPolicy k) st = run f env (k (policy_of env (st_World st))) st"
| "run f env (MintID k) st = run f env (k (minted_id env (st_World st))) st"
| "run f env (ReadClock k) st = run f env (k (elapsed env (st_World st))) st"
| "run f env (Record e p) st = run f env p (st\<lparr>st_Metrics := apply_metric e (st_Metrics st)\<rparr>)"
| "run f env (LogRejection a p) st = run f env p (st\<lparr>st_Audit := st_Audit st @ [a]\<rparr>)"
| "run f env (TakeSlot k) st = run f env (k (gate_open env (st_World st))) st"
| "run f env (FreeSlot p) st = run f env p st"
| "run f env (Shadow uri q h k) st =
     (case f uri q h (st_World st) of
        None \<Rightarrow> None
      | Some (result, w) \<Rightarrow> run f env (k result) (st\<lparr>st_World := w\<rparr>))"

lemma evaluateLimits_metrics:
  "evaluateLimits p b rows scans cpu m = (fst (evaluateLimits p b rows scans cpu None),
     if list_ex table_scoped (CostLimits (Rules p)) \<and> scans = [] then RecordPreflightNoTableEstimates m else m)"
  by (simp add: evaluateLimits_def Let_def)

lemma metrics_world:
  "st\<lparr>st_World := w, st_Metrics := m\<rparr> = st\<lparr>st_Metrics := m, st_World := w\<rparr>"
  "st\<lparr>st_Metrics := st_Metrics st, st_World := w\<rparr> = st\<lparr>st_World := w\<rparr>"
  by (cases st, simp)+

lemma run_evaluate:
  "run f env (evaluate_prog json flatten q h k) st =
     (case evaluate_with f json flatten (policy_of env) q h (gate_open env (st_World st)) (st_Metrics st) (st_World st) of
        None \<Rightarrow> None
      | Some (result, m, w) \<Rightarrow> run f env (k result) (st\<lparr>st_Metrics := m, st_World := w\<rparr>))"
proof (cases "gate_open env (st_World st)")
  case False
  then show ?thesis by (simp add: evaluate_prog_def verdict_prog_def evaluate_with_def)
next
  case True
  let ?uri = "trim_upstream (policy_of env (st_World st)) @ engine_statementPath"
  show ?thesis
  proof (cases "f ?uri (explainPrefix @ q) h (st_World st)")
    case None
    with True show ?thesis by (simp add: evaluate_prog_def verdict_prog_def evaluate_with_def)
  next
    case (Some y)
    then obtain result w where stmt: "f ?uri (explainPrefix @ q) h (st_World st) = Some (result, w)"
      by (cases y) simp
    show ?thesis
    proof (cases result)
      case (Inl e)
      with True stmt show ?thesis by (simp add: evaluate_prog_def verdict_prog_def evaluate_with_def)
    next
      case (Inr cells)
      show ?thesis
      proof (cases "parsePlanCells json flatten cells")
        case None
        with True stmt Inr show ?thesis by (simp add: evaluate_prog_def verdict_prog_def evaluate_with_def)
      next
        case (Some plan)
        obtain b rows scans cpu where plan: "plan = (b, rows, scans, cpu)" by (cases plan)
        obtain allowed reason where "fst (evaluateLimits (policy_of env w) b rows scans cpu None) = (allowed, reason)"
          by fastforce
        then have limits: "evaluateLimits (policy_of env w) b rows scans cpu m = ((allowed, reason),
            if list_ex table_scoped (CostLimits (Rules (policy_of env w))) \<and> scans = []
            then RecordPreflightNoTableEstimates m else m)" for m
          using evaluateLimits_metrics [of "policy_of env w" b rows scans cpu m] by simp
        show ?thesis
          using True stmt Inr Some plan
          by (simp add: evaluate_prog_def verdict_prog_def evaluate_with_def Let_def metrics_world limits del: not_None_eq)
      qed
    qed
  qed
qed

lemma run_forward:
  "run f env (forward_prog (engine_label env) status r body) st =
     Some (forward env r body (record_status env status st))"
  by (simp add: forward_prog_def forward_def record_status_def)

lemma run_reject:
  "run f env (reject_prog (engine_label env) r query res cost reason msg) st =
     Some (reject r reason msg, record_status env StatusBlocked (auditRejection env r query reason res cost (yield_world env st)))"
  by (cases "LogRejections (Audit (policy_of env (interfere env (st_World st))))")
    (simp_all add: reject_prog_def record_status_def auditRejection_def Let_def)

lemma run_tier2:
  assumes E: "E = shadow_env f json flatten env"
  shows "run f E (tier2_prog json flatten (engine_label E) r body query res) st =
    (case tier2 E (r_Header r) query st of
       None \<Rightarrow> None
     | Some (Inl err, st') \<Rightarrow> Some (forward E r body (record_status E StatusAllowed (yield_world E st')))
     | Some (Inr (allowed, reason, cost), st') \<Rightarrow>
         if \<not> allowed then
           Some (reject r ReasonCostLimitBreach (CostMessage reason), record_status E StatusBlocked
             (auditRejection E r query ReasonCostLimitBreach res (Some cost) (yield_world E st')))
         else Some (forward E r body (record_status E StatusAllowed (yield_world E st'))))"
proof (cases "evaluate_with f json flatten (policy_of E) query (r_Header r) (gate_open E (st_World st)) (st_Metrics st) (st_World st)")
  case None
  with E show ?thesis by (simp add: tier2_prog_def run_evaluate tier2_def)
next
  case (Some y)
  then obtain result m w where ev: "evaluate_with f json flatten (policy_of E) query (r_Header r)
      (gate_open E (st_World st)) (st_Metrics st) (st_World st) = Some (result, m, w)"
    by (cases y) auto
  have prog: "run f E (tier2_prog json flatten (engine_label E) r body query res) st =
      run f E (costed_prog (engine_label E) r body query res result) (st\<lparr>st_Metrics := m, st_World := w\<rparr>)"
    by (simp add: tier2_prog_def run_evaluate ev)
  have eval: "evaluator E = Some (evaluate_with f json flatten (policy_of E))" using E by simp
  show ?thesis
    unfolding prog
    by (cases result) (simp_all add: costed_prog_def tier2_def eval ev run_forward run_reject Let_def
        observePreflight_def metricsPreflightRejected_def metricsBlockedBytes_def)
qed

lemma run_tiers:
  assumes E: "E = shadow_env f json flatten env"
  shows "run f E (tiers_prog json flatten (engine_label E) r body query res) st = evaluate_tiers E r body query res st"
proof -
  obtain reason msg allow where t1: "tier1 (policy_of E (st_World st)) res = (reason, msg, allow)"
    by (metis prod_cases3)
  have "evaluator E \<noteq> None" using E by simp
  with t1 show ?thesis
    by (simp add: tiers_prog_def evaluate_tiers_def run_reject run_forward run_tier2 [OF E] shouldPreflight_def Let_def)
qed

lemma run_query:
  assumes E: "E = shadow_env f json flatten env"
  shows "run f E (query_prog (parse_sql E) json flatten (engine_label E) r body query) st = handle_query E r body query st"
  by (cases "Analyze (parse_sql E) query")
    (simp_all add: query_prog_def handle_query_def run_forward run_tiers [OF E] metricsParserError_def)

lemma run_statement:
  assumes E: "E = shadow_env f json flatten env"
  shows "run f E (statement_prog (parse_sql E) json flatten (engine_label E) r) st = handleStatement E r st"
proof -
  have "run f E (statement_prog (parse_sql E) json flatten (engine_label E) r) st =
      run f E (body_prog (parse_sql E) json flatten (engine_label E) (WithRequestID
        (if header_Get (r_Header r) HeaderName = [] then minted_id E (st_World st) else header_Get (r_Header r) HeaderName) r)) st"
    by (simp add: statement_prog_def Let_def)
  then show ?thesis
    by (simp add: body_prog_def handleStatement_def run_forward run_query [OF E] forwardFull_def record_status_def Let_def)
qed

text \<open>The program is the handler: run alone, action after action, it returns the reply, the metrics, the audit
  log and the world that \<open>handleStatement\<close> returns, and it fails to return exactly when the handler does.\<close>

lemma program_is_handler:
  "run (client_shadow c) (trino_env c json flatten env) (statement_prog (parse_sql env) json flatten ''trino'' r) st =
    handleStatement (trino_env c json flatten env) r st"
  using run_statement [OF refl, of "client_shadow c" json flatten env r st] by (simp add: trino_shadow_env)

end
