(* ===== verification/Handler_Steps.thy ===== *)
theory Handler_Steps
  imports Handler_Program
begin

text \<open>
  One action of the handler at a time.  \<open>resume\<close> continues a program with what an action brought: the policy
  that was read, the outcome of the select, the result of the shadow EXPLAIN.  The list of these events is the
  trace of a request, and \<open>ensures\<close> is the weakest precondition over all traces: every action is taken in a
  trace that allows it, and every end is reached with a trace that explains it.
\<close>

section \<open>Events\<close>

datatype event =
    Paused
  | PolicyRead Policy
  | IDMinted string
  | ClockRead int64
  | Counted metric_event
  | Logged audit_record
  | SlotTaken
  | DeadlineHit
  | SlotFreed
  | Shadowed string string Header statement_result

primrec resume :: "prog \<Rightarrow> event \<Rightarrow> prog option" where
  "resume (Answer reply) e = None"
| "resume (SendUpstream r) e = None"
| "resume (Pause p) e = (case e of Paused \<Rightarrow> Some p | _ \<Rightarrow> None)"
| "resume (ReadPolicy k) e = (case e of PolicyRead pol \<Rightarrow> Some (k pol) | _ \<Rightarrow> None)"
| "resume (MintID k) e = (case e of IDMinted i \<Rightarrow> Some (k i) | _ \<Rightarrow> None)"
| "resume (ReadClock k) e = (case e of ClockRead d \<Rightarrow> Some (k d) | _ \<Rightarrow> None)"
| "resume (Record m p) e = (if e = Counted m then Some p else None)"
| "resume (LogRejection a p) e = (if e = Logged a then Some p else None)"
| "resume (TakeSlot k) e = (case e of SlotTaken \<Rightarrow> Some (k True) | DeadlineHit \<Rightarrow> Some (k False) | _ \<Rightarrow> None)"
| "resume (FreeSlot p) e = (case e of SlotFreed \<Rightarrow> Some p | _ \<Rightarrow> None)"
| "resume (Shadow uri q h k) e = (case e of Shadowed uri' q' h' result \<Rightarrow>
     if uri' = uri \<and> q' = q \<and> h' = h then Some (k result) else None | _ \<Rightarrow> None)"

primrec follow :: "prog \<Rightarrow> event list \<Rightarrow> prog option" where
  "follow p [] = Some p"
| "follow p (e # es) = Option.bind (resume p e) (\<lambda>q. follow q es)"

lemma follow_append: "follow p (es @ es') = Option.bind (follow p es) (\<lambda>q. follow q es')"
  by (induction es arbitrary: p) (simp_all add: bind_assoc split: bind_splits)

section \<open>What a trace says\<close>

primrec status_of :: "event \<Rightarrow> QueryStatus list" where
  "status_of (Counted m) = (case m of QueryCounted s engine \<Rightarrow> [s] | _ \<Rightarrow> [])"
| "status_of Paused = []" | "status_of (PolicyRead pol) = []" | "status_of (IDMinted i) = []"
| "status_of (ClockRead d) = []" | "status_of (Logged a) = []" | "status_of SlotTaken = []"
| "status_of DeadlineHit = []" | "status_of SlotFreed = []" | "status_of (Shadowed u q h x) = []"

primrec audit_of :: "event \<Rightarrow> audit_record list" where
  "audit_of (Logged a) = [a]"
| "audit_of Paused = []" | "audit_of (PolicyRead pol) = []" | "audit_of (IDMinted i) = []"
| "audit_of (ClockRead d) = []" | "audit_of (Counted m) = []" | "audit_of SlotTaken = []"
| "audit_of DeadlineHit = []" | "audit_of SlotFreed = []" | "audit_of (Shadowed u q h x) = []"

definition statuses :: "event list \<Rightarrow> QueryStatus list" where
  "statuses tr = concat (map status_of tr)"

definition audits :: "event list \<Rightarrow> audit_record list" where
  "audits tr = concat (map audit_of tr)"

primrec slot_after :: "bool \<Rightarrow> event list \<Rightarrow> bool" where
  "slot_after b [] = b"
| "slot_after b (e # es) = slot_after (if e = SlotTaken then True else if e = SlotFreed then False else b) es"

definition holds_slot :: "event list \<Rightarrow> bool" where
  "holds_slot tr = slot_after False tr"

lemma slot_after_append: "slot_after b (xs @ ys) = slot_after (slot_after b xs) ys"
  by (induction xs arbitrary: b) simp_all

lemma trace_simps [simp]:
  "statuses [] = []" "statuses (e # es) = status_of e @ statuses es" "statuses (tr @ tr') = statuses tr @ statuses tr'"
  "audits [] = []" "audits (e # es) = audit_of e @ audits es" "audits (tr @ tr') = audits tr @ audits tr'"
  "holds_slot [] = False" "holds_slot (tr @ tr') = slot_after (holds_slot tr) tr'"
  by (simp_all add: statuses_def audits_def holds_slot_def slot_after_append)

section \<open>Weakest preconditions\<close>

text \<open>An end is a reply of the handler or a request handed to the reverse proxy.\<close>

type_synonym ending = "Reply + ProxyRequest"

primrec ensures ::
  "(event list \<Rightarrow> event \<Rightarrow> bool) \<Rightarrow> (event list \<Rightarrow> ending \<Rightarrow> bool) \<Rightarrow> prog \<Rightarrow> event list \<Rightarrow> bool" where
  "ensures G Q (Answer reply) tr = Q tr (Inl reply)"
| "ensures G Q (SendUpstream r) tr = Q tr (Inr r)"
| "ensures G Q (Pause p) tr = (G tr Paused \<and> ensures G Q p (tr @ [Paused]))"
| "ensures G Q (ReadPolicy k) tr = (\<forall>pol. G tr (PolicyRead pol) \<and> ensures G Q (k pol) (tr @ [PolicyRead pol]))"
| "ensures G Q (MintID k) tr = (\<forall>i. G tr (IDMinted i) \<and> ensures G Q (k i) (tr @ [IDMinted i]))"
| "ensures G Q (ReadClock k) tr = (\<forall>d. G tr (ClockRead d) \<and> ensures G Q (k d) (tr @ [ClockRead d]))"
| "ensures G Q (Record m p) tr = (G tr (Counted m) \<and> ensures G Q p (tr @ [Counted m]))"
| "ensures G Q (LogRejection a p) tr = (G tr (Logged a) \<and> ensures G Q p (tr @ [Logged a]))"
| "ensures G Q (TakeSlot k) tr = ((G tr SlotTaken \<and> ensures G Q (k True) (tr @ [SlotTaken])) \<and>
     (G tr DeadlineHit \<and> ensures G Q (k False) (tr @ [DeadlineHit])))"
| "ensures G Q (FreeSlot p) tr = (G tr SlotFreed \<and> ensures G Q p (tr @ [SlotFreed]))"
| "ensures G Q (Shadow uri q h k) tr = (\<forall>x. G tr (Shadowed uri q h x) \<and> ensures G Q (k x) (tr @ [Shadowed uri q h x]))"

lemma ensures_resume:
  "ensures G Q p tr \<Longrightarrow> resume p e = Some p' \<Longrightarrow> G tr e \<and> ensures G Q p' (tr @ [e])"
  by (cases p) (auto split: event.splits if_splits)

lemma ensures_follow: "ensures G Q p tr \<Longrightarrow> follow p es = Some p' \<Longrightarrow> ensures G Q p' (tr @ es)"
proof (induction es arbitrary: p tr)
  case (Cons e es)
  then obtain q where "resume p e = Some q" "follow q es = Some p'" by (auto split: bind_splits)
  with Cons.IH [of q "tr @ [e]"] ensures_resume [OF Cons.prems(1)] show ?case by simp
qed simp

section \<open>What the handler owes\<close>

text \<open>The longest trace has this many actions, on the way to a Tier 2 rejection that is logged.\<close>

definition max_actions :: nat where
  "max_actions = 19"

definition passed_tier1 :: "(string \<Rightarrow> Statement option) \<Rightarrow> ProxyRequest \<Rightarrow> event list \<Rightarrow> bool" where
  "passed_tier1 parse r tr \<longleftrightarrow> (\<exists>pol res. PolicyRead pol \<in> set tr \<and> evaluated r \<and>
     Analyze parse (inspected_query r) = Inr res \<and> tier1_verdict pol res = None)"



text \<open>A rejection rests on a policy the request has read, and in Tier 2 on the plan the shadow EXPLAIN brought.\<close>

definition justified ::
  "(string \<Rightarrow> Statement option) \<Rightarrow> Json \<Rightarrow> (TableScan list \<Rightarrow> TableScan list) \<Rightarrow> ProxyRequest \<Rightarrow> event list
     \<Rightarrow> RejectionReason \<Rightarrow> bool" where
  "justified parse json flatten r tr reason \<longleftrightarrow> evaluated r \<and>
     (\<exists>pol res. PolicyRead pol \<in> set tr \<and> Analyze parse (inspected_query r) = Inr res \<and>
       (tier1_verdict pol res = Some reason \<or>
        reason = ReasonCostLimitBreach \<and> Classify (inspected_query r) = StatementSelect \<and>
        (\<exists>uri q h cells bytes rows scans cpu. Shadowed uri q h (Inr cells) \<in> set tr \<and>
           parsePlanCells json flatten cells = Some (bytes, rows, scans, cpu) \<and>
           \<not> list_all (within_limit bytes scans cpu) (CostLimits (Rules pol)))))"

definition assigned_id :: "ProxyRequest \<Rightarrow> event list \<Rightarrow> string \<Rightarrow> bool" where
  "assigned_id r tr i \<longleftrightarrow> (if header_Get (r_Header r) HeaderName = [] then IDMinted i \<in> set tr
     else i = header_Get (r_Header r) HeaderName)"

definition action_ok ::
  "(string \<Rightarrow> Statement option) \<Rightarrow> ProxyRequest \<Rightarrow> event list \<Rightarrow> event \<Rightarrow> bool" where
  "action_ok parse r tr e \<longleftrightarrow> length tr < max_actions \<and>
     (case e of
        Counted m \<Rightarrow> (case m of QueryCounted s engine \<Rightarrow> statuses tr = [] \<and> engine = ''trino'' | _ \<Rightarrow> True)
      | Logged a \<Rightarrow> audits tr = []
      | SlotTaken \<Rightarrow> \<not> holds_slot tr
      | DeadlineHit \<Rightarrow> \<not> holds_slot tr
      | SlotFreed \<Rightarrow> holds_slot tr
      | Shadowed uri q h x \<Rightarrow> holds_slot tr \<and> statuses tr = [] \<and> passed_tier1 parse r tr \<and>
          q = explainPrefix @ inspected_query r \<and> h = r_Header r \<and>
          (\<exists>pol. PolicyRead pol \<in> set tr \<and> uri = trim_upstream pol @ engine_statementPath)
      | _ \<Rightarrow> True)"

definition ending_ok ::
  "(string \<Rightarrow> Statement option) \<Rightarrow> Json \<Rightarrow> (TableScan list \<Rightarrow> TableScan list) \<Rightarrow> ProxyRequest \<Rightarrow> event list
     \<Rightarrow> ending \<Rightarrow> bool" where
  "ending_ok parse json flatten r tr d \<longleftrightarrow> \<not> holds_slot tr \<and>
     (case d of
        Inl reply \<Rightarrow> statuses tr = [StatusBlocked] \<and> reply_Status reply = 400 \<and>
          (\<exists>x. rejection_of reply = Some x \<and> justified parse json flatten r tr (rr_Reason x) \<and>
             assigned_id r tr (rr_RequestID x) \<and>
             (audits tr = [] \<or> (\<exists>a. audits tr = [a] \<and> au_Reason a = rr_Reason x \<and> au_RequestID a = rr_RequestID x \<and>
                au_Query a = inspected_query r)))
      | Inr r' \<Rightarrow> audits tr = [] \<and> replayed r r' \<and>
          (statuses tr = [StatusAllowed] \<and> passed_tier1 parse r tr \<or>
           statuses tr = [StatusBypassed] \<and> \<not> evaluated r))"

section \<open>The handler keeps it\<close>

text \<open>What is known of a trace stays known.\<close>

lemma evidence_mono:
  "passed_tier1 parse r tr \<Longrightarrow> passed_tier1 parse r (tr @ es)"
  "justified parse json flatten r tr reason \<Longrightarrow> justified parse json flatten r (tr @ es) reason"
  "assigned_id r tr i \<Longrightarrow> assigned_id r (tr @ es) i"
  unfolding passed_tier1_def justified_def assigned_id_def set_append Un_iff by (blast, blast, metis)

lemmas owes = action_ok_def ending_ok_def max_actions_def

text \<open>A trace before the count: nothing is counted or logged, and the slot is not held.\<close>

definition unsettled :: "nat \<Rightarrow> event list \<Rightarrow> bool" where
  "unsettled n tr \<longleftrightarrow> length tr \<le> n \<and> statuses tr = [] \<and> audits tr = [] \<and> \<not> holds_slot tr"

lemma unsettled_weaken: "unsettled m tr \<Longrightarrow> m \<le> n \<Longrightarrow> unsettled n tr"
  by (simp add: unsettled_def)

lemma forward_ensures:
  assumes "unsettled 18 tr" and "replayed r0 r" and "body = stream_data (r_Body r0)"
    and "status = StatusAllowed \<and> passed_tier1 parse r0 tr \<or> status = StatusBypassed \<and> \<not> evaluated r0"
  shows "ensures (action_ok parse r0) (ending_ok parse json flatten r0) (forward_prog ''trino'' status r body) tr"
  using assms evidence_mono(1) [of parse r0 tr]
  by (auto simp: forward_prog_def owes unsettled_def replayed_simps(2))

lemma reject_ensures:
  assumes "unsettled 15 tr" and "justified parse json flatten r0 tr reason" and "query = inspected_query r0"
    and "assigned_id r0 tr (FromContext r)"
  shows "ensures (action_ok parse r0) (ending_ok parse json flatten r0)
    (reject_prog ''trino'' r query res cost reason msg) tr"
proof -
  have status: "reply_Status (reject r reason msg) = 400" by (simp add: reject_def WriteRejection_def)
  from assms show ?thesis
    using evidence_mono(2) [OF assms(2)] evidence_mono(3) [OF assms(4)]
    by (simp add: reject_prog_def owes unsettled_def Let_def status)
qed

text \<open>
  The evaluator takes at most six actions, gives its slot back before it returns, and a verdict against the
  statement comes with the policy and the plan that explain it.
\<close>

lemma evaluate_ensures:
  assumes start: "unsettled 6 tr" "passed_tier1 parse r0 tr" and args: "q = inspected_query r0" "h = r_Header r0"
    and select: "Classify q = StatementSelect" "evaluated r0" "Analyze parse q = Inr res"
    and cont: "\<And>tr' result. unsettled 12 tr' \<Longrightarrow> passed_tier1 parse r0 tr' \<Longrightarrow> set tr \<subseteq> set tr' \<Longrightarrow>
      (\<And>cost. result = Inr cost \<Longrightarrow> \<not> Allowed cost \<Longrightarrow> justified parse json flatten r0 tr' ReasonCostLimitBreach) \<Longrightarrow>
      ensures (action_ok parse r0) Q (k result) tr'"
  shows "ensures (action_ok parse r0) Q (evaluate_prog json flatten q h k) tr"
proof -
  have unsettled: "unsettled 12 (tr @ es)"
    if "length es \<le> 6" "statuses es = []" "audits es = []" "\<not> slot_after False es" for es
    using that start(1) by (simp add: unsettled_def)
  have failed: "ensures (action_ok parse r0) Q (k (Inl e)) (tr @ es)"
    if "length es \<le> 6" "statuses es = []" "audits es = []" "\<not> slot_after False es" for es e
    by (rule cont) (use unsettled [OF that] evidence_mono(1) [OF start(2)] in auto)
  have returned: "ensures (action_ok parse r0) Q (k (Inr cost)) (tr @ es)"
    if es: "length es \<le> 6" "statuses es = []" "audits es = []" "\<not> slot_after False es"
      and seen: "PolicyRead pol \<in> set es" "Shadowed uri q' h' (Inr cells) \<in> set es"
      and plan: "parsePlanCells json flatten cells = Some (bytes, rows, scans, cpu)"
      and verdict: "Allowed cost = fst (fst (evaluateLimits pol bytes rows scans cpu None))"
    for es cost pol uri q' h' cells bytes rows scans cpu
  proof (rule cont)
    show "justified parse json flatten r0 (tr @ es) ReasonCostLimitBreach"
      if "Inr cost = (Inr cost' :: (eval_error, CostResult) go_result)" "\<not> Allowed cost'" for cost'
      using that seen plan verdict select args unfolding justified_def evaluateLimits_allowed set_append by blast
  qed (use unsettled [OF es] evidence_mono(1) [OF start(2)] in auto)
  have verdict: "ensures (action_ok parse r0) Q (verdict_prog json flatten k x) (tr @ es)"
    if es: "es = [PolicyRead pol, SlotTaken, Shadowed u q' h' x]" for es pol u q' h' x
  proof (cases x)
    case (Inl e)
    with es start show ?thesis
      by (simp add: verdict_prog_def owes unsettled_def failed)
  next
    case (Inr cells)
    show ?thesis
    proof (cases "parsePlanCells json flatten cells")
      case None
      with es start Inr show ?thesis by (simp add: verdict_prog_def owes unsettled_def failed)
    next
      case (Some plan)
      obtain bytes rows scans cpu where plan: "plan = (bytes, rows, scans, cpu)" by (cases plan)
      with es start Inr Some show ?thesis
        by (simp add: verdict_prog_def owes unsettled_def split_beta Let_def)
          (intro allI conjI impI; rule returned [of _ _ u q' h' cells bytes rows scans cpu]; simp)
    qed
  qed
  show ?thesis
    using start evidence_mono(1) [OF start(2)] args verdict
    by (auto simp: evaluate_prog_def owes unsettled_def failed)
qed

lemma tier2_ensures:
  assumes "unsettled 6 tr" and "passed_tier1 parse r0 tr" and "assigned_id r0 tr (FromContext r)"
    and "replayed r0 r" and "body = stream_data (r_Body r0)" and "query = inspected_query r0"
    and "Classify query = StatementSelect" and "evaluated r0" and "Analyze parse query = Inr res"
  shows "ensures (action_ok parse r0) (ending_ok parse json flatten r0)
    (tier2_prog json flatten ''trino'' r body query res) tr"
  unfolding tier2_prog_def
proof (rule evaluate_ensures [OF assms(1,2,6) _ assms(7-9)])
  show "r_Header r = r_Header r0" using assms(4) by (simp add: replayed_def)
  fix tr' and result :: "(eval_error, CostResult) go_result"
  assume tr': "unsettled 12 tr'" "passed_tier1 parse r0 tr'" "set tr \<subseteq> set tr'"
    and breach: "\<And>cost. result = Inr cost \<Longrightarrow> \<not> Allowed cost \<Longrightarrow>
      justified parse json flatten r0 tr' ReasonCostLimitBreach"
  have unsettled: "unsettled 18 (tr' @ es)" if "length es \<le> 4" "statuses es = []" "audits es = []"
    "\<not> slot_after False es" for es using that tr'(1) by (simp add: unsettled_def)
  have id: "assigned_id r0 tr' (FromContext r)"
    using assms(3) tr'(3) by (auto simp: assigned_id_def split: if_splits)
  have forward: "ensures (action_ok parse r0) (ending_ok parse json flatten r0)
      (forward_prog ''trino'' StatusAllowed r body) (tr' @ es)"
    if "length es \<le> 4" "statuses es = []" "audits es = []" "\<not> slot_after False es" for es
    using forward_ensures [OF unsettled [OF that] assms(4,5)] evidence_mono(1) [OF tr'(2)] by blast
  have reject: "ensures (action_ok parse r0) (ending_ok parse json flatten r0)
      (reject_prog ''trino'' r query res cost ReasonCostLimitBreach msg) (tr' @ es)"
    if "length es = 3" "statuses es = []" "audits es = []" "\<not> slot_after False es" "result = Inr c" "\<not> Allowed c"
    for es cost msg c
  proof (rule reject_ensures [OF _ _ assms(6)])
    show "unsettled 15 (tr' @ es)" using that tr'(1) by (simp add: unsettled_def)
  qed (use breach [OF that(5,6)] id evidence_mono(2,3) in blast)+
  show "ensures (action_ok parse r0) (ending_ok parse json flatten r0)
      (costed_prog ''trino'' r body query res result) tr'"
    using tr'(1) by (cases result) (auto simp: costed_prog_def owes unsettled_def forward reject)
qed

lemma tiers_ensures:
  assumes "unsettled 2 tr" and "assigned_id r0 tr (FromContext r)" and "replayed r0 r"
    and "body = stream_data (r_Body r0)" and "query = inspected_query r0" and "evaluated r0"
    and "Analyze parse query = Inr res" and "result_class res = Classify query"
  shows "ensures (action_ok parse r0) (ending_ok parse json flatten r0)
    (tiers_prog json flatten ''trino'' r body query res) tr"
proof -
  let ?ensures = "ensures (action_ok parse r0) (ending_ok parse json flatten r0)"
  have unsettled: "unsettled n (tr @ es)"
    if "2 + length es \<le> n" "statuses es = []" "audits es = []" "\<not> slot_after False es" for es n
    using that assms(1) by (simp add: unsettled_def)
  have rejects: "?ensures (reject_prog ''trino'' r query res None reason (Tier1Message msg)) (tr @ [PolicyRead pol])"
    if "tier1 pol res = (reason, msg, False)" for pol reason msg
  proof (rule reject_ensures [OF _ _ assms(5)])
    have "tier1_verdict pol res = Some reason" using tier1_verdict [of pol res] that by simp
    then show "justified parse json flatten r0 (tr @ [PolicyRead pol]) reason"
      using assms(5-7) by (auto simp: justified_def)
  qed (use unsettled assms(2) evidence_mono(3) in \<open>simp_all\<close>)
  have passed: "passed_tier1 parse r0 (tr @ PolicyRead pol # es)" if "tier1 pol res = (reason, msg, True)" for pol reason msg es
  proof -
    have "tier1_verdict pol res = None" using tier1_verdict [of pol res] that by simp
    then show ?thesis using assms(5-7) by (auto simp: passed_tier1_def)
  qed
  have allowed: "?ensures (forward_prog ''trino'' StatusAllowed r body) (tr @ PolicyRead pol # es)"
    if "tier1 pol res = (reason, msg, True)" "length es \<le> 10" "statuses es = []" "audits es = []" "\<not> slot_after False es"
    for pol reason msg es
    using forward_ensures [OF _ assms(3,4)] unsettled [of "PolicyRead pol # es" 18] passed [OF that(1)] that by simp
  have costed: "?ensures (tier2_prog json flatten ''trino'' r body query res) (tr @ PolicyRead pol # es)"
    if "tier1 pol res = (reason, msg, True)" "length es \<le> 3" "statuses es = []" "audits es = []"
      "\<not> slot_after False es" "result_class res = StatementSelect"
    for pol reason msg es
    using tier2_ensures [OF _ passed [OF that(1)] _ assms(3-5) _ assms(6,7)] unsettled [of "PolicyRead pol # es" 6]
      that assms(8) evidence_mono(3) [OF assms(2)] by simp
  show ?thesis
    unfolding tiers_prog_def ensures.simps
  proof (intro allI conjI)
    fix pol
    show "action_ok parse r0 tr (PolicyRead pol)" using assms(1) by (simp add: owes unsettled_def)
    obtain reason msg allow where t1: "tier1 pol res = (reason, msg, allow)" by (metis prod_cases3)
    show "?ensures (case tier1 pol res of (reason, msg, allow) \<Rightarrow>
       if \<not> allow then reject_prog ''trino'' r query res None reason (Tier1Message msg)
       else Pause
         (if result_class res \<noteq> StatementSelect then Pause (forward_prog ''trino'' StatusAllowed r body)
          else ReadPolicy (\<lambda>p.
            if CostLimits (Rules p) \<noteq> [] then Pause (tier2_prog json flatten ''trino'' r body query res)
            else Pause (forward_prog ''trino'' StatusAllowed r body)))) (tr @ [PolicyRead pol])"
      using t1 assms(1) rejects [of pol reason msg] allowed [of pol reason msg] costed [of pol reason msg]
      by (cases allow) (auto simp: owes unsettled_def)
  qed
qed

lemma query_ensures:
  assumes "unsettled 1 tr" and "assigned_id r0 tr (FromContext r)" and "replayed r0 r" and "inspected r0"
    and "body = stream_data (r_Body r0)" and "query = inspected_query r0"
  shows "ensures (action_ok parse r0) (ending_ok parse json flatten r0)
    (query_prog parse json flatten ''trino'' r body query) tr"
proof -
  obtain res where res: "Analyze parse query = Inr res" "result_class res = Classify query"
    using Analyze_classified [of parse query] by blast
  show ?thesis
  proof (cases "IsBypass (Classify query)")
    case True
    then have "\<not> evaluated r0" using assms(6) by (simp add: evaluated_def)
    then have "ensures (action_ok parse r0) (ending_ok parse json flatten r0)
        (forward_prog ''trino'' StatusBypassed r body) tr"
      using forward_ensures [OF _ assms(3,5)] unsettled_weaken [OF assms(1)] by simp
    with True res show ?thesis by (simp add: query_prog_def)
  next
    case False
    then have "evaluated r0" using assms(4,6) by (simp add: evaluated_def)
    moreover have "unsettled 2 (tr @ [Paused])" using assms(1) by (simp add: unsettled_def)
    moreover have "assigned_id r0 (tr @ [Paused]) (FromContext r)" by (rule evidence_mono(3) [OF assms(2)])
    ultimately have "ensures (action_ok parse r0) (ending_ok parse json flatten r0)
        (tiers_prog json flatten ''trino'' r body query res) (tr @ [Paused])"
      using tiers_ensures [OF _ _ assms(3,5,6) _ res] by blast
    with False res assms(1) show ?thesis by (simp add: query_prog_def) (simp add: owes unsettled_def)
  qed
qed

lemma body_ensures:
  assumes "unsettled 1 tr" and "assigned_id r0 tr i"
  shows "ensures (action_ok parse r0) (ending_ok parse json flatten r0)
    (body_prog parse json flatten ''trino'' (WithRequestID i r0)) tr"
proof -
  let ?ensures = "ensures (action_ok parse r0) (ending_ok parse json flatten r0)" and ?r = "WithRequestID i r0"
  let ?data = "stream_data (r_Body r0)"
  let ?body = "take (maxStatementBodyBytes + 1) ?data"
  have id: "assigned_id r0 tr (FromContext ?r)" and replayed: "replayed r0 ?r"
    using assms(2) by (simp_all add: replayed_simps(1))
  have forward: "?ensures (forward_prog ''trino'' StatusBypassed ?r ?data) tr" if "\<not> inspected r0"
    using forward_ensures [OF _ replayed refl] unsettled_weaken [OF assms(1)] that by (simp add: evaluated_def)
  consider (broken) "length ?body < maxStatementBodyBytes + 1" "stream_broken (r_Body r0)"
    | (large) "maxStatementBodyBytes < length ?body"
    | (blank) "\<not> stream_broken (r_Body r0)" "length ?data \<le> maxStatementBodyBytes" "TrimSpace ?data = []"
    | (inspected) "inspected r0"
    unfolding inspected_def by fastforce
  then show ?thesis
  proof cases
    case broken
    then have "?body = ?data" "\<not> inspected r0" "length ?data < Suc maxStatementBodyBytes"
      by (simp_all add: min_less_iff_disj inspected_def)
    with broken forward show ?thesis by (simp add: body_prog_def Let_def)
  next
    case large
    have data: "?body @ drop (length ?body) ?data = ?data"
      by (cases "length ?data \<le> maxStatementBodyBytes + 1") simp_all
    from large have no: "\<not> evaluated r0" by (simp add: evaluated_def inspected_def)
    have "?ensures (Record (QueryCounted StatusBypassed ''trino'') (SendUpstream
             (?r\<lparr>r_Body := \<lparr>stream_data = ?data, stream_broken = stream_broken (r_Body r0)\<rparr>, r_ContentLength := - 1\<rparr>))) tr"
      using assms(1) no by (simp add: owes unsettled_def replayed_simps)
    with large data show ?thesis by (simp add: body_prog_def Let_def)
  next
    case blank
    then have "?body = ?data" "\<not> inspected r0" by (simp_all add: inspected_def)
    with blank forward show ?thesis by (simp add: body_prog_def Let_def)
  next
    case inspected
    then have "?body = ?data" by (simp add: inspected_def)
    moreover have "?ensures (query_prog parse json flatten ''trino'' ?r ?data (inspected_query r0)) tr"
      by (rule query_ensures [OF assms(1) id replayed inspected refl refl])
    ultimately show ?thesis using inspected by (simp add: body_prog_def Let_def inspected_def inspected_query_def)
  qed
qed

lemma statement_ensures:
  "ensures (action_ok parse r) (ending_ok parse json flatten r) (statement_prog parse json flatten ''trino'' r) []"
proof (cases "header_Get (r_Header r) HeaderName = []")
  case True
  then have "ensures (action_ok parse r) (ending_ok parse json flatten r)
      (body_prog parse json flatten ''trino'' (WithRequestID i r)) [IDMinted i]" for i
    by (intro body_ensures) (simp_all add: unsettled_def assigned_id_def holds_slot_def)
  with True show ?thesis by (simp add: statement_prog_def Let_def owes)
next
  case False
  then have "ensures (action_ok parse r) (ending_ok parse json flatten r)
      (body_prog parse json flatten ''trino'' (WithRequestID (header_Get (r_Header r) HeaderName) r)) []"
    by (intro body_ensures) (simp_all add: unsettled_def assigned_id_def)
  with False show ?thesis by (simp add: statement_prog_def Let_def)
qed

end
