(* ===== verification/Config_Watcher.thy ===== *)
theory Config_Watcher
  imports Config_Policy Labelled_Steps
begin

text \<open>
  \<open>internal/config/watcher.go\<close>: the reloader.  \<open>Start\<close> runs a select loop, a timer fires in a goroutine
  of its own, and files change under it, so the watcher is a labelled step relation whose steps are the
  branches of the select, the parts of a reload (load the file, swap the policy in, run the callback), and
  what the environment does.  \<open>'h\<close> is the state the \<open>onReload\<close> callback changes.  The callback runs outside every
  lock, next to other timer goroutines, so it is a list of atomic parts; a part may end the callback.
\<close>

section \<open>The watcher and its operations\<close>

type_synonym 'h callback = "Policy \<Rightarrow> ('h \<Rightarrow> 'h \<times> bool) list"

primrec run_parts :: "('h \<Rightarrow> 'h \<times> bool) list \<Rightarrow> 'h \<Rightarrow> 'h" where
  "run_parts [] h = h"
| "run_parts (f # fs) h = (case f h of (h', goes_on) \<Rightarrow> if goes_on then run_parts fs h' else h')"

record 'h Watcher =
  w_cfg :: Config
  w_path :: string
  w_done :: bool
  w_onReload :: "'h callback option"

definition NewWatcher :: "Config \<Rightarrow> string \<Rightarrow> 'h Watcher" where
  "NewWatcher cfg path = \<lparr>w_cfg = cfg, w_path = path, w_done = False, w_onReload = None\<rparr>"

definition OnReload :: "'h callback \<Rightarrow> 'h Watcher \<Rightarrow> 'h Watcher" where
  "OnReload fn w = w\<lparr>w_onReload := Some fn\<rparr>"

text \<open>Closing a closed channel panics: \<open>None\<close>.\<close>

definition Shutdown :: "'h Watcher \<Rightarrow> 'h Watcher option" where
  "Shutdown w = (if w_done w then None else Some (w\<lparr>w_done := True\<rparr>))"

definition reload_commit :: "Policy \<Rightarrow> 'h Watcher \<times> 'h \<Rightarrow> 'h Watcher \<times> 'h" where
  "reload_commit p s =
     (let w = (fst s)\<lparr>w_cfg := Set p (w_cfg (fst s))\<rparr>
      in (w, case w_onReload w of None \<Rightarrow> snd s | Some fn \<Rightarrow> run_parts (fn p) (snd s)))"

definition reload ::
  "(string \<Rightarrow> byte list option) \<Rightarrow> (byte list \<Rightarrow> Policy option) \<Rightarrow>
     'h Watcher \<times> 'h \<Rightarrow> load_error option \<times> 'h Watcher \<times> 'h" where
  "reload read_file decode s =
     (case Load read_file decode (w_path (fst s)) of
        Inl e \<Rightarrow> (Some e, s) | Inr p \<Rightarrow> (None, reload_commit p s))"

definition is_separator :: "byte \<Rightarrow> bool" where
  "is_separator c \<longleftrightarrow> c = CHR ''/'' \<or> c = CHR 0x5C"

text \<open>The loop from the last byte down to the last separator.\<close>

definition parentDir :: "string \<Rightarrow> string" where
  "parentDir path =
     (case dropWhile (\<lambda>c. \<not> is_separator c) (rev path) of [] \<Rightarrow> ''.'' | c # r \<Rightarrow> rev r)"

text \<open>What \<open>Start\<close> does before its loop.\<close>

datatype start_error = FsnotifyInit | PolicyFileMissing | CannotAddWatch string

definition Start_setup ::
  "bool \<Rightarrow> (string \<Rightarrow> bool) \<Rightarrow> (string \<Rightarrow> bool) \<Rightarrow> 'h Watcher \<Rightarrow> (start_error, string) go_result" where
  "Start_setup init_ok exists add_ok w =
     (if \<not> init_ok then Inl FsnotifyInit
      else if \<not> exists (w_path w) then Inl PolicyFileMissing
      else if \<not> add_ok (parentDir (w_path w)) then Inl (CannotAddWatch (parentDir (w_path w)))
      else Inr (parentDir (w_path w)))"

section \<open>The loop\<close>

text \<open>
  \<open>pending\<close> is the armed debounce timer (arming stops the previous one, so there is at most one), and
  \<open>loaded\<close> holds the policies of the timer goroutines that have read the file and not yet swapped the
  result in, \<open>swapped\<close> those of the goroutines that have, and have not yet called back.  \<open>calling\<close> are the callbacks
  under way, each with its policy and the number of parts it has done.  \<open>policy_file\<close> is the content of the
  policy file.
\<close>

record 'h watch_state =
  watcher :: "'h Watcher"
  host :: 'h
  policy_file :: "byte list option"
  cancelled :: bool
  running :: bool
  pending :: bool
  loaded :: "Policy list"
  swapped :: "Policy list"
  calling :: "(Policy \<times> nat) list"

datatype fs_event = FsEvent (event_name: string) (has_write: bool)

datatype watch_label =
    Cancel | CallShutdown | WriteFile "byte list option"
  | CtxDone | DoneSignal | Closed | Event fs_event | WatchError
  | TimerFires | SwapIn nat | Notify nat | Callback nat

definition handle_event :: "fs_event \<Rightarrow> 'h watch_state \<Rightarrow> 'h watch_state" where
  "handle_event ev s =
     (if has_write ev \<and> event_name ev = w_path (watcher s) then s\<lparr>pending := True\<rparr> else s)"

definition fire_timer :: "(byte list \<Rightarrow> Policy option) \<Rightarrow> 'h watch_state \<Rightarrow> 'h watch_state" where
  "fire_timer decode s =
     (case Load (\<lambda>_. policy_file s) decode (w_path (watcher s)) of
        Inl e \<Rightarrow> s\<lparr>pending := False\<rparr>
      | Inr p \<Rightarrow> s\<lparr>pending := False, loaded := loaded s @ [p]\<rparr>)"

definition without :: "nat \<Rightarrow> 'a list \<Rightarrow> 'a list" where
  "without i xs = take i xs @ drop (Suc i) xs"

definition swap_in :: "nat \<Rightarrow> 'h watch_state \<Rightarrow> 'h watch_state" where
  "swap_in i s = s\<lparr>watcher := (watcher s)\<lparr>w_cfg := Set (loaded s ! i) (w_cfg (watcher s))\<rparr>,
     loaded := without i (loaded s), swapped := swapped s @ [loaded s ! i]\<rparr>"

text \<open>The check whether a callback is registered, and one part of a callback under way.\<close>

definition callback_parts :: "'h watch_state \<Rightarrow> Policy \<Rightarrow> ('h \<Rightarrow> 'h \<times> bool) list" where
  "callback_parts s p = (case w_onReload (watcher s) of None \<Rightarrow> [] | Some fn \<Rightarrow> fn p)"

definition notify :: "nat \<Rightarrow> 'h watch_state \<Rightarrow> 'h watch_state" where
  "notify i s = s\<lparr>swapped := without i (swapped s),
     calling := calling s @ (if callback_parts s (swapped s ! i) = [] then [] else [(swapped s ! i, 0)])\<rparr>"

definition call_part :: "nat \<Rightarrow> 'h watch_state \<Rightarrow> 'h watch_state" where
  "call_part i s =
     (case calling s ! i of (p, k) \<Rightarrow>
      case (callback_parts s p ! k) (host s) of (h, goes_on) \<Rightarrow>
        s\<lparr>host := h, calling := (if goes_on \<and> Suc k < length (callback_parts s p)
          then (calling s)[i := (p, Suc k)] else without i (calling s))\<rparr>)"

inductive watch_step ::
  "(byte list \<Rightarrow> Policy option) \<Rightarrow> 'h watch_state \<Rightarrow> watch_label \<Rightarrow> 'h watch_state \<Rightarrow> bool"
  for decode where
  step_cancel: "watch_step decode s Cancel (s\<lparr>cancelled := True\<rparr>)"
| step_shutdown: "Shutdown (watcher s) = Some w \<Longrightarrow> watch_step decode s CallShutdown (s\<lparr>watcher := w\<rparr>)"
| step_write: "watch_step decode s (WriteFile content) (s\<lparr>policy_file := content\<rparr>)"
| step_ctx: "running s \<Longrightarrow> cancelled s \<Longrightarrow> watch_step decode s CtxDone (s\<lparr>running := False\<rparr>)"
| step_done: "running s \<Longrightarrow> w_done (watcher s) \<Longrightarrow> watch_step decode s DoneSignal (s\<lparr>running := False\<rparr>)"
| step_closed: "running s \<Longrightarrow> watch_step decode s Closed (s\<lparr>running := False\<rparr>)"
| step_event: "running s \<Longrightarrow> watch_step decode s (Event ev) (handle_event ev s)"
| step_error: "running s \<Longrightarrow> watch_step decode s WatchError s"
| step_fire: "pending s \<Longrightarrow> watch_step decode s TimerFires (fire_timer decode s)"
| step_swap: "i < length (loaded s) \<Longrightarrow> watch_step decode s (SwapIn i) (swap_in i s)"
| step_notify: "i < length (swapped s) \<Longrightarrow> watch_step decode s (Notify i) (notify i s)"
| step_call: "i < length (calling s) \<Longrightarrow> watch_step decode s (Callback i) (call_part i s)"

inductive_cases watch_fireE: "watch_step decode s TimerFires s'"
inductive_simps watch_fire_iff: "watch_step decode s TimerFires s'"
inductive_simps watch_swap_iff: "watch_step decode s (SwapIn i) s'"
inductive_simps watch_event_iff: "watch_step decode s (Event ev) s'"

abbreviation watch_run ::
  "(byte list \<Rightarrow> Policy option) \<Rightarrow> 'h watch_state \<Rightarrow> watch_label list \<Rightarrow> 'h watch_state \<Rightarrow> bool" where
  "watch_run decode \<equiv> steps (watch_step decode)"

lemmas watch_run_Nil = steps_Nil [of "watch_step decode" for decode]
lemmas watch_run_one = steps_one [of "watch_step decode" for decode]
lemmas watch_run_snoc = steps_snoc [of "watch_step decode" for decode]
lemmas watch_run_append = steps_append [of "watch_step decode" for decode]

text \<open>The state when \<open>Start\<close> enters its loop.\<close>

definition start_state :: "'h Watcher \<Rightarrow> 'h \<Rightarrow> byte list option \<Rightarrow> 'h watch_state" where
  "start_state w h content = \<lparr>watcher = w, host = h, policy_file = content, cancelled = False,
     running = True, pending = False, loaded = [], swapped = [], calling = []\<rparr>"

section \<open>Lemmas\<close>

lemma handle_event_simps [simp]:
  "watcher (handle_event ev s) = watcher s" "loaded (handle_event ev s) = loaded s"
  "policy_file (handle_event ev s) = policy_file s" "host (handle_event ev s) = host s"
  "running (handle_event ev s) = running s"
  by (simp_all add: handle_event_def)

lemma fire_timer_simps [simp]:
  "watcher (fire_timer decode s) = watcher s" "host (fire_timer decode s) = host s"
  "policy_file (fire_timer decode s) = policy_file s" "pending (fire_timer decode s) = False"
  "running (fire_timer decode s) = running s"
  by (simp_all add: fire_timer_def split: sum.split)

lemma fire_timer_loaded:
  "loaded (fire_timer decode s) = loaded s @
     (case Load (\<lambda>_. policy_file s) decode (w_path (watcher s)) of Inl e \<Rightarrow> [] | Inr p \<Rightarrow> [p])"
  by (simp add: fire_timer_def split: sum.split)

lemma swap_in_cfg: "Get (w_cfg (watcher (swap_in i s))) = loaded s ! i"
  by (simp add: swap_in_def cell.get_put)

lemma swap_in_simps [simp]:
  "loaded (swap_in i s) = without i (loaded s)" "swapped (swap_in i s) = swapped s @ [loaded s ! i]"
  "host (swap_in i s) = host s" "w_onReload (watcher (swap_in i s)) = w_onReload (watcher s)"
  by (simp_all add: swap_in_def)

lemma notify_simps [simp]:
  "watcher (notify i s) = watcher s" "loaded (notify i s) = loaded s" "swapped (notify i s) = without i (swapped s)"
  "host (notify i s) = host s" "cancelled (notify i s) = cancelled s" "pending (notify i s) = pending s"
  "policy_file (notify i s) = policy_file s" "running (notify i s) = running s"
  by (simp_all add: notify_def)

lemma call_part_simps [simp]:
  "watcher (call_part i s) = watcher s" "loaded (call_part i s) = loaded s" "swapped (call_part i s) = swapped s"
  "cancelled (call_part i s) = cancelled s" "pending (call_part i s) = pending s"
  "policy_file (call_part i s) = policy_file s" "running (call_part i s) = running s"
  by (simp_all add: call_part_def split: prod.split)

lemma calling_simps [simp]:
  "calling (handle_event ev s) = calling s" "calling (fire_timer decode s) = calling s" "calling (swap_in j s) = calling s"
  by (simp_all add: handle_event_def fire_timer_def swap_in_def split: sum.split)

lemma without_all: "list_all P xs \<Longrightarrow> list_all P (without i xs)"
  by (auto simp: without_def list_all_iff dest: in_set_takeD in_set_dropD)

text \<open>Every policy in the system was there at the start or came out of \<open>Load\<close>.\<close>

lemma run_policies:
  assumes "watch_run decode s ls s'" and "I (Get (w_cfg (watcher s)))" and "loaded s = []"
    and "\<And>read_file path p. Load read_file decode path = Inr p \<Longrightarrow> I p"
  shows "I (Get (w_cfg (watcher s'))) \<and> list_all I (loaded s')"
  using assms(1-3)
proof induction
  case (steps_Nil s)
  then show ?case by simp
next
  case (steps_snoc s ls s' l s'')
  have IH: "I (Get (w_cfg (watcher s'))) \<and> list_all I (loaded s')"
    using steps_snoc.IH steps_snoc.prems by blast
  from steps_snoc.hyps(2) show ?case
  proof cases
    case step_fire
    then show ?thesis using IH assms(4)
      by (auto simp: fire_timer_loaded split: sum.split)
  next
    case (step_swap i)
    then show ?thesis using IH without_all [of I "loaded s'"]
      by (simp add: swap_in_cfg list_all_length)
  qed (use IH in \<open>auto simp: Shutdown_def split: if_splits\<close>)
qed

text \<open>The steps as a function of the label, so that a schedule can be evaluated.\<close>

definition watch_exec ::
  "(byte list \<Rightarrow> Policy option) \<Rightarrow> watch_label \<Rightarrow> 'h watch_state \<Rightarrow> 'h watch_state option" where
  "watch_exec decode l s = (case l of
     Cancel \<Rightarrow> Some (s\<lparr>cancelled := True\<rparr>)
   | CallShutdown \<Rightarrow> map_option (\<lambda>w. s\<lparr>watcher := w\<rparr>) (Shutdown (watcher s))
   | WriteFile content \<Rightarrow> Some (s\<lparr>policy_file := content\<rparr>)
   | CtxDone \<Rightarrow> if running s \<and> cancelled s then Some (s\<lparr>running := False\<rparr>) else None
   | DoneSignal \<Rightarrow> if running s \<and> w_done (watcher s) then Some (s\<lparr>running := False\<rparr>) else None
   | Closed \<Rightarrow> if running s then Some (s\<lparr>running := False\<rparr>) else None
   | Event ev \<Rightarrow> if running s then Some (handle_event ev s) else None
   | WatchError \<Rightarrow> if running s then Some s else None
   | TimerFires \<Rightarrow> if pending s then Some (fire_timer decode s) else None
   | SwapIn i \<Rightarrow> if i < length (loaded s) then Some (swap_in i s) else None
   | Notify i \<Rightarrow> if i < length (swapped s) then Some (notify i s) else None
   | Callback i \<Rightarrow> if i < length (calling s) then Some (call_part i s) else None)"

lemma watch_step_exec: "watch_step decode s l s' \<longleftrightarrow> watch_exec decode l s = Some s'"
  by (cases l) (auto simp: watch_exec_def watch_step.simps)

interpretation watch: executable_steps "watch_step decode" "watch_exec decode" for decode
  by unfold_locales (rule watch_step_exec)

text \<open>A callback that nothing interrupts: some of its parts are run, and the host is as \<open>run_parts\<close> says.\<close>

lemma call_parts:
  assumes "calling s = [(p, k)]" and "k < length (callback_parts s p)"
  shows "\<exists>n\<le>length (callback_parts s p) - k. steps (watch_step decode) s (replicate n (Callback 0))
    (s\<lparr>host := run_parts (drop k (callback_parts s p)) (host s), calling := []\<rparr>)"
  using assms
proof (induction "length (callback_parts s p) - k" arbitrary: s k)
  case (Suc m)
  obtain h goes_on where f: "(callback_parts s p ! k) (host s) = (h, goes_on)" by fastforce
  have drop: "drop k (callback_parts s p) = callback_parts s p ! k # drop (Suc k) (callback_parts s p)"
    using Suc.prems(2) by (simp add: Cons_nth_drop_Suc)
  have step: "steps (watch_step decode) s [Callback 0] (call_part 0 s)"
    using Suc.prems(1) by (simp add: watch.steps_execs watch_exec_def)
  show ?case
  proof (cases "goes_on \<and> Suc k < length (callback_parts s p)")
    case False
    then have "call_part 0 s = s\<lparr>host := run_parts (drop k (callback_parts s p)) (host s), calling := []\<rparr>"
      using Suc.prems f drop by (auto simp: call_part_def without_def)
    with step have "steps (watch_step decode) s (replicate 1 (Callback 0))
        (s\<lparr>host := run_parts (drop k (callback_parts s p)) (host s), calling := []\<rparr>)"
      by simp
    moreover have "1 \<le> length (callback_parts s p) - k" using Suc.prems(2) by simp
    ultimately show ?thesis by blast
  next
    case True
    define s' where "s' = call_part 0 s"
    have s': "s' = s\<lparr>host := h, calling := [(p, Suc k)]\<rparr>"
      using True Suc.prems f by (simp add: s'_def call_part_def)
    then have parts: "callback_parts s' p = callback_parts s p" by (simp add: callback_parts_def)
    have m: "m = length (callback_parts s' p) - Suc k" and further: "Suc k < length (callback_parts s' p)"
      using Suc.hyps(2) True by (simp_all add: parts)
    from Suc.hyps(1) [OF m _ further] s' parts obtain n where n: "n \<le> length (callback_parts s p) - Suc k"
      and run: "steps (watch_step decode) s' (replicate n (Callback 0))
        (s'\<lparr>host := run_parts (drop (Suc k) (callback_parts s p)) (host s'), calling := []\<rparr>)"
      by auto
    have "s'\<lparr>host := run_parts (drop (Suc k) (callback_parts s p)) (host s'), calling := []\<rparr> =
        s\<lparr>host := run_parts (drop k (callback_parts s p)) (host s), calling := []\<rparr>"
      using True f drop s' by simp
    with steps_append [OF run step [folded s'_def]]
    have "steps (watch_step decode) s (replicate (Suc n) (Callback 0))
        (s\<lparr>host := run_parts (drop k (callback_parts s p)) (host s), calling := []\<rparr>)"
      by simp
    moreover have "Suc n \<le> length (callback_parts s p) - k"
      using n conjunct2 [OF True] by linarith
    ultimately show ?thesis by blast
  qed
qed simp

text \<open>The reload the code runs in one goroutine is its parts in sequence, when no other one is under way.\<close>

lemma reload_parts:
  assumes "Load (\<lambda>_. policy_file s) decode (w_path (watcher s)) = Inr p"
    and "loaded s = []" and "swapped s = []" and "calling s = []" and "pending s"
  shows "\<exists>n s'. n \<le> length (callback_parts s p) \<and>
    steps (watch_step decode) s ([TimerFires, SwapIn 0, Notify 0] @ replicate n (Callback 0)) s' \<and>
    (watcher s', host s') = reload_commit p (watcher s, host s) \<and> calling s' = [] \<and> \<not> pending s'"
proof -
  define t where "t = notify 0 (swap_in 0 (fire_timer decode s))"
  have fired: "fire_timer decode s = s\<lparr>pending := False, loaded := [p]\<rparr>" using assms by (simp add: fire_timer_def)
  then have t: "t = s\<lparr>pending := False, watcher := (watcher s)\<lparr>w_cfg := Set p (w_cfg (watcher s))\<rparr>,
      calling := (if callback_parts s p = [] then [] else [(p, 0)])\<rparr>"
    using assms by (simp add: t_def swap_in_def notify_def without_def callback_parts_def)
  have start: "steps (watch_step decode) s [TimerFires, SwapIn 0, Notify 0] t"
    unfolding t_def using assms fired by (simp add: watch.steps_execs watch_exec_def)
  have commit: "reload_commit p (watcher s, host s) = (watcher t, run_parts (callback_parts t p) (host t))"
    and parts: "callback_parts t p = callback_parts s p"
    using t by (auto simp: reload_commit_def callback_parts_def Let_def split: option.split)
  show ?thesis
  proof (cases "callback_parts s p = []")
    case True
    with start commit parts t show ?thesis by (intro exI [of _ 0] exI [of _ t]) simp
  next
    case False
    have calls: "calling t = [(p, 0)]" using t False by simp
    have some: "0 < length (callback_parts t p)" using False by (simp add: parts)
    from call_parts [OF calls some, of decode] obtain n where n: "n \<le> length (callback_parts s p)"
      and run: "steps (watch_step decode) t (replicate n (Callback 0))
        (t\<lparr>host := run_parts (callback_parts t p) (host t), calling := []\<rparr>)"
      unfolding parts by auto
    show ?thesis
      by (intro exI conjI, rule n, rule steps_append [OF run start]) (simp_all add: commit, simp add: t)
  qed
qed

section \<open>Properties\<close>

text \<open>The served policy is coherent and fully defaulted in every reachable state, whatever the
  schedule and whatever is written to the file: an invalid file is never swapped in.\<close>

lemma watcher_serves_valid_policies:
  assumes "watch_run decode (start_state w h content) ls s"
    and "valid_policy (Get (w_cfg w))" and "setDefaults (Get (w_cfg w)) = Get (w_cfg w)"
  shows "valid_policy (Get (w_cfg (watcher s))) \<and>
    setDefaults (Get (w_cfg (watcher s))) = Get (w_cfg (watcher s))"
proof -
  have "valid_policy p \<and> setDefaults p = p" if "Load read_file decode path = Inr p"
    for read_file path p using that by (auto simp: Load_Inr)
  then show ?thesis
    using run_policies [OF assms(1), of "\<lambda>p. valid_policy p \<and> setDefaults p = p"] assms(2,3)
    by (simp add: start_state_def)
qed

lemma watcher_serves_valid_policies_witness:
  "\<exists>s. watch_run (\<lambda>_. Some demo_policy)
      (start_state (NewWatcher (NewConfig (setDefaults demo_policy)) ''/etc/policy.yaml'') () None)
      [WriteFile (Some [])] s \<and> valid_policy (Get (w_cfg (watcher s)))"
proof (intro exI conjI)
  let ?w = "NewWatcher (NewConfig (setDefaults demo_policy)) ''/etc/policy.yaml''"
  show run: "watch_run (\<lambda>_. Some demo_policy) (start_state ?w () None) [WriteFile (Some [])]
      ((start_state ?w () None)\<lparr>policy_file := Some []\<rparr>)"
    by (rule watch_run_one [OF step_write])
  show "valid_policy (Get (w_cfg (watcher ((start_state ?w () None)\<lparr>policy_file := Some []\<rparr>))))"
    using watcher_serves_valid_policies [OF run]
    by (simp add: NewWatcher_def NewConfig_def Get_def valid_demo_policy)
qed

lemma fold_handle_event:
  "fold handle_event evs s =
     s\<lparr>pending := pending s \<or> (\<exists>ev\<in>set evs. has_write ev \<and> event_name ev = w_path (watcher s))\<rparr>"
  by (induction evs arbitrary: s) (auto simp: handle_event_def)

text \<open>Debouncing: a burst of events with at least one write to the policy file, however many, makes
  the timer load the file once, with its content when the timer fires; after that the timer is not armed.
  Events for other files and events other than writes never arm it.\<close>

lemma watcher_debounces:
  "(pending (fold handle_event evs s) \<longleftrightarrow>
      pending s \<or> (\<exists>ev\<in>set evs. has_write ev \<and> event_name ev = w_path (watcher s))) \<and>
   fire_timer decode (fold handle_event evs s) = fire_timer decode s \<and>
   \<not> watch_step decode (fire_timer decode (fold handle_event evs s)) TimerFires s'"
  by (simp add: fold_handle_event watch_fire_iff)
    (simp add: fire_timer_def split: sum.split)

text \<open>A reload that fails changes nothing: the served policy and the host are as before.  One that
  succeeds serves the loaded policy, which is coherent.\<close>

lemma reload_all_or_nothing:
  "case reload read_file decode (w, h) of
     (Some e, s) \<Rightarrow> s = (w, h) \<and> Load read_file decode (w_path w) = Inl e
   | (None, (w', h')) \<Rightarrow> Load read_file decode (w_path w) = Inr (Get (w_cfg w')) \<and>
       valid_policy (Get (w_cfg w')) \<and> w_path w' = w_path w \<and>
       h' = (case w_onReload w of None \<Rightarrow> h | Some fn \<Rightarrow> run_parts (fn (Get (w_cfg w'))) h)"
  by (auto simp: reload_def reload_commit_def Let_def cell.get_put Load_Inr split: sum.split option.split)

section \<open>The watched directory\<close>

lemma parentDir_split:
  assumes "is_separator c" and "\<forall>x\<in>set f. \<not> is_separator x"
  shows "parentDir (d @ c # f) = d"
  using assms by (simp add: parentDir_def dropWhile_append_stop)

lemma parentDir_bare:
  assumes "\<forall>x\<in>set f. \<not> is_separator x"
  shows "parentDir f = ''.''"
  using assms by (simp add: parentDir_def dropWhile_all)

text \<open>The watch reports a file as the watched directory, a slash and the file's name.  For a path with
  a directory part that is the path itself, so its events match; for a bare file name, such as the
  default \<open>policy.yaml\<close>, it is \<open>./policy.yaml\<close>, and no write ever arms the timer.\<close>

lemma watched_name_matches:
  assumes "\<forall>x\<in>set f. \<not> is_separator x" and "w_path (watcher s) \<in> {d @ CHR ''/'' # f, f}" and "\<not> pending s"
  shows "pending (handle_event (FsEvent (parentDir (w_path (watcher s)) @ CHR ''/'' # f) True) s) \<longleftrightarrow>
    w_path (watcher s) = d @ CHR ''/'' # f"
proof (cases "w_path (watcher s) = d @ CHR ''/'' # f")
  case True
  have "is_separator (CHR ''/'')" by (simp add: is_separator_def)
  with True assms(1) show ?thesis by (simp add: parentDir_split handle_event_def)
next
  case False
  then have "w_path (watcher s) = f" using assms(2) by simp
  then show ?thesis using False assms(1,3) by (auto simp: parentDir_bare handle_event_def)
qed

lemma watched_name_matches_witness:
  "\<not> pending (handle_event (FsEvent (parentDir ''policy.yaml'' @ ''/policy.yaml'') True)
     (start_state (NewWatcher (NewConfig demo_policy) ''policy.yaml'') () None))"
  using watched_name_matches [of "''policy.yaml''"
      "start_state (NewWatcher (NewConfig demo_policy) ''policy.yaml'') () None" "''etc''"]
  by (simp add: start_state_def NewWatcher_def is_separator_def)

text \<open>The directory of a file in the root directory is the empty string, not the root.\<close>

lemma parentDir_root: "parentDir ''/policy.yaml'' = []"
  by (simp add: parentDir_def is_separator_def)

section \<open>What the schedule allows\<close>

text \<open>
  Stopping the loop does not stop an armed timer: the policy can still change after \<open>Shutdown\<close>.  And two
  reloads can overlap so that the older file content is swapped in last.
\<close>

lemma reload_after_shutdown:
  assumes "Load (\<lambda>_. content) decode path = Inr p"
  shows "\<exists>s. watch_run decode (start_state (NewWatcher c path) h content)
      [Event (FsEvent path True), CallShutdown, DoneSignal, TimerFires, SwapIn 0] s
    \<and> \<not> running s \<and> Get (w_cfg (watcher s)) = p"
  by (simp add: watch.steps_execs assms start_state_def NewWatcher_def handle_event_def Shutdown_def
      fire_timer_def swap_in_def without_def cell.get_put watch_exec_def)

lemma overlapping_reloads:
  assumes "Load (\<lambda>_. old) decode path = Inr p" and "Load (\<lambda>_. new) decode path = Inr q"
  shows "\<exists>s. watch_run decode (start_state (NewWatcher c path) h old)
      [Event (FsEvent path True), TimerFires, WriteFile new, Event (FsEvent path True), TimerFires,
       SwapIn 1, SwapIn 0] s
    \<and> policy_file s = new \<and> loaded s = [] \<and> Get (w_cfg (watcher s)) = p"
  by (simp add: watch.steps_execs assms start_state_def NewWatcher_def handle_event_def
      fire_timer_def swap_in_def without_def cell.get_put watch_exec_def)

lemma shutdown_twice: "Shutdown w = Some w' \<Longrightarrow> Shutdown w' = None"
  by (auto simp: Shutdown_def split: if_splits)

text \<open>
  A file that is replaced and not written to is never reloaded: whatever happens to it, as long as no event is a
  write under its very name, the policy of the start is served.  Editors that rename a new file into place, and
  Kubernetes, which swaps the symbolic link of a mounted directory, cause no such event.
\<close>

lemma replaced_file_ignored:
  assumes "watch_run decode s ls s'" and "pending s = False" and "loaded s = []" and "swapped s = []"
    and "\<And>ev. Event ev \<in> set ls \<Longrightarrow> has_write ev \<Longrightarrow> event_name ev \<noteq> w_path (watcher s)"
  shows "w_cfg (watcher s') = w_cfg (watcher s) \<and> w_path (watcher s') = w_path (watcher s) \<and>
    \<not> pending s' \<and> loaded s' = [] \<and> swapped s' = []"
  using assms
proof induction
  case (steps_snoc s ls s' l s'')
  then have IH: "w_cfg (watcher s') = w_cfg (watcher s)" "w_path (watcher s') = w_path (watcher s)"
    "\<not> pending s'" "loaded s' = []" "swapped s' = []" by simp_all
  have "has_write ev \<Longrightarrow> event_name ev \<noteq> w_path (watcher s)" if "l = Event ev" for ev
    using steps_snoc.prems(4) that by simp
  with steps_snoc.hyps(2) IH show ?case
    by (cases rule: watch_step.cases) (auto simp: handle_event_def Shutdown_def split: if_splits)
qed simp

end
