(* ===== verification/QueryGuard_Main.thy ===== *)
theory QueryGuard_Main
  imports Proxy_Properties Config_Watcher
begin

text \<open>
  \<open>cmd/queryguard/main.go\<close>: what the process sets up, the reload callback it registers, and the
  \<open>Strict-Transport-Security\<close> wrapper; then the composition of the running parts, the watcher with its
  callback and the handler that reads the live policy and the active proxy.
\<close>

section \<open>The reload callback\<close>

text \<open>
  What the callback changes: the proxy of the handler and the captured variable \<open>currentUpstream\<close>.  The variable has no
  lock, and the timer goroutines that run the callback may overlap; its atomic parts are the comparison, the swap of
  the proxy, and the assignment.
\<close>

record Host =
  active_target :: Target
  currentUpstream :: string

definition on_reload :: "(string \<Rightarrow> Target option) \<Rightarrow> Host callback" where
  "on_reload parse_url np =
     [\<lambda>h. (h, URL (Upstream np) \<noteq> currentUpstream h),
      \<lambda>h. case UpdateUpstream parse_url (URL (Upstream np)) (active_target h) of
            (err, t) \<Rightarrow> (h\<lparr>active_target := t\<rparr>, err = None),
      \<lambda>h. (h\<lparr>currentUpstream := URL (Upstream np)\<rparr>, True)]"

section \<open>Start-up\<close>

datatype startup_error = ConfigFailed load_error | HandlerFailed proxy_error

definition override_port :: "int64 \<Rightarrow> Policy \<Rightarrow> Policy" where
  "override_port port p = (if port \<noteq> 0 then p\<lparr>Server := (Server p)\<lparr>Port := port\<rparr>\<rparr> else p)"

record Process =
  proc_watcher :: "Host Watcher"
  proc_host :: Host
  proc_metrics :: "Metrics option"
  proc_engine :: TrinoEvaluator
  proc_label :: string
  proc_port :: int64
  proc_tls :: bool

definition main_setup ::
  "(string \<Rightarrow> byte list option) \<Rightarrow> (byte list \<Rightarrow> Policy option) \<Rightarrow> (string \<Rightarrow> Target option)
     \<Rightarrow> string \<Rightarrow> int64 \<Rightarrow> (startup_error, Process) go_result" where
  "main_setup read_file decode parse_url policyPath port =
     (case Load read_file decode policyPath of
        Inl e \<Rightarrow> Inl (ConfigFailed e)
      | Inr p0 \<Rightarrow>
          (let p = override_port port p0; cfg = NewConfig p
           in case NewHandler parse_url (Get cfg) (Some trinoEngineName) of
                Inl e \<Rightarrow> Inl (HandlerFailed e)
              | Inr (target, label) \<Rightarrow> Inr
                  \<lparr>proc_watcher = OnReload (on_reload parse_url) (NewWatcher cfg policyPath),
                   proc_host = \<lparr>active_target = target, currentUpstream = URL (Upstream (Get cfg))\<rparr>,
                   proc_metrics = Some NewMetrics, proc_engine = NewTrinoEvaluator (Get cfg), proc_label = label,
                   proc_port = Port (Server p), proc_tls = TLS_Enabled (TLS (Server p))\<rparr>))"

section \<open>The HSTS wrapper\<close>

text \<open>The wrapper sets the header before the handler runs; a proxied response adds its own values to it.\<close>

definition hsts_value :: string where
  "hsts_value = ''max-age=31536000; includeSubDomains''"

definition hstsHandler :: "bool \<Rightarrow> Reply \<Rightarrow> Reply" where
  "hstsHandler tlsEnabled reply =
     (if \<not> tlsEnabled then reply
      else reply\<lparr>reply_Header := header_put ''Strict-Transport-Security''
        (hsts_value # header_values (reply_Header reply) ''Strict-Transport-Security'') (reply_Header reply)\<rparr>)"

section \<open>The running process\<close>

text \<open>
  The world of the handler is the state of the watcher and the network.  What happens between two of the
  handler's reads is some run of the watcher and some activity on the network.
\<close>

record ('h, 'n) world =
  w_state :: "'h watch_state"
  w_net :: 'n

definition runs_watcher :: "(byte list \<Rightarrow> Policy option) \<Rightarrow> (Host, 'n) world Env \<Rightarrow> bool" where
  "runs_watcher decode env \<longleftrightarrow>
     policy_of env = (\<lambda>w. Get (w_cfg (watcher (w_state w)))) \<and> target_of env = (\<lambda>w. active_target (host (w_state w))) \<and>
     (\<forall>w. \<exists>ls. watch_run decode (w_state w) ls (w_state (interfere env w)))"

definition started :: "Process \<Rightarrow> byte list option \<Rightarrow> Host watch_state" where
  "started proc content = start_state (proc_watcher proc) (proc_host proc) content"

section \<open>Runs of the watcher\<close>

lemma watch_step_onReload: "watch_step decode s l s' \<Longrightarrow> w_onReload (watcher s') = w_onReload (watcher s)"
  by (induction rule: watch_step.induct) (auto simp: Shutdown_def split: if_splits)

section \<open>The upstream\<close>

definition host_ok :: "(string \<Rightarrow> Target option) \<Rightarrow> Host \<Rightarrow> bool" where
  "host_ok parse_url h \<longleftrightarrow> newReverseProxy parse_url (currentUpstream h) = Inr (active_target h)"

definition accepted :: "(string \<Rightarrow> Target option) \<Rightarrow> string \<Rightarrow> bool" where
  "accepted parse_url url \<longleftrightarrow> (\<exists>t. newReverseProxy parse_url url = Inr t)"

text \<open>What every schedule keeps: the proxy and the variable come from accepted URLs, and so does what a callback is
  about to record.\<close>

definition reloads_ok :: "(string \<Rightarrow> Target option) \<Rightarrow> Host watch_state \<Rightarrow> bool" where
  "reloads_ok parse_url s \<longleftrightarrow> w_onReload (watcher s) = Some (on_reload parse_url) \<and>
     accepted parse_url (currentUpstream (host s)) \<and>
     (\<exists>url. newReverseProxy parse_url url = Inr (active_target (host s))) \<and>
     list_all (\<lambda>(p, k). k < 3 \<and> (k = 2 \<longrightarrow> accepted parse_url (URL (Upstream p)))) (calling s)"

text \<open>Without overlapping callbacks there is at most one under way; between two of them the variable is the proxy's.\<close>

definition serial_step ::
  "(byte list \<Rightarrow> Policy option) \<Rightarrow> 'h watch_state \<Rightarrow> watch_label \<Rightarrow> 'h watch_state \<Rightarrow> bool" where
  "serial_step decode s l s' \<longleftrightarrow> watch_step decode s l s' \<and> length (calling s') \<le> 1"

definition serial_ok :: "(string \<Rightarrow> Target option) \<Rightarrow> Host watch_state \<Rightarrow> bool" where
  "serial_ok parse_url s \<longleftrightarrow> w_onReload (watcher s) = Some (on_reload parse_url) \<and>
     (case calling s of
        [] \<Rightarrow> host_ok parse_url (host s)
      | [(p, k)] \<Rightarrow> k < 3 \<and> (if k = 2 then newReverseProxy parse_url (URL (Upstream p)) = Inr (active_target (host s))
          else host_ok parse_url (host s))
      | _ \<Rightarrow> False)"

lemma on_reload_length [simp]: "length (on_reload parse_url p) = 3"
  by (simp add: on_reload_def)

lemma on_reload_nth:
  "on_reload parse_url p ! 0 = (\<lambda>h. (h, URL (Upstream p) \<noteq> currentUpstream h))"
  "on_reload parse_url p ! Suc 0 = (\<lambda>h. case UpdateUpstream parse_url (URL (Upstream p)) (active_target h) of
     (err, t) \<Rightarrow> (h\<lparr>active_target := t\<rparr>, err = None))"
  "on_reload parse_url p ! 2 = (\<lambda>h. (h\<lparr>currentUpstream := URL (Upstream p)\<rparr>, True))"
  by (simp_all add: on_reload_def)

lemma registered_parts: "w_onReload (watcher s) = Some (on_reload parse_url) \<Longrightarrow>
    callback_parts s p = on_reload parse_url p"
  by (simp add: callback_parts_def)

lemma watch_step_quiet:
  "watch_step decode s l s' \<Longrightarrow> (\<And>i. l \<noteq> Notify i) \<Longrightarrow> (\<And>i. l \<noteq> Callback i) \<Longrightarrow> calling s' = calling s \<and> host s' = host s"
  by (cases rule: watch_step.cases) auto

text \<open>The three parts of the callback, one case each.\<close>

lemma call_part_cases:
  assumes "w_onReload (watcher s) = Some (on_reload parse_url)" and "calling s ! i = (p, k)" and "k < 3"
  obtains (skip) "k = 0" and "URL (Upstream p) = currentUpstream (host s)"
      and "call_part i s = s\<lparr>calling := without i (calling s)\<rparr>"
    | (differs) "k = 0" and "call_part i s = s\<lparr>calling := (calling s)[i := (p, 1)]\<rparr>"
    | (refused) "k = 1" and "call_part i s = s\<lparr>calling := without i (calling s)\<rparr>"
    | (swapped) t where "k = 1" and "newReverseProxy parse_url (URL (Upstream p)) = Inr t"
      and "call_part i s = s\<lparr>host := (host s)\<lparr>active_target := t\<rparr>, calling := (calling s)[i := (p, 2)]\<rparr>"
    | (recorded) "k = 2" and "call_part i s = s\<lparr>host := (host s)\<lparr>currentUpstream := URL (Upstream p)\<rparr>,
        calling := without i (calling s)\<rparr>"
proof -
  note parts = registered_parts [OF assms(1)]
  from assms(3) consider "k = 0" | "k = 1" | "k = 2" by linarith
  then show ?thesis
  proof cases
    case 1
    have call: "call_part i s = s\<lparr>calling := (if URL (Upstream p) \<noteq> currentUpstream (host s)
        then (calling s)[i := (p, 1)] else without i (calling s))\<rparr>"
      using assms(2) by (simp add: call_part_def parts on_reload_nth 1)
    show ?thesis
    proof (cases "URL (Upstream p) = currentUpstream (host s)")
      case True
      with call show ?thesis by (intro skip 1) simp_all
    next
      case False
      with call show ?thesis by (intro differs 1) simp
    qed
  next
    case 2
    show ?thesis
    proof (cases "newReverseProxy parse_url (URL (Upstream p))")
      case (Inl e)
      with 2 assms(2) refused show ?thesis
        by (simp add: call_part_def parts on_reload_nth UpdateUpstream_def)
    next
      case (Inr t)
      with 2 assms(2) swapped show ?thesis
        by (simp add: call_part_def parts on_reload_nth UpdateUpstream_def numeral_2_eq_2)
    qed
  next
    case 3
    with assms(2) recorded show ?thesis by (simp add: call_part_def parts on_reload_nth)
  qed
qed

lemma nth_all: "list_all P xs \<Longrightarrow> i < length xs \<Longrightarrow> P (xs ! i)"
  by (simp add: list_all_length)

lemma update_all: "list_all P xs \<Longrightarrow> P x \<Longrightarrow> list_all P (xs[i := x])"
  by (auto simp: list_all_iff dest: set_update_subset_insert [THEN subsetD])

lemma reloads_step:
  assumes "watch_step decode s l s'" and "reloads_ok parse_url s"
  shows "reloads_ok parse_url s'"
proof -
  let ?ok = "\<lambda>(p, k). k < (3::nat) \<and> (k = 2 \<longrightarrow> accepted parse_url (URL (Upstream p)))"
  have fn: "w_onReload (watcher s) = Some (on_reload parse_url)" and all: "list_all ?ok (calling s)"
    using assms(2) by (simp_all add: reloads_ok_def)
  have fn': "w_onReload (watcher s') = Some (on_reload parse_url)"
    using watch_step_onReload [OF assms(1)] fn by simp
  from assms(1) show ?thesis
  proof cases
    case (step_notify i)
    then show ?thesis using assms(2) by (auto simp: reloads_ok_def notify_def)
  next
    case (step_call i)
    obtain p k where pk: "calling s ! i = (p, k)" by fastforce
    have k: "k < 3" and two: "k = 2 \<Longrightarrow> accepted parse_url (URL (Upstream p))"
      using nth_all [OF all step_call(3)] by (simp_all add: pk)
    note gone = without_all [OF all, of i] and moved = update_all [OF all]
    show ?thesis
    proof (cases rule: call_part_cases [OF fn pk k])
      case 1
      with step_call assms(2) gone show ?thesis by (simp add: reloads_ok_def)
    next
      case 2
      with step_call assms(2) moved [of "(p, 1)" i] show ?thesis by (simp add: reloads_ok_def)
    next
      case 3
      with step_call assms(2) gone show ?thesis by (simp add: reloads_ok_def)
    next
      case (4 t)
      with step_call assms(2) moved [of "(p, 2)" i] show ?thesis by (auto simp: reloads_ok_def accepted_def)
    next
      case 5
      with step_call assms(2) gone two show ?thesis by (simp add: reloads_ok_def)
    qed
  qed (use assms fn' in \<open>auto simp: reloads_ok_def Shutdown_def split: if_splits\<close>)
qed

lemma serial_calling: "serial_ok parse_url s \<Longrightarrow> calling s \<noteq> [] \<Longrightarrow> \<exists>p k. calling s = [(p, k)] \<and> k < 3"
  by (cases "calling s"; cases "tl (calling s)") (auto simp: serial_ok_def)

lemma serial_ok_step:
  assumes "serial_step decode s l s'" and "serial_ok parse_url s"
  shows "serial_ok parse_url s'"
proof -
  have step: "watch_step decode s l s'" and one: "length (calling s') \<le> 1" using assms(1) by (simp_all add: serial_step_def)
  have fn: "w_onReload (watcher s) = Some (on_reload parse_url)" using assms(2) by (simp add: serial_ok_def)
  have fn': "w_onReload (watcher s') = Some (on_reload parse_url)"
    using watch_step_onReload [OF step] fn by simp
  from step show ?thesis
  proof cases
    case (step_notify i)
    have parts: "callback_parts s p \<noteq> []" for p by (simp add: registered_parts [OF fn] on_reload_def)
    then have "calling s = []" using one step_notify by (auto simp: notify_def)
    then show ?thesis using assms(2) step_notify parts by (simp add: serial_ok_def notify_def)
  next
    case (step_call i)
    then have "calling s \<noteq> []" by auto
    from serial_calling [OF assms(2) this] step_call obtain p k where
      calls: "calling s = [(p, k)]" and i: "i = 0" and k: "k < 3" by auto
    then have pk: "calling s ! i = (p, k)" by simp
    show ?thesis
      using assms(2) step_call calls i
      by (cases rule: call_part_cases [OF fn pk k]) (auto simp: serial_ok_def host_ok_def without_def)
  qed (use assms(2) fn' in \<open>auto simp: serial_ok_def Shutdown_def split: if_splits list.splits\<close>)
qed

lemma main_setup_Inr:
  assumes "main_setup read_file decode parse_url path port = Inr proc"
  shows "\<exists>p. Load read_file decode path = Inr p \<and> Get (w_cfg (proc_watcher proc)) = override_port port p \<and>
    host_ok parse_url (proc_host proc) \<and> w_onReload (proc_watcher proc) = Some (on_reload parse_url) \<and>
    w_path (proc_watcher proc) = path \<and> proc_label proc = ''trino''"
  using assms
  by (auto simp: main_setup_def NewHandler_def host_ok_def Let_def Get_def NewConfig_def OnReload_def NewWatcher_def
      trinoEngineName_def split: sum.splits)

lemma started_simps [simp]:
  "watcher (started proc content) = proc_watcher proc" "host (started proc content) = proc_host proc"
  "loaded (started proc content) = []" "swapped (started proc content) = []"
  "policy_file (started proc content) = content" "pending (started proc content) = False"
  "calling (started proc content) = []"
  by (simp_all add: started_def start_state_def)

lemma process_reloads:
  assumes "main_setup read_file decode parse_url path port = Inr proc"
    and "watch_run decode (started proc content) ls s"
  shows "reloads_ok parse_url s"
proof (rule steps_invariant [OF assms(2)])
  show "reloads_ok parse_url (started proc content)"
    using main_setup_Inr [OF assms(1)] by (auto simp: reloads_ok_def accepted_def host_ok_def)
qed (rule reloads_step)

lemma process_serial:
  assumes "main_setup read_file decode parse_url path port = Inr proc"
    and "steps (serial_step decode) (started proc content) ls s"
  shows "serial_ok parse_url s"
proof (rule steps_invariant [OF assms(2)])
  show "serial_ok parse_url (started proc content)"
    using main_setup_Inr [OF assms(1)] by (auto simp: serial_ok_def)
qed (rule serial_ok_step)

lemma serial_run: "steps (serial_step decode) s ls s' \<Longrightarrow> watch_run decode s ls s'"
  by (induction rule: steps.induct) (auto simp: serial_step_def intro: watch_run_snoc)

lemma process_policy_override:
  assumes "main_setup read_file decode parse_url path port = Inr proc"
    and "watch_run decode (started proc content) ls s"
  shows "\<exists>p. valid_policy p \<and> setDefaults p = p \<and>
    (Get (w_cfg (watcher s)) = p \<or> Get (w_cfg (watcher s)) = override_port port p)"
proof -
  let ?I = "\<lambda>q. \<exists>p. valid_policy p \<and> setDefaults p = p \<and> (q = p \<or> q = override_port port p)"
  have good: "valid_policy p \<and> setDefaults p = p" if "Load rf decode q = Inr p" for rf q p
    using that by (auto simp: Load_Inr)
  from main_setup_Inr [OF assms(1)] obtain p where
    "Load read_file decode path = Inr p" "Get (w_cfg (proc_watcher proc)) = override_port port p" by auto
  with good have start: "?I (Get (w_cfg (watcher (started proc content))))" by auto
  have none: "loaded (started proc content) = []" by simp
  have load: "?I p" if "Load rf decode q = Inr p" for rf q p using good [OF that] by blast
  show ?thesis by (rule conjunct1 [OF run_policies [OF assms(2), where I = ?I, OF start none load]])
qed

lemma process_policy:
  assumes "main_setup read_file decode parse_url path 0 = Inr proc"
    and "watch_run decode (started proc content) ls s"
  shows "valid_policy (Get (w_cfg (watcher s))) \<and> setDefaults (Get (w_cfg (watcher s))) = Get (w_cfg (watcher s))"
  using process_policy_override [OF assms] by (auto simp: override_port_def)

text \<open>While the client waits for an answer, the watcher runs on.\<close>

definition client_runs :: "(byte list \<Rightarrow> Policy option) \<Rightarrow> (Host, 'n) world Client \<Rightarrow> bool" where
  "client_runs decode c \<longleftrightarrow> (\<forall>r w. \<exists>ls. watch_run decode (w_state w) ls (w_state (snd (do_request c r w))))"

lemma client_keeps:
  assumes "client_runs decode c" and "Evaluate c json flatten pol q h g m w = Some (r, m', w')"
  shows "\<exists>ls. watch_run decode (w_state w) ls (w_state w')"
proof (rule Evaluate_world [OF assms(2)])
  show "(\<exists>ls. watch_run decode (w_state w) ls (w_state w)) \<and>
      (\<exists>ls. watch_run decode (w_state w) ls (w_state (snd (do_request c r w))))" for w r
    using assms(1) watch_run_Nil unfolding client_runs_def by blast
qed (use watch_run_append in blast)

section \<open>A concrete process\<close>

definition demo_target :: "string \<Rightarrow> Target option" where
  "demo_target url = Some \<lparr>t_Scheme = ''http'', t_Host = (if HasPrefix url ''http://'' then drop 7 url else [])\<rparr>"

definition demo_proc :: Process where
  "demo_proc = projr (main_setup (\<lambda>_. Some []) (\<lambda>_. Some demo_policy) demo_target ''/etc/policy.yaml'' 0)"

lemma demo_setup:
  "main_setup (\<lambda>_. Some []) (\<lambda>_. Some demo_policy) demo_target ''/etc/policy.yaml'' 0 = Inr demo_proc"
proof -
  have load: "Load (\<lambda>_. Some []) (\<lambda>_. Some demo_policy) ''/etc/policy.yaml'' = Inr (setDefaults demo_policy)"
    by (simp add: Load_Inr valid_demo_policy)
  have "newReverseProxy demo_target (URL (Upstream (setDefaults demo_policy))) =
      Inr \<lparr>t_Scheme = ''http'', t_Host = ''trino:8080/''\<rparr>"
    by (simp add: newReverseProxy_def demo_target_def setDefaults_def demo_policy_def)
  then have "isl (main_setup (\<lambda>_. Some []) (\<lambda>_. Some demo_policy) demo_target ''/etc/policy.yaml'' 0) = False"
    by (simp add: main_setup_def load Let_def override_port_def NewHandler_def Get_def NewConfig_def)
  then show ?thesis unfolding demo_proc_def by (metis sum.collapse(2))
qed

section \<open>Properties\<close>

text \<open>The process starts exactly when the policy loads and its upstream is a URL with a scheme and a host;
  the handler's proxy then points at that upstream, the served policy is the loaded one up to the port
  given on the command line, and reloads are wired to the handler.\<close>

lemma startup_exact:
  "(\<not> isl (main_setup read_file decode parse_url path port) \<longleftrightarrow>
      (\<exists>p t. Load read_file decode path = Inr p \<and> newReverseProxy parse_url (URL (Upstream p)) = Inr t)) \<and>
   (case main_setup read_file decode parse_url path port of Inl e \<Rightarrow> True | Inr proc \<Rightarrow>
      \<exists>p. Load read_file decode path = Inr p \<and> Get (w_cfg (proc_watcher proc)) = override_port port p \<and>
        host_ok parse_url (proc_host proc) \<and> w_onReload (proc_watcher proc) = Some (on_reload parse_url))"
proof -
  have "URL (Upstream (override_port port p)) = URL (Upstream p)" for p by (simp add: override_port_def)
  then have "\<not> isl (main_setup read_file decode parse_url path port) \<longleftrightarrow>
      (\<exists>p t. Load read_file decode path = Inr p \<and> newReverseProxy parse_url (URL (Upstream p)) = Inr t)"
    by (auto simp: main_setup_def NewHandler_def Get_def NewConfig_def Let_def split: sum.split)
  then show ?thesis
    using main_setup_Inr [of read_file decode parse_url path port] by (auto split: sum.split)
qed

text \<open>C38. The handler never loses its upstream: at start-up and after every schedule of file changes, overlapping
  reloads and callbacks, the active proxy and the recorded upstream come from URLs that were accepted; and as
  long as no two callbacks overlap, the proxy points at the recorded upstream whenever none is under way.\<close>

theorem proxy_target_invariant:
  assumes "main_setup read_file decode parse_url path port = Inr proc"
    and "watch_run decode (started proc content) ls s"
  shows "(\<exists>url. newReverseProxy parse_url url = Inr (active_target (host s))) \<and>
    (\<exists>t. newReverseProxy parse_url (currentUpstream (host s)) = Inr t) \<and>
    (steps (serial_step decode) (started proc content) ls s \<and> calling s = [] \<longrightarrow>
      newReverseProxy parse_url (currentUpstream (host s)) = Inr (active_target (host s)))"
  using process_reloads [OF assms] process_serial [OF assms(1), of content ls s]
  by (auto simp: reloads_ok_def accepted_def serial_ok_def host_ok_def)

lemma proxy_target_invariant_witness:
  "newReverseProxy demo_target (currentUpstream (host (started demo_proc None))) =
    Inr (active_target (host (started demo_proc None)))"
  using proxy_target_invariant [OF demo_setup watch_run_Nil] by simp

text \<open>C39. Hot reload takes effect as a whole when nothing else is in flight: the file is loaded, served and
  announced, and after at most three parts of the callback the policy served is the file's; the proxy points at
  its upstream if that is usable, and stays where it was otherwise.\<close>

theorem reload_switches_upstream:
  assumes "main_setup read_file decode parse_url path port = Inr proc"
    and "steps (serial_step decode) (started proc content) ls s"
    and "pending s" and "loaded s = []" and "swapped s = []" and "calling s = []"
    and "Load (\<lambda>_. policy_file s) decode (w_path (watcher s)) = Inr p"
  shows "\<exists>n s'. n \<le> 3 \<and> watch_run decode s ([TimerFires, SwapIn 0, Notify 0] @ replicate n (Callback 0)) s' \<and>
    calling s' = [] \<and> Get (w_cfg (watcher s')) = p \<and>
    active_target (host s') = (case newReverseProxy parse_url (URL (Upstream p)) of
      Inr t \<Rightarrow> t | Inl e \<Rightarrow> active_target (host s))"
proof -
  from process_serial [OF assms(1,2)] assms(6) have fn: "w_onReload (watcher s) = Some (on_reload parse_url)"
    and ok: "host_ok parse_url (host s)" by (simp_all add: serial_ok_def)
  from reload_parts [OF assms(7,4,5,6,3)] obtain n s' where "n \<le> length (callback_parts s p)"
    and run: "watch_run decode s ([TimerFires, SwapIn 0, Notify 0] @ replicate n (Callback 0)) s'" "calling s' = []"
    and s': "(watcher s', host s') = reload_commit p (watcher s, host s)" by blast
  then have n: "n \<le> 3" by (simp add: registered_parts [OF fn])
  from s' fn have "Get (w_cfg (watcher s')) = p" "host s' = run_parts (on_reload parse_url p) (host s)"
    by (simp_all add: reload_commit_def Let_def cell.get_put)
  moreover have "active_target (run_parts (on_reload parse_url p) (host s)) =
      (case newReverseProxy parse_url (URL (Upstream p)) of Inr t \<Rightarrow> t | Inl e \<Rightarrow> active_target (host s))"
    using ok by (auto simp: on_reload_def UpdateUpstream_def host_ok_def split: sum.splits)
  ultimately show ?thesis using n run by metis
qed

lemma demo_proc_watcher: "w_path (proc_watcher demo_proc) = ''/etc/policy.yaml''" "running (started demo_proc c)"
  using main_setup_Inr [OF demo_setup] by (auto simp: started_def start_state_def)

lemma reload_switches_upstream_witness:
  "\<exists>n s (s' :: Host watch_state). watch_run (\<lambda>_. Some demo_policy) s
      ([TimerFires, SwapIn 0, Notify 0] @ replicate n (Callback 0)) s' \<and>
    Get (w_cfg (watcher s')) = setDefaults demo_policy"
proof -
  let ?ev = "FsEvent ''/etc/policy.yaml'' True"
  let ?s = "handle_event ?ev (started demo_proc (Some []))"
  have run: "steps (serial_step (\<lambda>_. Some demo_policy)) (started demo_proc (Some [])) [Event ?ev] ?s"
    by (rule steps_one) (simp add: serial_step_def step_event demo_proc_watcher)
  have load: "Load (\<lambda>_. policy_file ?s) (\<lambda>_. Some demo_policy) (w_path (watcher ?s)) = Inr (setDefaults demo_policy)"
    by (simp add: Load_Inr valid_demo_policy)
  have "pending ?s" "loaded ?s = []" "swapped ?s = []" "calling ?s = []"
    by (simp_all add: handle_event_def demo_proc_watcher)
  from reload_switches_upstream [OF demo_setup run this load] show ?thesis by blast
qed

text \<open>The whole process enforces coherent policies only: in any state the watcher can reach, and with reloads
  running on while the request is handled and while the shadow EXPLAIN is under way, a rejection rests on a
  policy that is valid and fully defaulted: the statement violates the Tier 1 stage of the reason under it,
  or is a SELECT whose reported estimates are beyond one of its cost limits.\<close>

lemma process_enforces_valid_policies:
  assumes "main_setup read_file decode parse_url path 0 = Inr proc"
    and "runs_watcher decode env" and "client_runs decode c"
    and "watch_run decode (started proc content) ls (w_state (st_World st))"
    and "handleStatement (trino_env c json flatten env) r st = Some (reply, st')" and "rejection_of reply = Some x"
  shows "\<exists>p res. valid_policy p \<and> setDefaults p = p \<and> Analyze (parse_sql env) (inspected_query r) = Inr res \<and>
    (tier1_verdict p res = Some (rr_Reason x) \<or>
     rr_Reason x = ReasonCostLimitBreach \<and> Classify (inspected_query r) = StatementSelect \<and>
     (\<exists>m w w' m' cost. Evaluate c json flatten (policy_of env) (inspected_query r) (r_Header r) True m w
         = Some (Inr cost, m', w') \<and>
       \<not> list_all (within_limit (EstimatedScanBytes cost) (TableScans cost) (EstimatedCPUCost cost))
         (CostLimits (Rules p))))"
proof -
  let ?live = "\<lambda>w. \<exists>ls. watch_run decode (started proc content) ls (w_state w)"
  have live: "?live (interfere env w)" if "?live w" for w
    using that assms(2) watch_run_append unfolding runs_watcher_def by blast
  have valid: "valid_policy (policy_of env w) \<and> setDefaults (policy_of env w) = policy_of env w" if "?live w" for w
    using that assms(2) process_policy [OF assms(1)] unfolding runs_watcher_def by auto
  have start: "?live (st_World st)" using assms(4) by blast
  from rejections_cause [OF assms(5,6)] obtain res where res: "Analyze (parse_sql env) (inspected_query r) = Inr res"
    and cause: "tier1_verdict (policy_of env (interfere env (st_World st))) res = Some (rr_Reason x) \<or>
      rr_Reason x = ReasonCostLimitBreach \<and> Classify (inspected_query r) = StatementSelect \<and>
      (\<exists>w' m' cost. Evaluate c json flatten (policy_of env) (inspected_query r) (r_Header r) True (st_Metrics st)
          (interfere env (interfere env (interfere env (st_World st)))) = Some (Inr cost, m', w') \<and>
        \<not> list_all (within_limit (EstimatedScanBytes cost) (TableScans cost) (EstimatedCPUCost cost))
          (CostLimits (Rules (policy_of env w'))))" by blast
  from cause show ?thesis
  proof (elim disjE conjE exE)
    assume "tier1_verdict (policy_of env (interfere env (st_World st))) res = Some (rr_Reason x)"
    then show ?thesis using res valid [OF live [OF start]] by blast
  next
    fix w' m' cost
    assume run: "Evaluate c json flatten (policy_of env) (inspected_query r) (r_Header r) True (st_Metrics st)
        (interfere env (interfere env (interfere env (st_World st)))) = Some (Inr cost, m', w')"
      and cost: "rr_Reason x = ReasonCostLimitBreach" "Classify (inspected_query r) = StatementSelect"
        "\<not> list_all (within_limit (EstimatedScanBytes cost) (TableScans cost) (EstimatedCPUCost cost))
          (CostLimits (Rules (policy_of env w')))"
    from client_keeps [OF assms(3) run] live [OF live [OF live [OF start]]] have "?live w'"
      using watch_run_append by blast
    with valid [of w'] res cost run show ?thesis by blast
  qed
qed

definition demo_world_env :: "(Host, unit) world Env" where
  "demo_world_env = \<lparr>policy_of = (\<lambda>w. Get (w_cfg (watcher (w_state w)))),
     target_of = (\<lambda>w. active_target (host (w_state w))), interfere = (\<lambda>w. w), transport = (\<lambda>r w. (None, w)),
     media_type = (\<lambda>s. s), parse_sql = (\<lambda>s. None), evaluator = None, gate_open = (\<lambda>w. True), elapsed = (\<lambda>w. 7),
     minted_id = (\<lambda>w. ''id-1''), engine_label = []\<rparr>"

definition demo_offline :: "(Host, unit) world Client" where
  "demo_offline = \<lparr>valid_request = (\<lambda>verb uri. True), do_request = (\<lambda>r w. (None, w)), unmarshal_page = (\<lambda>s. None)\<rparr>"

lemma process_enforces_valid_policies_witness:
  "\<exists>p res. valid_policy p \<and> setDefaults p = p \<and> Analyze (\<lambda>_. None) ''drop table t'' = Inr res \<and>
    tier1_verdict p res = Some ReasonStatementBlocklist"
proof -
  let ?env = "trino_env demo_offline (demo_json (demo_io [])) id demo_world_env"
  let ?r = "demo_request ''drop table t;''"
  let ?st = "\<lparr>st_World = \<lparr>w_state = started demo_proc None, w_net = ()\<rparr>, st_Metrics = None, st_Audit = []\<rparr>"
  let ?res = "(empty_result StatementDrop)\<lparr>Tables := extractTableNamesRaw ''drop table t'' []\<rparr>"
  have env: "runs_watcher (\<lambda>_. Some demo_policy) demo_world_env"
    by (auto simp: runs_watcher_def demo_world_env_def intro: exI [of _ "[]"])
  have pol: "policy_of ?env w = Get (w_cfg (watcher (w_state w)))" and id: "interfere ?env w = w"
    and parse: "parse_sql ?env = (\<lambda>_. None)" for w
    by (simp_all add: demo_world_env_def)
  have "Get (w_cfg (proc_watcher demo_proc)) = setDefaults demo_policy"
    using main_setup_Inr [OF demo_setup] by (auto simp: override_port_def Load_Inr)
  then have "tier1_verdict (policy_of ?env (interfere ?env (st_World ?st))) ?res = Some ReasonStatementBlocklist"
    by (simp add: pol id tier1_verdict_def statement_blocked_def setDefaults_def demo_policy_def EqualFold_refl
        del: trino_env_simps)
  moreover have "evaluated ?r" by (simp add: evaluated_def demo_drop_query IsBypass_def)
  moreover have "Analyze (parse_sql ?env) (inspected_query ?r) = Inr ?res"
    by (simp add: demo_drop_query Analyze_unparsed IsBypass_def parse del: trino_env_simps)
  ultimately obtain reply st' x where "handleStatement ?env ?r ?st = Some (reply, st')" "rejection_of reply = Some x"
    "rr_Reason x = ReasonStatementBlocklist"
    using rejected_by_tier1 by blast
  note reply = this
  have net: "client_runs (\<lambda>_. Some demo_policy) demo_offline"
    by (auto simp: client_runs_def demo_offline_def intro: exI [of _ "[]"])
  have live: "watch_run (\<lambda>_. Some demo_policy) (started demo_proc None) [] (w_state (st_World ?st))"
    by (simp add: watch_run_Nil)
  from process_enforces_valid_policies [OF demo_setup env net live reply(1,2)] reply(3)
  show ?thesis by (auto simp: demo_drop_query demo_world_env_def)
qed

section \<open>What the schedule allows\<close>

text \<open>
  The policy is served before its upstream is tried: a reload whose upstream URL has no host is refused by the
  proxy only, so that statements still go to the old upstream while the evaluator, which reads the live
  policy, sends its EXPLAIN to the new one.
\<close>

lemma refused_upstream_splits:
  assumes "host_ok parse_url h" and "newReverseProxy parse_url (URL (Upstream p)) = Inl e"
  shows "run_parts (on_reload parse_url p) h = h" and "currentUpstream h \<noteq> URL (Upstream p)"
  using assms by (auto simp: on_reload_def UpdateUpstream_def host_ok_def)

text \<open>Two reloads whose callbacks run in the other order leave the proxy at the older upstream.\<close>

lemmas callback_eval = watch.steps_execs watch_exec_def swap_in_def notify_def without_def cell.get_put
  call_part_def callback_parts_def on_reload_def UpdateUpstream_def

lemma crossed_callbacks:
  assumes "w_onReload (watcher s) = Some (on_reload parse_url)" and "loaded s = [p, q]" and "swapped s = []"
    and "calling s = []"
    and "newReverseProxy parse_url (URL (Upstream p)) = Inr t" and "newReverseProxy parse_url (URL (Upstream q)) = Inr u"
    and "distinct [URL (Upstream p), URL (Upstream q), currentUpstream (host s)]"
  shows "\<exists>s'. watch_run decode s [SwapIn 0, SwapIn 0, Notify 1, Callback 0, Callback 0, Callback 0,
      Notify 0, Callback 0, Callback 0, Callback 0] s' \<and>
    Get (w_cfg (watcher s')) = q \<and> active_target (host s') = t \<and> loaded s' = [] \<and> swapped s' = [] \<and> calling s' = []"
  using assms by (simp add: callback_eval)

text \<open>
  Two callbacks that overlap lose an update: the proxy stays at the upstream of the older policy while the newer one
  is recorded and served, and saving the newer policy again changes nothing, since its upstream is the recorded one.
\<close>

lemma racing_callbacks:
  assumes "w_onReload (watcher s) = Some (on_reload parse_url)" and "swapped s = [p, q]" and "calling s = []"
    and "Get (w_cfg (watcher s)) = q"
    and "newReverseProxy parse_url (URL (Upstream p)) = Inr t" and "newReverseProxy parse_url (URL (Upstream q)) = Inr u"
    and "distinct [URL (Upstream p), URL (Upstream q), currentUpstream (host s)]"
  shows "\<exists>s'. watch_run decode s [Notify 0, Notify 0, Callback 0, Callback 1, Callback 1, Callback 0, Callback 0, Callback 0] s' \<and>
    Get (w_cfg (watcher s')) = q \<and> active_target (host s') = t \<and> currentUpstream (host s') = URL (Upstream q) \<and>
    calling s' = [] \<and> run_parts (on_reload parse_url q) (host s') = host s'"
  using assms by (simp add: callback_eval)

text \<open>The port of the command line is not validated, and a later reload does not know of it.\<close>

lemma port_override_unchecked:
  "valid_policy p \<Longrightarrow> \<not> valid_policy (override_port 70000 p)"
  by (simp add: valid_policy_def override_port_def)

text \<open>Behind TLS, an upstream that sends the header itself has it sent twice.\<close>

lemma hsts_twice:
  "header_values (reply_Header (hstsHandler True reply)) ''Strict-Transport-Security'' =
     hsts_value # header_values (reply_Header reply) ''Strict-Transport-Security''"
  by (simp add: hstsHandler_def header_values_put)

end
