(* ===== verification/Request_System.thy ===== *)
theory Request_System
  imports Handler_Steps QueryGuard_Main
begin

text \<open>
  The process while it serves: any number of statements in any interleaving of their actions, next to the
  watcher that reloads the policy and moves the proxy.  \<open>net/http\<close> runs each request in a goroutine of its own;
  here a request is a thread whose program \<open>statement_prog\<close> is taken one action at a time.  The threads share
  what the goroutines share: the configuration and the active proxy (in the state of the watcher), the gate,
  the metrics and the audit log.
\<close>

section \<open>The state\<close>

text \<open>The functions of other packages that the handler calls.\<close>

record externals =
  x_parse :: "string \<Rightarrow> Statement option"
  x_json :: Json
  x_flatten :: "TableScan list \<Rightarrow> TableScan list"
  x_media_type :: "string \<Rightarrow> string"
  x_decode :: "byte list \<Rightarrow> Policy option"

record thread =
  th_Request :: ProxyRequest
  th_Prog :: prog
  th_Trace :: "event list"
  th_Reply :: "Reply option"

record system =
  sys_Watch :: "Host watch_state"
  sys_Slots :: nat
  sys_Holders :: "nat list"
  sys_Metrics :: "Metrics option"
  sys_Audit :: "audit_record list"
  sys_Threads :: "thread list"

definition live_policy :: "system \<Rightarrow> Policy" where
  "live_policy s = Get (w_cfg (watcher (sys_Watch s)))"

definition live_target :: "system \<Rightarrow> Target" where
  "live_target s = active_target (host (sys_Watch s))"

definition statement_request :: "ProxyRequest \<Rightarrow> bool" where
  "statement_request r \<longleftrightarrow> r_Method r = ''POST'' \<and> r_Path r = ''/v1/statement''"

definition handler_prog :: "externals \<Rightarrow> ProxyRequest \<Rightarrow> prog" where
  "handler_prog x r = statement_prog (x_parse x) (x_json x) (x_flatten x) ''trino'' r"

definition new_thread :: "externals \<Rightarrow> ProxyRequest \<Rightarrow> thread" where
  "new_thread x r = \<lparr>th_Request = r, th_Prog = handler_prog x r, th_Trace = [], th_Reply = None\<rparr>"

definition serving :: "Process \<Rightarrow> byte list option \<Rightarrow> system" where
  "serving proc content = \<lparr>sys_Watch = started proc content, sys_Slots = ev_slots (proc_engine proc),
     sys_Holders = [], sys_Metrics = proc_metrics proc, sys_Audit = [], sys_Threads = []\<rparr>"

section \<open>Steps\<close>

text \<open>A read of the policy sees the live one, and a slot is taken only while the channel has room.\<close>

definition enabled :: "system \<Rightarrow> event \<Rightarrow> bool" where
  "enabled s e = (case e of
     PolicyRead pol \<Rightarrow> pol = live_policy s
   | SlotTaken \<Rightarrow> length (sys_Holders s) < sys_Slots s
   | _ \<Rightarrow> True)"

definition perform :: "nat \<Rightarrow> event \<Rightarrow> system \<Rightarrow> system" where
  "perform i e s = (case e of
     Counted m \<Rightarrow> s\<lparr>sys_Metrics := apply_metric m (sys_Metrics s)\<rparr>
   | Logged a \<Rightarrow> s\<lparr>sys_Audit := sys_Audit s @ [a]\<rparr>
   | SlotTaken \<Rightarrow> s\<lparr>sys_Holders := sys_Holders s @ [i]\<rparr>
   | SlotFreed \<Rightarrow> s\<lparr>sys_Holders := remove1 i (sys_Holders s)\<rparr>
   | _ \<Rightarrow> s)"

definition set_thread :: "nat \<Rightarrow> thread \<Rightarrow> system \<Rightarrow> system" where
  "set_thread i th s = s\<lparr>sys_Threads := (sys_Threads s)[i := th]\<rparr>"

definition proceed :: "event \<Rightarrow> prog \<Rightarrow> thread \<Rightarrow> thread" where
  "proceed e p th = th\<lparr>th_Prog := p, th_Trace := th_Trace th @ [e]\<rparr>"

text \<open>The answer of the network to a forwarded request is part of the label: \<open>None\<close> when it cannot be reached.\<close>

datatype sys_label =
    Arrives ProxyRequest
  | Acts nat event
  | Answers nat
  | Proxies nat "ProxyResponse option"
  | Reconfigures watch_label

inductive sys_step :: "externals \<Rightarrow> system \<Rightarrow> sys_label \<Rightarrow> system \<Rightarrow> bool" for x where
  sys_arrives: "statement_request r \<Longrightarrow>
     sys_step x s (Arrives r) (s\<lparr>sys_Threads := sys_Threads s @ [new_thread x r]\<rparr>)"
| sys_acts: "i < length (sys_Threads s) \<Longrightarrow> resume (th_Prog (sys_Threads s ! i)) e = Some p \<Longrightarrow> enabled s e \<Longrightarrow>
     sys_step x s (Acts i e) (set_thread i (proceed e p (sys_Threads s ! i)) (perform i e s))"
| sys_answers: "i < length (sys_Threads s) \<Longrightarrow> th_Reply (sys_Threads s ! i) = None \<Longrightarrow>
     th_Prog (sys_Threads s ! i) = Answer reply \<Longrightarrow>
     sys_step x s (Answers i) (set_thread i ((sys_Threads s ! i)\<lparr>th_Reply := Some reply\<rparr>) s)"
| sys_proxies: "i < length (sys_Threads s) \<Longrightarrow> th_Reply (sys_Threads s ! i) = None \<Longrightarrow>
     th_Prog (sys_Threads s ! i) = SendUpstream r \<Longrightarrow>
     reply = fst (proxy_serve (x_media_type x) (\<lambda>out w. (response, w)) (live_target s) r ()) \<Longrightarrow>
     sys_step x s (Proxies i response) (set_thread i ((sys_Threads s ! i)\<lparr>th_Reply := Some reply\<rparr>) s)"
| sys_reconfigures: "watch_step (x_decode x) (sys_Watch s) l w \<Longrightarrow>
     sys_step x s (Reconfigures l) (s\<lparr>sys_Watch := w\<rparr>)"

abbreviation sys_run :: "externals \<Rightarrow> system \<Rightarrow> sys_label list \<Rightarrow> system \<Rightarrow> bool" where
  "sys_run x \<equiv> steps (sys_step x)"

lemmas sys_run_Nil = steps_Nil [of "sys_step x" for x]
lemmas sys_run_one = steps_one [of "sys_step x" for x]
lemmas sys_run_snoc = steps_snoc [of "sys_step x" for x]
lemmas sys_run_append = steps_append [of "sys_step x" for x]

inductive_cases sys_stepE: "sys_step x s l s'"

text \<open>The label determines the step, so runs can be computed.\<close>

definition sys_exec :: "externals \<Rightarrow> sys_label \<Rightarrow> system \<Rightarrow> system option" where
  "sys_exec x l s = (case l of
     Arrives r \<Rightarrow> if statement_request r then Some (s\<lparr>sys_Threads := sys_Threads s @ [new_thread x r]\<rparr>) else None
   | Acts i e \<Rightarrow>
       if i < length (sys_Threads s) \<and> enabled s e then
         map_option (\<lambda>p. set_thread i (proceed e p (sys_Threads s ! i)) (perform i e s))
           (resume (th_Prog (sys_Threads s ! i)) e)
       else None
   | Answers i \<Rightarrow>
       if i < length (sys_Threads s) \<and> th_Reply (sys_Threads s ! i) = None then
         (case th_Prog (sys_Threads s ! i) of
            Answer reply \<Rightarrow> Some (set_thread i ((sys_Threads s ! i)\<lparr>th_Reply := Some reply\<rparr>) s) | _ \<Rightarrow> None)
       else None
   | Proxies i response \<Rightarrow>
       if i < length (sys_Threads s) \<and> th_Reply (sys_Threads s ! i) = None then
         (case th_Prog (sys_Threads s ! i) of
            SendUpstream r \<Rightarrow> Some (set_thread i ((sys_Threads s ! i)\<lparr>th_Reply :=
              Some (fst (proxy_serve (x_media_type x) (\<lambda>out w. (response, w)) (live_target s) r ()))\<rparr>) s)
          | _ \<Rightarrow> None)
       else None
   | Reconfigures l \<Rightarrow> map_option (\<lambda>w. s\<lparr>sys_Watch := w\<rparr>) (watch_exec (x_decode x) l (sys_Watch s)))"

lemma sys_step_exec: "sys_step x s l s' \<longleftrightarrow> sys_exec x l s = Some s'"
  by (cases l) (auto simp: sys_exec_def sys_step.simps watch_step_exec split: prog.splits if_splits)

interpretation sys: executable_steps "sys_step x" "sys_exec x" for x
  by unfold_locales (rule sys_step_exec)

section \<open>Threads\<close>

lemma system_simps [simp]:
  "sys_Threads (perform i e s) = sys_Threads s" "sys_Watch (perform i e s) = sys_Watch s"
  "sys_Slots (perform i e s) = sys_Slots s"
  "sys_Threads (set_thread i th s) = (sys_Threads s)[i := th]" "sys_Watch (set_thread i th s) = sys_Watch s"
  "sys_Slots (set_thread i th s) = sys_Slots s" "sys_Holders (set_thread i th s) = sys_Holders s"
  "sys_Metrics (set_thread i th s) = sys_Metrics s" "sys_Audit (set_thread i th s) = sys_Audit s"
  by (simp_all add: perform_def set_thread_def split: event.split)

lemma proceed_simps [simp]:
  "th_Request (proceed e p th) = th_Request th" "th_Prog (proceed e p th) = p"
  "th_Trace (proceed e p th) = th_Trace th @ [e]" "th_Reply (proceed e p th) = th_Reply th"
  by (simp_all add: proceed_def)

text \<open>A thread has followed the program of its request, and its reply is the one the program ended with.\<close>

definition thread_ok :: "externals \<Rightarrow> thread \<Rightarrow> bool" where
  "thread_ok x th \<longleftrightarrow> statement_request (th_Request th) \<and>
     follow (handler_prog x (th_Request th)) (th_Trace th) = Some (th_Prog th) \<and>
     (case th_Reply th of None \<Rightarrow> True | Some reply \<Rightarrow> th_Prog th = Answer reply \<or>
        (\<exists>r response target. th_Prog th = SendUpstream r \<and>
           reply = fst (proxy_serve (x_media_type x) (\<lambda>out w. (response, w)) target r ())))"

lemma served_rejection [simp]: "rejection_of (fst (proxy_serve m t target r w)) = None"
  by (auto simp: proxy_serve_def rejection_of_def Let_def split: prod.split option.split)

lemma new_thread_ok: "statement_request r \<Longrightarrow> thread_ok x (new_thread x r)"
  by (simp add: thread_ok_def new_thread_def)

lemma thread_proceeds: "thread_ok x th \<Longrightarrow> resume (th_Prog th) e = Some p \<Longrightarrow> thread_ok x (proceed e p th)"
  by (cases "th_Reply th") (auto simp: thread_ok_def follow_append)

lemma list_all_update: "list_all P xs \<Longrightarrow> P y \<Longrightarrow> list_all P (xs[i := y])"
  using set_update_subset_insert [of xs i y] by (auto simp: list_all_iff)

lemma threads_step:
  "sys_step x s l s' \<Longrightarrow> list_all (thread_ok x) (sys_Threads s) \<Longrightarrow> list_all (thread_ok x) (sys_Threads s')"
proof (induction rule: sys_step.induct)
  case (sys_acts i s e p)
  then have "thread_ok x (sys_Threads s ! i)" by (simp add: list_all_length)
  with sys_acts show ?case by (simp add: list_all_update thread_proceeds)
next
  case (sys_answers i s reply)
  then have "thread_ok x (sys_Threads s ! i)" by (simp add: list_all_length)
  with sys_answers show ?case by (simp add: list_all_update thread_ok_def)
next
  case (sys_proxies i s r reply response)
  then have "thread_ok x (sys_Threads s ! i)" by (simp add: list_all_length)
  then have "thread_ok x ((sys_Threads s ! i)\<lparr>th_Reply := Some reply\<rparr>)"
    using sys_proxies(3,4) by (auto simp: thread_ok_def)
  with sys_proxies(5) show ?case by (simp add: list_all_update)
qed (auto simp: new_thread_ok)

lemma thread_ensures:
  assumes "thread_ok x th"
  shows "ensures (action_ok (x_parse x) (th_Request th))
    (ending_ok (x_parse x) (x_json x) (x_flatten x) (th_Request th)) (th_Prog th) (th_Trace th)"
  using ensures_follow [OF statement_ensures, of "x_parse x" "x_json x" "x_flatten x" "th_Request th" "th_Trace th" "th_Prog th"]
    assms by (simp add: thread_ok_def handler_prog_def)

lemma thread_action_ok:
  "thread_ok x th \<Longrightarrow> resume (th_Prog th) e = Some p \<Longrightarrow> action_ok (x_parse x) (th_Request th) (th_Trace th) e"
  using thread_ensures ensures_resume by blast

text \<open>How a thread can have ended: rejected, or with what the upstream answered.\<close>

lemma thread_ended:
  assumes "thread_ok x th" and "th_Reply th = Some reply"
  obtains (rejected) "ending_ok (x_parse x) (x_json x) (x_flatten x) (th_Request th) (th_Trace th) (Inl reply)"
    | (proxied) r where "ending_ok (x_parse x) (x_json x) (x_flatten x) (th_Request th) (th_Trace th) (Inr r)"
        and "th_Prog th = SendUpstream r" and "rejection_of reply = None"
  using assms thread_ensures [OF assms(1)] by (auto simp: thread_ok_def)

section \<open>What is shared agrees with the threads\<close>

lemma sum_list_update_add:
  fixes f :: "'a \<Rightarrow> 'b::comm_monoid_add"
  shows "i < length xs \<Longrightarrow> f y = f (xs ! i) + d \<Longrightarrow> sum_list (map f (xs[i := y])) = sum_list (map f xs) + d"
proof (induction xs arbitrary: i)
  case (Cons a xs)
  then show ?case by (cases i) (simp_all add: ac_simps)
qed simp

definition slot_bits :: "system \<Rightarrow> bool list" where
  "slot_bits s = map (\<lambda>th. holds_slot (th_Trace th)) (sys_Threads s)"

definition marked :: "bool list \<Rightarrow> nat set" where
  "marked bs = {i. i < length bs \<and> bs ! i}"

lemma marked_simps [simp]:
  "marked [] = {}" "marked (bs @ [b]) = (if b then insert (length bs) (marked bs) else marked bs)"
  "i < length bs \<Longrightarrow> marked (bs[i := True]) = insert i (marked bs)"
  "i < length bs \<Longrightarrow> marked (bs[i := False]) = marked bs - {i}"
  by (auto simp: marked_def nth_append less_Suc_eq nth_list_update split: if_splits)

definition holders_ok :: "system \<Rightarrow> bool" where
  "holders_ok s \<longleftrightarrow> distinct (sys_Holders s) \<and> length (sys_Holders s) \<le> sys_Slots s \<and>
     set (sys_Holders s) = marked (slot_bits s)"

definition counted :: "QueryStatus \<Rightarrow> system \<Rightarrow> nat" where
  "counted st s = sum_list (map (\<lambda>th. count_list (statuses (th_Trace th)) st) (sys_Threads s))"

definition logged :: "system \<Rightarrow> audit_record multiset" where
  "logged s = sum_list (map (\<lambda>th. mset (audits (th_Trace th))) (sys_Threads s))"

definition system_ok :: "externals \<Rightarrow> system \<Rightarrow> bool" where
  "system_ok x s \<longleftrightarrow> list_all (thread_ok x) (sys_Threads s) \<and> holders_ok s \<and> sys_Metrics s \<noteq> None \<and>
     (\<forall>st. query_count (sys_Metrics s) st ''trino'' = counted st s) \<and> mset (sys_Audit s) = logged s"

lemma slot_bits_simps [simp]:
  "slot_bits (set_thread i th s) = (slot_bits s)[i := holds_slot (th_Trace th)]"
  "slot_bits (perform i e s) = slot_bits s" "length (slot_bits s) = length (sys_Threads s)"
  "i < length (sys_Threads s) \<Longrightarrow> slot_bits s ! i = holds_slot (th_Trace (sys_Threads s ! i))"
  by (simp_all add: slot_bits_def map_update)

lemma same_bit: "i < length (sys_Threads s) \<Longrightarrow> (slot_bits s)[i := holds_slot (th_Trace (sys_Threads s ! i))] = slot_bits s"
  using list_update_id [of "slot_bits s" i] by simp

lemma perform_holders:
  "sys_Holders (perform i SlotTaken s) = sys_Holders s @ [i]"
  "sys_Holders (perform i SlotFreed s) = remove1 i (sys_Holders s)"
  "e \<noteq> SlotTaken \<Longrightarrow> e \<noteq> SlotFreed \<Longrightarrow> sys_Holders (perform i e s) = sys_Holders s"
  by (auto simp: perform_def split: event.split)

lemma holders_step:
  assumes "sys_step x s l s'" and "list_all (thread_ok x) (sys_Threads s)" and "holders_ok s"
  shows "holders_ok s'"
  using assms
proof (induction rule: sys_step.induct)
  case (sys_acts i s e p)
  let ?th = "sys_Threads s ! i"
  have "thread_ok x ?th" using sys_acts by (simp add: list_all_length)
  then have act: "action_ok (x_parse x) (th_Request ?th) (th_Trace ?th) e"
    using sys_acts(2) by (rule thread_action_ok)
  have bit: "i \<in> marked (slot_bits s) \<longleftrightarrow> holds_slot (th_Trace ?th)" using sys_acts(1) by (simp add: marked_def)
  consider "e = SlotTaken" | "e = SlotFreed" | "e \<noteq> SlotTaken" "e \<noteq> SlotFreed" by blast
  then show ?case
  proof cases
    case 1
    with act bit sys_acts show ?thesis by (simp add: holders_ok_def perform_holders enabled_def action_ok_def)
  next
    case 2
    with act bit sys_acts show ?thesis by (auto simp: holders_ok_def perform_holders action_ok_def length_remove1)
  next
    case 3
    then have "holds_slot (th_Trace ?th @ [e]) = holds_slot (th_Trace ?th)" by simp
    with 3 sys_acts show ?thesis by (simp add: holders_ok_def perform_holders same_bit)
  qed
qed (simp_all add: holders_ok_def same_bit, simp_all add: slot_bits_def new_thread_def)

lemma apply_metric_count:
  assumes "m \<noteq> None" and "\<And>st engine. me = QueryCounted st engine \<Longrightarrow> engine = ''trino''"
  shows "query_count (apply_metric me m) st ''trino'' =
      query_count m st ''trino'' + count_list (status_of (Counted me)) st \<and> apply_metric me m \<noteq> None"
  using assms by (cases me) (auto simp: RecordQuery_count)

lemma act_counts:
  assumes "action_ok (x_parse x) (th_Request th) (th_Trace th) e" and "sys_Metrics s \<noteq> None"
  shows "query_count (sys_Metrics (perform i e s)) st ''trino'' =
      query_count (sys_Metrics s) st ''trino'' + count_list (status_of e) st \<and> sys_Metrics (perform i e s) \<noteq> None"
proof (cases "\<exists>me. e = Counted me")
  case True
  then obtain me where e: "e = Counted me" by blast
  have "engine = ''trino''" if "me = QueryCounted st' engine" for st' engine
    using assms(1) that by (simp add: e action_ok_def)
  from apply_metric_count [OF assms(2) this] show ?thesis by (simp add: e perform_def)
next
  case False
  then have "sys_Metrics (perform i e s) = sys_Metrics s" "status_of e = []"
    by (cases e; simp add: perform_def)+
  with assms(2) show ?thesis by simp
qed

lemma act_logs: "mset (sys_Audit (perform i e s)) = mset (sys_Audit s) + mset (audit_of e)"
  by (cases e) (simp_all add: perform_def)

lemma counted_update:
  "i < length (sys_Threads s) \<Longrightarrow> statuses (th_Trace th) = statuses (th_Trace (sys_Threads s ! i)) @ sts \<Longrightarrow>
    counted st (set_thread i th s) = counted st s + count_list sts st"
  unfolding counted_def system_simps by (rule sum_list_update_add) simp_all

lemma logged_update:
  "i < length (sys_Threads s) \<Longrightarrow> audits (th_Trace th) = audits (th_Trace (sys_Threads s ! i)) @ as \<Longrightarrow>
    logged (set_thread i th s) = logged s + mset as"
  unfolding logged_def system_simps by (rule sum_list_update_add) simp_all

lemma shared_frame [simp]:
  "counted st (perform i e s) = counted st s" "logged (perform i e s) = logged s"
  "counted st (s\<lparr>sys_Watch := w\<rparr>) = counted st s" "logged (s\<lparr>sys_Watch := w\<rparr>) = logged s"
  by (simp_all add: counted_def logged_def)

lemma system_step_ok: "sys_step x s l s' \<Longrightarrow> system_ok x s \<Longrightarrow> system_ok x s'"
proof -
  assume step: "sys_step x s l s'" and ok: "system_ok x s"
  have threads: "list_all (thread_ok x) (sys_Threads s')" and holders: "holders_ok s'"
    using step ok threads_step holders_step by (auto simp: system_ok_def)
  from step ok have "sys_Metrics s' \<noteq> None \<and> (\<forall>st. query_count (sys_Metrics s') st ''trino'' = counted st s') \<and>
      mset (sys_Audit s') = logged s'"
  proof (induction rule: sys_step.induct)
    case (sys_arrives r s)
    then show ?case by (simp add: system_ok_def counted_def logged_def new_thread_def)
  next
    case (sys_acts i s e p)
    let ?th = "sys_Threads s ! i"
    have "thread_ok x ?th" using sys_acts by (simp add: system_ok_def list_all_length)
    then have act: "action_ok (x_parse x) (th_Request ?th) (th_Trace ?th) e"
      using sys_acts(2) by (rule thread_action_ok)
    have metrics: "sys_Metrics s \<noteq> None" using sys_acts by (simp add: system_ok_def)
    have "counted st (set_thread i (proceed e p ?th) (perform i e s)) = counted st s + count_list (status_of e) st" for st
      using counted_update [of i "perform i e s" "proceed e p ?th" "status_of e" st] sys_acts(1) by simp
    moreover have "logged (set_thread i (proceed e p ?th) (perform i e s)) = logged s + mset (audit_of e)"
      using logged_update [of i "perform i e s" "proceed e p ?th" "audit_of e"] sys_acts(1) by simp
    ultimately show ?case
      using act_counts [OF act metrics] sys_acts(4) by (simp add: system_ok_def act_logs)
  next
    case (sys_answers i s reply)
    then show ?case
      using counted_update [of i s "(sys_Threads s ! i)\<lparr>th_Reply := Some reply\<rparr>" "[]"]
        logged_update [of i s "(sys_Threads s ! i)\<lparr>th_Reply := Some reply\<rparr>" "[]"] by (simp add: system_ok_def)
  next
    case (sys_proxies i s r reply response)
    then show ?case
      using counted_update [of i s "(sys_Threads s ! i)\<lparr>th_Reply := Some reply\<rparr>" "[]"]
        logged_update [of i s "(sys_Threads s ! i)\<lparr>th_Reply := Some reply\<rparr>" "[]"] by (simp add: system_ok_def)
  next
    case (sys_reconfigures s l w)
    then show ?case by (simp add: system_ok_def)
  qed
  with threads holders show "system_ok x s'" by (simp add: system_ok_def)
qed

lemma system_run_ok: "sys_run x s ls s' \<Longrightarrow> system_ok x s \<Longrightarrow> system_ok x s'"
  by (erule steps_invariant) (auto dest: system_step_ok)

lemma serving_ok: "main_setup read_file decode parse_url path port = Inr proc \<Longrightarrow> system_ok x (serving proc content)"
  by (auto simp: serving_def system_ok_def holders_ok_def slot_bits_def counted_def logged_def query_count_def
      main_setup_def NewMetrics_def Let_def split: sum.splits)

lemmas reachable_ok = system_run_ok [OF _ serving_ok]

lemma setup_engine:
  "main_setup read_file decode parse_url path port = Inr proc \<Longrightarrow>
    proc_engine proc = NewTrinoEvaluator (Get (w_cfg (proc_watcher proc)))"
  by (auto simp: main_setup_def Let_def OnReload_def NewWatcher_def split: sum.splits)

section \<open>The past of a thread\<close>

lemma thread_past_ok:
  assumes "thread_ok x th" and "th_Trace th = es @ e # es'"
  shows "action_ok (x_parse x) (th_Request th) es e"
proof -
  from assms obtain p p' where "follow (handler_prog x (th_Request th)) es = Some p" "resume p e = Some p'"
    by (auto simp: thread_ok_def follow_append split: bind_splits)
  moreover have "ensures (action_ok (x_parse x) (th_Request th))
      (ending_ok (x_parse x) (x_json x) (x_flatten x) (th_Request th)) p ([] @ es)"
    using calculation(1) unfolding handler_prog_def by (rule ensures_follow [OF statement_ensures])
  ultimately show ?thesis using ensures_resume by fastforce
qed

lemma thread_trace_bound: "thread_ok x th \<Longrightarrow> length (th_Trace th) \<le> max_actions"
proof (cases "th_Trace th" rule: rev_cases)
  case (snoc es e)
  then show "thread_ok x th \<Longrightarrow> ?thesis" using thread_past_ok [of x th es e "[]"] by (simp add: action_ok_def)
qed simp

lemma sys_run_slots: "sys_run x s ls s' \<Longrightarrow> sys_Slots s' = sys_Slots s"
proof (induction rule: steps.induct)
  case (steps_snoc s ls s' l s'')
  then show ?case by (auto elim!: sys_stepE)
qed simp

lemma sys_run_watch: "sys_run x s ls s' \<Longrightarrow> \<exists>wls. watch_run (x_decode x) (sys_Watch s) wls (sys_Watch s')"
proof (induction rule: steps.induct)
  case (steps_Nil s)
  then show ?case using watch_run_Nil by blast
next
  case (steps_snoc s ls s' l s'')
  from steps_snoc(2) have "sys_Watch s'' = sys_Watch s' \<or> (\<exists>wl. watch_step (x_decode x) (sys_Watch s') wl (sys_Watch s''))"
    by (auto elim!: sys_stepE)
  with steps_snoc.IH show ?case using watch_run_snoc by metis
qed

text \<open>The policies that were live at some moment from the arrival of request \<open>i\<close> on.\<close>

definition served_since :: "externals \<Rightarrow> system \<Rightarrow> sys_label list \<Rightarrow> nat \<Rightarrow> Policy \<Rightarrow> bool" where
  "served_since x s ls i pol \<longleftrightarrow> (\<exists>ls1 ls2 s1. ls = ls1 @ ls2 \<and> sys_run x s ls1 s1 \<and>
     i < length (sys_Threads s1) \<and> live_policy s1 = pol)"

lemma served_later: "served_since x s ls i pol \<Longrightarrow> served_since x s (ls @ [l]) i pol"
  unfolding served_since_def by (metis append_assoc)

lemma step_trace:
  "sys_step x s l s' \<Longrightarrow> i < length (sys_Threads s') \<Longrightarrow>
    i < length (sys_Threads s) \<and> th_Trace (sys_Threads s' ! i) = th_Trace (sys_Threads s ! i) \<or>
    i < length (sys_Threads s) \<and> (\<exists>e. enabled s e \<and> th_Trace (sys_Threads s' ! i) = th_Trace (sys_Threads s ! i) @ [e]) \<or>
    th_Trace (sys_Threads s' ! i) = []"
  by (induction rule: sys_step.induct) (auto simp: nth_append nth_list_update new_thread_def less_Suc_eq)

lemma policies_read:
  assumes "sys_run x s0 ls s" and "sys_Threads s0 = []"
  shows "i < length (sys_Threads s) \<Longrightarrow> PolicyRead pol \<in> set (th_Trace (sys_Threads s ! i)) \<Longrightarrow>
    served_since x s0 ls i pol"
  using assms
proof (induction arbitrary: i)
  case (steps_snoc s0 ls s l s')
  from steps_snoc.hyps(2) consider
      (old) "i < length (sys_Threads s)" "th_Trace (sys_Threads s' ! i) = th_Trace (sys_Threads s ! i)"
    | (acts) e where "i < length (sys_Threads s)" "enabled s e"
        "th_Trace (sys_Threads s' ! i) = th_Trace (sys_Threads s ! i) @ [e]"
    | (new) "th_Trace (sys_Threads s' ! i) = []"
    using step_trace [OF _ steps_snoc.prems(1)] by blast
  then show ?case
  proof cases
    case old
    with steps_snoc show ?thesis by (intro served_later) simp
  next
    case acts
    show ?thesis
    proof (cases "e = PolicyRead pol")
      case True
      with acts(2) have "live_policy s = pol" by (simp add: enabled_def)
      with acts(1) steps_snoc.hyps(1) show ?thesis unfolding served_since_def by blast
    next
      case False
      with acts steps_snoc show ?thesis by (intro served_later) simp
    qed
  next
    case new
    with steps_snoc.prems show ?thesis by simp
  qed
qed simp

text \<open>Each of them was read from the file, valid and with its defaults filled in; the port of the first one may
  have been replaced by the one of the command line.\<close>

definition vetted :: "int64 \<Rightarrow> Policy \<Rightarrow> bool" where
  "vetted port pol \<longleftrightarrow> (\<exists>p. valid_policy p \<and> setDefaults p = p \<and> (pol = p \<or> pol = override_port port p))"

lemma served_vetted:
  assumes "main_setup read_file decode parse_url path port = Inr proc" and "x_decode x = decode"
    and "served_since x (serving proc content) ls i pol"
  shows "vetted port pol"
proof -
  from assms(3) obtain ls1 s1 where run: "sys_run x (serving proc content) ls1 s1" and pol: "live_policy s1 = pol"
    unfolding served_since_def by blast
  obtain wls where "watch_run decode (started proc content) wls (sys_Watch s1)"
    using sys_run_watch [OF run] assms(2) by (auto simp: serving_def)
  from process_policy_override [OF assms(1) this] pol show ?thesis by (simp add: live_policy_def vetted_def)
qed

section \<open>The gate, refined\<close>

definition at_gate :: "prog \<Rightarrow> bool" where
  "at_gate p = (case p of TakeSlot k \<Rightarrow> True | _ \<Rightarrow> False)"

definition gate_bits :: "system \<Rightarrow> bool list" where
  "gate_bits s = map (\<lambda>th. at_gate (th_Prog th)) (sys_Threads s)"

text \<open>The requests that wait at the select are those that wait in the gate, the others are not there.\<close>

definition gate_view :: "system \<Rightarrow> gate \<Rightarrow> bool" where
  "gate_view s g \<longleftrightarrow> capacity g = sys_Slots s \<and> holding g = sys_Holders s \<and> distinct (waiting g) \<and>
     set (waiting g) = marked (gate_bits s)"

lemma gate_bits_simps [simp]:
  "gate_bits (set_thread i th s) = (gate_bits s)[i := at_gate (th_Prog th)]"
  "gate_bits (perform i e s) = gate_bits s" "length (gate_bits s) = length (sys_Threads s)"
  "i < length (sys_Threads s) \<Longrightarrow> gate_bits s ! i = at_gate (th_Prog (sys_Threads s ! i))"
  by (simp_all add: gate_bits_def map_update)

text \<open>What a step of the process is at the gate: its own action there, then its coming to the select.\<close>

definition gate_move :: "nat \<Rightarrow> event \<Rightarrow> gate_label list" where
  "gate_move i e = (case e of
     SlotTaken \<Rightarrow> [Acquire i] | DeadlineHit \<Rightarrow> [Expire i] | SlotFreed \<Rightarrow> [Release i] | _ \<Rightarrow> [])"

definition gate_comes :: "nat \<Rightarrow> bool \<Rightarrow> gate_label list" where
  "gate_comes i b = (if b then [Arrive i] else [])"

definition gate_labels :: "system \<Rightarrow> sys_label \<Rightarrow> system \<Rightarrow> gate_label list" where
  "gate_labels s l s' = (case l of
     Arrives r \<Rightarrow> gate_comes (length (sys_Threads s)) (gate_bits s' ! length (sys_Threads s))
   | Acts i e \<Rightarrow> gate_move i e @ gate_comes i (gate_bits s' ! i)
   | _ \<Rightarrow> [])"

text \<open>The run of a process, read at the gate.\<close>

primrec gate_word :: "externals \<Rightarrow> sys_label list \<Rightarrow> system \<Rightarrow> gate_label list" where
  "gate_word x [] s = []"
| "gate_word x (l # ls) s =
     (case sys_exec x l s of None \<Rightarrow> [] | Some s' \<Rightarrow> gate_labels s l s' @ gate_word x ls s')"

lemma gate_word_snoc:
  "sys_run x s ls s1 \<Longrightarrow> sys_step x s1 l s2 \<Longrightarrow> gate_word x (ls @ [l]) s = gate_word x ls s @ gate_labels s1 l s2"
  unfolding sys.steps_execs
  by (induction ls arbitrary: s) (auto simp: sys_step_exec split: bind_splits)

lemma same_gate_bit:
  "i < length (sys_Threads s) \<Longrightarrow> gate_bits (set_thread i ((sys_Threads s ! i)\<lparr>th_Reply := reply\<rparr>) s) = gate_bits s"
  using list_update_id [of "gate_bits s" i] by simp

text \<open>A request that comes to the select, if it does.\<close>

lemma gate_arrives:
  assumes "i \<notin> set (waiting g)" and "b \<Longrightarrow> i \<notin> set (holding g)" and "distinct (waiting g)"
  shows "\<exists>g'. gate_run g (gate_comes i b) g' \<and> capacity g' = capacity g \<and> holding g' = holding g \<and>
    distinct (waiting g') \<and> set (waiting g') = (if b then insert i (set (waiting g)) else set (waiting g))"
proof (cases b)
  case True
  with assms have "gate_run g [Arrive i] (g\<lparr>waiting := waiting g @ [i]\<rparr>)"
    by (intro gate_run_one gate_arrive) auto
  with True assms show ?thesis
    by (intro exI [of _ "g\<lparr>waiting := waiting g @ [i]\<rparr>"]) (auto simp: gate_comes_def)
next
  case False
  with assms(3) show ?thesis by (intro exI [of _ g]) (simp add: gate_comes_def)
qed

text \<open>What an action does to the gate itself.\<close>

lemma gate_acts:
  assumes th: "thread_ok x (sys_Threads s ! i)" "i < length (sys_Threads s)"
    and act: "resume (th_Prog (sys_Threads s ! i)) e = Some p" "enabled s e"
    and ok: "holders_ok s" and view: "gate_view s g"
  shows "\<exists>g'. gate_run g (gate_move i e) g' \<and> capacity g' = sys_Slots s \<and> holding g' = sys_Holders (perform i e s) \<and>
    distinct (waiting g') \<and> set (waiting g') = marked (gate_bits s) - {i}"
proof -
  let ?th = "sys_Threads s ! i"
  have act_ok: "action_ok (x_parse x) (th_Request ?th) (th_Trace ?th) e" by (rule thread_action_ok [OF th(1) act(1)])
  have held: "i \<in> set (holding g) \<longleftrightarrow> holds_slot (th_Trace ?th)"
    using ok view th(2) by (auto simp: holders_ok_def gate_view_def marked_def)
  have waits: "i \<in> set (waiting g) \<longleftrightarrow> at_gate (th_Prog ?th)"
    using view th(2) by (auto simp: gate_view_def marked_def)
  consider "e = SlotTaken" | "e = DeadlineHit" | "e = SlotFreed" | "e \<notin> {SlotTaken, DeadlineHit, SlotFreed}" by blast
  then show ?thesis
  proof cases
    case 1
    then have "i \<in> set (waiting g)" "length (holding g) < capacity g"
      using act waits view by (auto simp: at_gate_def enabled_def gate_view_def split: prog.splits)
    from gate_run_one [OF gate_acquire [OF this]] view 1 show ?thesis
      by (intro exI [of _ "g\<lparr>waiting := remove1 i (waiting g), holding := holding g @ [i]\<rparr>"])
        (auto simp: gate_view_def perform_holders gate_move_def)
  next
    case 2
    then have "i \<in> set (waiting g)" using act waits by (auto simp: at_gate_def split: prog.splits)
    from gate_run_one [OF gate_expire [OF this]] view 2 show ?thesis
      by (intro exI [of _ "g\<lparr>waiting := remove1 i (waiting g)\<rparr>"])
        (auto simp: gate_view_def perform_holders gate_move_def)
  next
    case 3
    then have no: "i \<notin> set (waiting g)" and "i \<in> set (holding g)"
      using act act_ok waits held by (auto simp: at_gate_def action_ok_def split: prog.splits)
    from gate_run_one [OF gate_release [OF this(2)]] view 3 no show ?thesis
      by (intro exI [of _ "g\<lparr>holding := remove1 i (holding g)\<rparr>"])
        (auto simp: gate_view_def perform_holders gate_move_def)
  next
    case 4
    then have "i \<notin> set (waiting g)" using act waits by (auto simp: at_gate_def split: prog.splits event.splits)
    moreover have "gate_move i e = []" using 4 by (cases e) (simp_all add: gate_move_def)
    ultimately show ?thesis using view 4
      by (intro exI [of _ g]) (auto simp: gate_view_def perform_holders)
  qed
qed

text \<open>After the action the request may wait at the select, but not with a slot.\<close>

lemma waits_without_slot:
  "thread_ok x th \<Longrightarrow> at_gate (th_Prog th) \<Longrightarrow> \<not> holds_slot (th_Trace th)"
  using thread_ensures [of x th] by (auto simp: at_gate_def action_ok_def split: prog.splits)

lemma gate_view_step:
  assumes step: "sys_step x s l s'" and ok: "list_all (thread_ok x) (sys_Threads s)" "holders_ok s" and view: "gate_view s g"
  shows "\<exists>g'. gate_run g (gate_labels s l s') g' \<and> gate_view s' g'"
  using assms
proof (induction rule: sys_step.induct)
  case (sys_arrives r s)
  let ?i = "length (sys_Threads s)" and ?b = "at_gate (handler_prog x r)"
  have bits: "gate_bits (s\<lparr>sys_Threads := sys_Threads s @ [new_thread x r]\<rparr>) = gate_bits s @ [?b]"
    by (simp add: gate_bits_def new_thread_def)
  then have labels: "gate_labels s (Arrives r) (s\<lparr>sys_Threads := sys_Threads s @ [new_thread x r]\<rparr>) = gate_comes ?i ?b"
    by (simp add: gate_labels_def nth_append)
  have "?i \<notin> set (waiting g)" "?i \<notin> set (holding g)" "distinct (waiting g)"
    using sys_arrives by (auto simp: gate_view_def holders_ok_def marked_def)
  from gate_arrives [OF this(1) _ this(3), of ?b] this(2) obtain g' where run: "gate_run g (gate_comes ?i ?b) g'"
    and "capacity g' = capacity g" "holding g' = holding g" "distinct (waiting g')"
      "set (waiting g') = (if ?b then insert ?i (set (waiting g)) else set (waiting g))" by blast
  then have "gate_view (s\<lparr>sys_Threads := sys_Threads s @ [new_thread x r]\<rparr>) g'"
    using sys_arrives(4) by (simp add: gate_view_def bits)
  with run labels show ?case by auto
next
  case (sys_acts i s e p)
  let ?th = "sys_Threads s ! i" and ?s = "perform i e s"
  let ?s' = "set_thread i (proceed e p ?th) ?s"
  have labels: "gate_labels s (Acts i e) ?s' = gate_move i e @ gate_comes i (at_gate p)"
    using sys_acts(1) by (simp add: gate_labels_def)
  have th: "thread_ok x ?th" using sys_acts by (simp add: list_all_length)
  from gate_acts [OF th sys_acts(1-3) sys_acts(5,6)] obtain g1 where run: "gate_run g (gate_move i e) g1"
    and g1: "capacity g1 = sys_Slots s" "holding g1 = sys_Holders ?s" "distinct (waiting g1)"
      "set (waiting g1) = marked (gate_bits s) - {i}" by blast
  have "holders_ok ?s'"
    using holders_step [OF sys_step.sys_acts sys_acts(4,5)] sys_acts(1-3) by blast
  then have held: "i \<in> set (holding g1) \<longleftrightarrow> holds_slot (th_Trace ?th @ [e])"
    using sys_acts(1) g1(2) by (simp add: holders_ok_def) (simp add: marked_def)
  have "i \<notin> set (holding g1)" if "at_gate p"
    using waits_without_slot [OF thread_proceeds [OF th sys_acts(2)]] that held by simp
  moreover have "i \<notin> set (waiting g1)" using g1(4) by simp
  ultimately obtain g2 where run': "gate_run g1 (gate_comes i (at_gate p)) g2"
    and g2: "capacity g2 = capacity g1" "holding g2 = holding g1" "distinct (waiting g2)"
      "set (waiting g2) = (if at_gate p then insert i (set (waiting g1)) else set (waiting g1))"
    using gate_arrives [of i g1 "at_gate p"] g1(3) by blast
  have "gate_view ?s' g2" using g1 g2 sys_acts(1) by (simp add: gate_view_def)
  with gate_run_append [OF run' run] labels show ?case by auto
next
  case (sys_answers i s reply)
  then have "gate_view (set_thread i ((sys_Threads s ! i)\<lparr>th_Reply := Some reply\<rparr>) s) g"
    by (simp add: gate_view_def same_gate_bit del: gate_bits_simps)
  then show ?case by (auto simp: gate_labels_def)
next
  case (sys_proxies i s r reply response)
  then have "gate_view (set_thread i ((sys_Threads s ! i)\<lparr>th_Reply := Some reply\<rparr>) s) g"
    by (simp add: gate_view_def same_gate_bit del: gate_bits_simps)
  then show ?case by (auto simp: gate_labels_def)
next
  case (sys_reconfigures s l w)
  then have "gate_view (s\<lparr>sys_Watch := w\<rparr>) g" by (simp add: gate_view_def gate_bits_def)
  then show ?case by (auto simp: gate_labels_def)
qed

lemma gate_run_read:
  assumes "main_setup read_file decode parse_url path port = Inr proc" and "sys_run x (serving proc content) ls s"
  shows "\<exists>g. gate_run (new_gate (proc_engine proc)) (gate_word x ls (serving proc content)) g \<and> gate_view s g"
  using assms(2)
proof (induction ls arbitrary: s rule: rev_induct)
  case Nil
  then have "s = serving proc content" by simp
  then have "gate_view s (new_gate (proc_engine proc))"
    by (simp add: gate_view_def serving_def new_gate_def gate_bits_def)
  then show ?case by auto
next
  case (snoc l ls)
  then obtain t where t: "sys_run x (serving proc content) ls t" "sys_step x t l s" by (auto simp: steps_snoc_iff)
  from snoc.IH [OF t(1)] obtain g
    where g: "gate_run (new_gate (proc_engine proc)) (gate_word x ls (serving proc content)) g" "gate_view t g" by blast
  have "list_all (thread_ok x) (sys_Threads t)" "holders_ok t"
    using reachable_ok [OF t(1) assms(1)] by (simp_all add: system_ok_def)
  from gate_view_step [OF t(2) this g(2)] gate_run_append [OF _ g(1)] gate_word_snoc [OF t] show ?case by auto
qed

text \<open>A request that has its answer has left the gate.\<close>

lemma answered_left_gate:
  assumes ok: "system_ok x s" and view: "gate_view s g" and i: "i < length (sys_Threads s)"
    and reply: "th_Reply (sys_Threads s ! i) \<noteq> None"
  shows "i \<notin> set (waiting g) \<and> i \<notin> set (holding g)"
proof -
  from reply obtain y where y: "th_Reply (sys_Threads s ! i) = Some y" by blast
  have th: "thread_ok x (sys_Threads s ! i)" using ok i by (simp add: system_ok_def list_all_length)
  then have "\<not> at_gate (th_Prog (sys_Threads s ! i))" using y by (auto simp: thread_ok_def at_gate_def)
  moreover have "\<not> holds_slot (th_Trace (sys_Threads s ! i))"
    using th y by (cases rule: thread_ended) (simp_all add: ending_ok_def)
  ultimately show ?thesis
    using ok view i by (simp add: system_ok_def holders_ok_def gate_view_def) (simp add: marked_def)
qed

section \<open>A concrete run\<close>

definition demo_x :: externals where
  "demo_x = \<lparr>x_parse = (\<lambda>_. None), x_json = demo_json (demo_io []), x_flatten = id, x_media_type = id,
     x_decode = (\<lambda>_. Some demo_policy)\<rparr>"

text \<open>
  A DROP TABLE is rejected by the statement blocklist while the EXPLAIN of a SELECT is under way; the EXPLAIN then
  fails, and the SELECT is forwarded.
\<close>

definition demo_res :: AnalysisResult where
  "demo_res = (empty_result StatementDrop)\<lparr>Tables := extractTableNamesRaw ''drop table t'' []\<rparr>"

definition demo_live :: Policy where
  "demo_live = setDefaults demo_policy"

definition demo_audit :: audit_record where
  "demo_audit = \<lparr>au_Query = ''drop table t'', au_Reason = ReasonStatementBlocklist, au_Tables = Tables demo_res,
     au_WhereColumns = [], au_User = [], au_ClientTags = [], au_RequestID = ''id-1'', au_Snapshot = None\<rparr>"

definition demo_explain :: "statement_result \<Rightarrow> event" where
  "demo_explain result = Shadowed (trim_upstream demo_live @ engine_statementPath) (explainPrefix @ ''select k'') [] result"

definition demo_run :: "sys_label list" where
  "demo_run = [Arrives (demo_request ''drop table t;''), Arrives (demo_request ''select k''),
     Acts 0 (IDMinted ''id-1''), Acts 0 Paused, Acts 1 (IDMinted ''id-2''), Acts 1 Paused,
     Acts 1 (PolicyRead demo_live), Acts 1 Paused, Acts 1 (PolicyRead demo_live), Acts 1 Paused,
     Acts 1 (PolicyRead demo_live), Acts 1 SlotTaken,
     Acts 0 (PolicyRead demo_live), Acts 0 Paused, Acts 0 (PolicyRead demo_live), Acts 0 (Logged demo_audit),
     Acts 0 (Counted (QueryCounted StatusBlocked ''trino'')), Answers 0]"

definition demo_rest :: "sys_label list" where
  "demo_rest = [Acts 1 (demo_explain (Inl ClientError)), Acts 1 SlotFreed, Acts 1 (ClockRead 5),
     Acts 1 (Counted (PreflightObserved 5)), Acts 1 Paused, Acts 1 (Counted (QueryCounted StatusAllowed ''trino'')),
     Proxies 1 None]"

lemma demo_live: "sys_Watch s = started demo_proc None \<Longrightarrow> live_policy s = demo_live"
proof -
  obtain p where "Load (\<lambda>_. Some []) (\<lambda>_. Some demo_policy) ''/etc/policy.yaml'' = Inr p"
      "Get (w_cfg (proc_watcher demo_proc)) = p"
    using main_setup_Inr [OF demo_setup] by (auto simp: override_port_def)
  then show "sys_Watch s = started demo_proc None \<Longrightarrow> live_policy s = demo_live"
    by (simp add: live_policy_def demo_live_def Load_Inr)
qed

lemma demo_tier1: "tier1 demo_live demo_res = (ReasonStatementBlocklist, StatementBlocked StatementDrop, False)"
  by (simp add: tier1_def check_statement_def demo_live_def demo_res_def setDefaults_def demo_policy_def EqualFold_refl)

lemma demo_select: "inspected (demo_request ''select k'')" "inspected_query (demo_request ''select k'') = ''select k''"
    "Classify ''select k'' = StatementSelect"
  by (simp_all add: inspected_def inspected_query_def maxStatementBodyBytes_def semicolon_blanks_def go_eval
      Classify_def extractVerb_def strip_comments.simps runes_ascii encode_rune_def unicode_ToUpper_def
      verbClass_def TrimRight_def)

lemma demo_select_no_tables: "extractTableNamesRaw ''select k'' [] = []"
proof -
  have "tokenizeRaw ''select k'' = [''select'', ''k'']" by (simp add: tokenizeRaw_def tokenize_loop_lex go_eval)
  then show ?thesis by (simp add: extractTableNamesRaw_candidates candidates_eval go_eval)
qed

lemma demo_prog:
  assumes "inspected (demo_request b)" and "Classify (inspected_query (demo_request b)) = cls" and "\<not> IsBypass cls"
  shows "handler_prog demo_x (demo_request b) = MintID (\<lambda>i. Pause (tiers_prog (demo_json (demo_io [])) id ''trino''
    (WithRequestID i (demo_request b)) b (inspected_query (demo_request b))
    ((empty_result cls)\<lparr>Tables := extractTableNamesRaw (inspected_query (demo_request b)) []\<rparr>)))"
proof -
  have query: "TrimRight (TrimSpace b) semicolon_blanks = inspected_query (demo_request b)"
    and cap: "length b \<le> maxStatementBodyBytes" and full: "TrimSpace b \<noteq> []"
    using assms(1) by (simp_all add: inspected_query_def inspected_def)
  have "query_prog (\<lambda>_. None) json flatten ''trino'' r body (inspected_query (demo_request b)) =
      Pause (tiers_prog json flatten ''trino'' r body (inspected_query (demo_request b))
        ((empty_result cls)\<lparr>Tables := extractTableNamesRaw (inspected_query (demo_request b)) []\<rparr>))"
    for json flatten r body
    using assms(2,3) by (simp add: query_prog_def Analyze_unparsed)
  with query cap full show ?thesis
    by (simp add: handler_prog_def statement_prog_def body_prog_def demo_x_def header_Get_def header_values_def Let_def)
qed

lemma demo_progs:
  "handler_prog demo_x (demo_request ''drop table t;'') = MintID (\<lambda>i. Pause (tiers_prog (demo_json (demo_io [])) id ''trino''
    (WithRequestID i (demo_request ''drop table t;'')) ''drop table t;'' ''drop table t'' demo_res))"
  "handler_prog demo_x (demo_request ''select k'') = MintID (\<lambda>i. Pause (tiers_prog (demo_json (demo_io [])) id ''trino''
    (WithRequestID i (demo_request ''select k'')) ''select k'' ''select k'' (empty_result StatementSelect)))"
  using demo_prog [OF demo_drop_query(1), of StatementDrop] demo_prog [OF demo_select(1), of StatementSelect]
  by (simp_all add: demo_drop_query demo_select demo_select_no_tables demo_res_def IsBypass_def empty_result_def)

lemma demo_select_passes: "\<exists>msg reason. tier1 demo_live (empty_result StatementSelect) = (reason, msg, True)"
proof -
  have "tier1_verdict demo_live (empty_result StatementSelect) = None"
    by (simp add: tier1_verdict_def statement_blocked_def table_blocked_def function_blocked_def filters_satisfied_def
        demo_live_def setDefaults_def demo_policy_def empty_result_def go_eval)
  then show ?thesis using tier1_verdict [of demo_live "empty_result StatementSelect"] by (auto split: prod.splits)
qed

lemma demo_slots: "0 < ev_slots (proc_engine demo_proc)"
  using setup_engine [OF demo_setup] by (simp add: NewTrinoEvaluator_def)

lemma demo_policy_facts: "LogRejections (Audit demo_live)" "\<not> SnapshotPlan (Audit demo_live)"
    "CostLimits (Rules demo_live) \<noteq> []"
  by (simp_all add: demo_live_def setDefaults_def demo_policy_def)

lemma demo_entry: "demo_audit = \<lparr>au_Query = ''drop table t'', au_Reason = ReasonStatementBlocklist, au_Tables = Tables demo_res,
     au_WhereColumns = WhereColumns demo_res, au_User = header_Get [] ''X-Trino-User'',
     au_ClientTags = header_Get [] ''X-Trino-Client-Tags'', au_RequestID = ''id-1'', au_Snapshot = None\<rparr>"
  by (simp add: demo_audit_def demo_res_def empty_result_def header_Get_def header_values_def)

lemma demo_request_ok: "statement_request (demo_request b)"
  by (simp add: statement_request_def)

lemma demo_runs:
  "\<exists>s t0 t1. sys_run demo_x (serving demo_proc None) demo_run s \<and> sys_Threads s = [t0, t1] \<and>
    sys_Watch s = started demo_proc None \<and> sys_Holders s = [1] \<and>
    th_Request t0 = demo_request ''drop table t;'' \<and>
    th_Reply t0 = Some (reject (WithRequestID ''id-1'' (demo_request ''drop table t;''))
      ReasonStatementBlocklist (Tier1Message (StatementBlocked StatementDrop))) \<and>
    th_Request t1 = demo_request ''select k'' \<and> th_Reply t1 = None \<and>
    th_Prog t1 = Shadow (trim_upstream demo_live @ engine_statementPath) (explainPrefix @ ''select k'') []
      (verdict_prog (demo_json (demo_io [])) id (costed_prog ''trino'' (WithRequestID ''id-2'' (demo_request ''select k''))
        ''select k'' ''select k'' (empty_result StatementSelect)))"
proof -
  obtain reason msg where pass: "tier1 demo_live (empty_result StatementSelect) = (reason, msg, True)"
    using demo_select_passes by blast
  have drop: "result_class (empty_result StatementSelect) = StatementSelect" by (simp add: empty_result_def)
  show ?thesis
    unfolding sys.steps_execs demo_run_def serving_def
    by (simp add: sys_exec_def demo_request_ok new_thread_def demo_progs enabled_def demo_live tiers_prog_def demo_tier1
        pass drop reject_prog_def tier2_prog_def evaluate_prog_def demo_policy_facts demo_entry demo_slots
        set_thread_def perform_def proceed_def)
qed

lemma demo_finishes:
  "\<exists>s t0 t1. sys_run demo_x (serving demo_proc None) (demo_run @ demo_rest) s \<and> sys_Threads s = [t0, t1] \<and>
    th_Request t0 = demo_request ''drop table t;'' \<and>
    th_Reply t0 = Some (reject (WithRequestID ''id-1'' (demo_request ''drop table t;''))
      ReasonStatementBlocklist (Tier1Message (StatementBlocked StatementDrop))) \<and>
    th_Request t1 = demo_request ''select k'' \<and> th_Reply t1 \<noteq> None \<and> rejection_of (the (th_Reply t1)) = None \<and>
    demo_explain (Inl ClientError) \<in> set (th_Trace t1)"
proof -
  obtain s t0 t1 where run: "execs (sys_exec demo_x) demo_run (serving demo_proc None) = Some s"
    and "sys_Threads s = [t0, t1]" "sys_Watch s = started demo_proc None" "sys_Holders s = [1]"
      "th_Request t0 = demo_request ''drop table t;''"
      "th_Reply t0 = Some (reject (WithRequestID ''id-1'' (demo_request ''drop table t;''))
        ReasonStatementBlocklist (Tier1Message (StatementBlocked StatementDrop)))"
      "th_Request t1 = demo_request ''select k''" "th_Reply t1 = None"
      "th_Prog t1 = Shadow (trim_upstream demo_live @ engine_statementPath) (explainPrefix @ ''select k'') []
        (verdict_prog (demo_json (demo_io [])) id (costed_prog ''trino'' (WithRequestID ''id-2'' (demo_request ''select k''))
          ''select k'' ''select k'' (empty_result StatementSelect)))"
    using demo_runs unfolding sys.steps_execs by blast
  then show ?thesis
    unfolding sys.steps_execs demo_rest_def
    by (simp add: execs_append run sys_exec_def demo_explain_def enabled_def verdict_prog_def costed_prog_def
        forward_prog_def set_thread_def perform_def proceed_def)
qed

section \<open>Properties\<close>

definition explaining :: "thread \<Rightarrow> bool" where
  "explaining th = (case th_Prog th of Shadow uri q h k \<Rightarrow> True | _ \<Rightarrow> False)"

lemma explaining_holds: "thread_ok x th \<Longrightarrow> explaining th \<Longrightarrow> holds_slot (th_Trace th)"
  using thread_ensures [of x th] by (auto simp: explaining_def action_ok_def split: prog.splits)

lemma marked_card: "card (marked bs) = length (filter id bs)"
  by (simp add: marked_def length_filter_conv_card)

lemma filter_mono_length: "(\<And>x. x \<in> set xs \<Longrightarrow> P x \<Longrightarrow> Q x) \<Longrightarrow> length (filter P xs) \<le> length (filter Q xs)"
  by (induction xs) auto

lemma explaining_bounded:
  assumes "system_ok x s"
  shows "length (filter explaining (sys_Threads s)) \<le> sys_Slots s"
proof -
  have "length (filter explaining (sys_Threads s)) \<le> length (filter (\<lambda>th. holds_slot (th_Trace th)) (sys_Threads s))"
    using assms explaining_holds by (intro filter_mono_length) (auto simp: system_ok_def list_all_iff)
  also have "\<dots> = length (filter id (slot_bits s))" by (simp add: slot_bits_def filter_map comp_def)
  also have "\<dots> = length (sys_Holders s)"
    using assms by (simp add: marked_card [symmetric] system_ok_def holders_ok_def) (metis distinct_card)
  finally show ?thesis using assms by (simp add: system_ok_def holders_ok_def)
qed

text \<open>C10. However many statements are in flight and however their actions interleave, with reloads among them, at
  most \<open>preflight.max_concurrent\<close> (as it was when the process started) have a shadow EXPLAIN at the
  coordinator.\<close>

theorem explains_in_flight_bounded:
  assumes "main_setup read_file decode parse_url path port = Inr proc"
    and "sys_run x (serving proc content) ls s"
  shows "int (length (filter explaining (sys_Threads s))) \<le>
    (let n = sint (MaxConcurrent (Preflight (Get (w_cfg (proc_watcher proc))))) in if n \<le> 0 then 5 else n)"
  using explaining_bounded [OF reachable_ok [OF assms(2,1)]] sys_run_slots [OF assms(2)] setup_engine [OF assms(1)]
  by (simp add: serving_def NewTrinoEvaluator_def Let_def split: if_splits)

lemma explains_in_flight_bounded_witness:
  "\<exists>s. sys_run demo_x (serving demo_proc None) demo_run s \<and> filter explaining (sys_Threads s) \<noteq> [] \<and>
    int (length (filter explaining (sys_Threads s))) \<le>
      (let n = sint (MaxConcurrent (Preflight (Get (w_cfg (proc_watcher demo_proc))))) in if n \<le> 0 then 5 else n)"
proof -
  obtain s t0 t1 where run: "sys_run demo_x (serving demo_proc None) demo_run s" and "sys_Threads s = [t0, t1]"
    and "explaining t1"
    using demo_runs by (auto simp: explaining_def)
  with explains_in_flight_bounded [OF demo_setup run] show ?thesis by (intro exI [of _ s]) auto
qed

text \<open>C16. The gate of the concurrent process is the gate on its own, step by step: whatever the requests and the
  watcher do, the actions of the process at the gate, read in their order (a request comes to the select, gets a
  slot, gives up at its deadline, gives its slot back), are a run of \<open>gate_step\<close>, which leads to a gate in which exactly
  the requests at the select wait and exactly those that took a slot hold one; and a request that has its answer is in
  neither, so no slot is ever lost.\<close>

theorem process_refines_gate:
  assumes "main_setup read_file decode parse_url path port = Inr proc"
    and "sys_run x (serving proc content) ls s"
  shows "\<exists>g. gate_run (new_gate (proc_engine proc)) (gate_word x ls (serving proc content)) g \<and> gate_view s g \<and>
    (\<forall>i<length (sys_Threads s). th_Reply (sys_Threads s ! i) \<noteq> None \<longrightarrow> i \<notin> set (waiting g) \<and> i \<notin> set (holding g))"
  using gate_run_read [OF assms] answered_left_gate [OF reachable_ok [OF assms(2,1)]] by blast

lemma demo_word:
  "gate_word demo_x demo_run (serving demo_proc None) = [Arrive 1, Acquire 1]"
proof -
  obtain reason msg where pass: "tier1 demo_live (empty_result StatementSelect) = (reason, msg, True)"
    using demo_select_passes by blast
  have drop: "result_class (empty_result StatementSelect) = StatementSelect" by (simp add: empty_result_def)
  show ?thesis
    unfolding demo_run_def serving_def
    by (simp add: sys_exec_def demo_request_ok new_thread_def demo_progs enabled_def demo_live tiers_prog_def demo_tier1
        pass drop reject_prog_def tier2_prog_def evaluate_prog_def demo_policy_facts demo_entry demo_slots
        set_thread_def perform_def proceed_def gate_labels_def gate_move_def gate_comes_def gate_bits_def at_gate_def)
qed

lemma process_refines_gate_witness:
  "\<exists>s g. sys_run demo_x (serving demo_proc None) demo_run s \<and>
    gate_run (new_gate (proc_engine demo_proc)) [Arrive 1, Acquire 1] g \<and>
    holding g = [1] \<and> th_Reply (sys_Threads s ! 0) \<noteq> None \<and> 0 \<notin> set (waiting g)"
proof -
  obtain s t0 t1 where run: "sys_run demo_x (serving demo_proc None) demo_run s" and hold: "sys_Holders s = [1]"
    and ts: "sys_Threads s = [t0, t1]" "th_Reply t0 \<noteq> None"
    using demo_runs by (metis option.distinct(1))
  from process_refines_gate [OF demo_setup run] obtain g where
    "gate_run (new_gate (proc_engine demo_proc)) (gate_word demo_x demo_run (serving demo_proc None)) g"
    "gate_view s g" "\<forall>i<length (sys_Threads s). th_Reply (sys_Threads s ! i) \<noteq> None \<longrightarrow>
      i \<notin> set (waiting g) \<and> i \<notin> set (holding g)" by blast
  with run hold ts demo_word show ?thesis by (intro exI [of _ s] exI [of _ g]) (auto simp: gate_view_def)
qed

section \<open>Accounting of a finished set of requests\<close>

lemma ended_status:
  assumes "thread_ok x th" and "th_Reply th = Some reply"
  shows "statuses (th_Trace th) = [status_of_reply (evaluated (th_Request th)) reply]"
  using assms by (cases rule: thread_ended) (auto simp: ending_ok_def status_of_reply_def passed_tier1_def)

lemma ended_audits:
  assumes "thread_ok x th" and "th_Reply th = Some reply"
  shows "audits (th_Trace th) = [] \<or> (\<exists>a y. audits (th_Trace th) = [a] \<and> rejection_of reply = Some y \<and>
    au_Query a = inspected_query (th_Request th) \<and> au_Reason a = rr_Reason y \<and> au_RequestID a = rr_RequestID y)"
  using assms by (cases rule: thread_ended) (auto simp: ending_ok_def)

definition answered :: "system \<Rightarrow> bool" where
  "answered s \<longleftrightarrow> list_all (\<lambda>th. th_Reply th \<noteq> None) (sys_Threads s)"

lemma sum_list_count_list: "sum_list (map (\<lambda>x. if P x then Suc 0 else 0) xs) = length (filter P xs)"
  by (induction xs) simp_all

lemma answered_counts:
  assumes ok: "system_ok x s" and all: "answered s"
  shows "query_count (sys_Metrics s) st ''trino'' =
    length (filter (\<lambda>th. status_of_reply (evaluated (th_Request th)) (the (th_Reply th)) = st) (sys_Threads s))"
proof -
  have "count_list (statuses (th_Trace th)) st =
      (if status_of_reply (evaluated (th_Request th)) (the (th_Reply th)) = st then Suc 0 else 0)"
    if "th \<in> set (sys_Threads s)" for th
  proof -
    from that ok all obtain reply where "thread_ok x th" "th_Reply th = Some reply"
      by (auto simp: system_ok_def answered_def list_all_iff)
    then show ?thesis by (simp add: ended_status)
  qed
  then have "counted st s = sum_list (map (\<lambda>th.
      if status_of_reply (evaluated (th_Request th)) (the (th_Reply th)) = st then Suc 0 else 0) (sys_Threads s))"
    unfolding counted_def by (intro arg_cong [of _ _ sum_list] map_cong refl)
  with ok show ?thesis by (simp add: system_ok_def sum_list_count_list)
qed

text \<open>
  The requests of a fail-open path: forwarded although the parser did not read their statement, or their EXPLAIN got no
  slot, failed, or brought no readable plan.  The documents want these counted as bypassed, the code counts
  them as allowed.
\<close>

definition failed_open :: "externals \<Rightarrow> thread \<Rightarrow> bool" where
  "failed_open x th \<longleftrightarrow> x_parse x (normalizeForVitess (inspected_query (th_Request th))) = None \<or>
     DeadlineHit \<in> set (th_Trace th) \<or>
     (\<exists>uri q h out. Shadowed uri q h out \<in> set (th_Trace th) \<and>
       (case out of Inl e \<Rightarrow> True | Inr cells \<Rightarrow> parsePlanCells (x_json x) (x_flatten x) cells = None))"

definition rejected :: "thread \<Rightarrow> bool" where
  "rejected th \<longleftrightarrow> rejection_of (the (th_Reply th)) \<noteq> None"

lemma filter_split_length: "length (filter P xs) + length (filter (\<lambda>x. \<not> P x) xs) = length xs"
  by (induction xs) simp_all

lemma ended_rejected:
  "thread_ok x th \<Longrightarrow> th_Reply th \<noteq> None \<Longrightarrow> rejected th \<Longrightarrow> evaluated (th_Request th)"
  by (auto simp: rejected_def ending_ok_def justified_def elim!: thread_ended)

text \<open>C9. Concurrent counting is exact: at a moment when every request that has arrived is answered, the counter
  of blocked queries is the number of requests that were rejected, and the counters of blocked, allowed and bypassed
  queries together are the number of requests, so that none is lost or counted twice.  Of the forwarded ones, each that
  passed its tiers without a fail-open path is counted as allowed, and each that was not evaluated as bypassed.\<close>

theorem concurrent_counts_exact:
  assumes "main_setup read_file decode parse_url path port = Inr proc"
    and "sys_run x (serving proc content) ls s" and "answered s"
  shows "query_count (sys_Metrics s) StatusBlocked ''trino'' = length (filter rejected (sys_Threads s)) \<and>
    query_count (sys_Metrics s) StatusBlocked ''trino'' + query_count (sys_Metrics s) StatusAllowed ''trino'' +
      query_count (sys_Metrics s) StatusBypassed ''trino'' = length (sys_Threads s) \<and>
    length (filter (\<lambda>th. evaluated (th_Request th) \<and> \<not> rejected th \<and> \<not> failed_open x th) (sys_Threads s))
      \<le> query_count (sys_Metrics s) StatusAllowed ''trino'' \<and>
    length (filter (\<lambda>th. \<not> evaluated (th_Request th)) (sys_Threads s))
      \<le> query_count (sys_Metrics s) StatusBypassed ''trino''"
proof -
  let ?count = "\<lambda>st. query_count (sys_Metrics s) st ''trino''"
  let ?ths = "sys_Threads s" and ?ev = "\<lambda>th. evaluated (th_Request th)"
  have ok: "system_ok x s" by (rule reachable_ok [OF assms(2,1)])
  have count: "?count st = length (filter (\<lambda>th. status_of_reply (?ev th) (the (th_Reply th)) = st) ?ths)" for st
    by (rule answered_counts [OF ok assms(3)])
  have ev: "?ev th" if "th \<in> set ?ths" "rejected th" for th
    using that ok assms(3) by (intro ended_rejected [of x th]) (auto simp: system_ok_def answered_def list_all_iff)
  have blocked: "?count StatusBlocked = length (filter rejected ?ths)"
    unfolding count by (intro arg_cong [of _ _ length] filter_cong) (auto simp: status_of_reply_def rejected_def)
  have allowed: "?count StatusAllowed = length (filter (\<lambda>th. ?ev th \<and> \<not> rejected th) ?ths)"
    unfolding count by (intro arg_cong [of _ _ length] filter_cong) (auto simp: status_of_reply_def rejected_def)
  have bypassed: "?count StatusBypassed = length (filter (\<lambda>th. \<not> ?ev th) ?ths)"
    unfolding count by (intro arg_cong [of _ _ length] filter_cong)
      (use ev in \<open>auto simp: status_of_reply_def rejected_def\<close>)
  have "filter rejected ?ths = filter rejected (filter ?ev ?ths)"
    unfolding filter_filter by (intro filter_cong) (use ev in auto)
  moreover have "filter (\<lambda>th. ?ev th \<and> \<not> rejected th) ?ths = filter (\<lambda>th. \<not> rejected th) (filter ?ev ?ths)"
    by (simp add: conj_commute)
  ultimately have "?count StatusBlocked + ?count StatusAllowed = length (filter ?ev ?ths)"
    unfolding blocked allowed by (simp only: filter_split_length)
  then have "?count StatusBlocked + ?count StatusAllowed + ?count StatusBypassed = length ?ths"
    unfolding bypassed by (simp only: filter_split_length)
  moreover have "length (filter (\<lambda>th. ?ev th \<and> \<not> rejected th \<and> \<not> failed_open x th) ?ths) \<le> ?count StatusAllowed"
    unfolding allowed by (rule filter_mono_length) simp
  ultimately show ?thesis using blocked bypassed by simp
qed

lemma concurrent_counts_exact_witness:
  "\<exists>s. sys_run demo_x (serving demo_proc None) (demo_run @ demo_rest) s \<and>
    query_count (sys_Metrics s) StatusBlocked ''trino'' = 1 \<and>
    query_count (sys_Metrics s) StatusAllowed ''trino'' + query_count (sys_Metrics s) StatusBypassed ''trino'' = 1"
proof -
  obtain s t0 t1 where run: "sys_run demo_x (serving demo_proc None) (demo_run @ demo_rest) s"
    and ts: "sys_Threads s = [t0, t1]" and t0: "th_Reply t0 = Some (reject (WithRequestID ''id-1''
        (demo_request ''drop table t;'')) ReasonStatementBlocklist (Tier1Message (StatementBlocked StatementDrop)))"
    and t1: "th_Reply t1 \<noteq> None" "rejection_of (the (th_Reply t1)) = None"
    using demo_finishes by blast
  have all: "answered s" using ts t0 t1 by (simp add: answered_def)
  have "rejected t0" "\<not> rejected t1" using t0 t1 by (simp_all add: rejected_def)
  with concurrent_counts_exact [OF demo_setup run all] run ts show ?thesis by auto
qed

text \<open>What the audit log may say of a thread.\<close>

definition audit_key :: "audit_record \<Rightarrow> string \<times> RejectionReason \<times> string" where
  "audit_key a = (au_Query a, au_Reason a, au_RequestID a)"

definition rejection_keys :: "thread \<Rightarrow> (string \<times> RejectionReason \<times> string) list" where
  "rejection_keys th = (case Option.bind (th_Reply th) rejection_of of None \<Rightarrow> []
     | Some y \<Rightarrow> [(inspected_query (th_Request th), rr_Reason y, rr_RequestID y)])"

lemma sum_list_mono_mset:
  "(\<And>x. x \<in> set xs \<Longrightarrow> f x \<subseteq># g x) \<Longrightarrow> sum_list (map f xs) \<subseteq># sum_list (map g xs)"
  by (induction xs) (auto intro: subset_mset.add_mono)

lemma image_mset_sum_list: "image_mset f (sum_list (map g xs)) = sum_list (map (\<lambda>x. image_mset f (g x)) xs)"
  by (induction xs) simp_all

lemma mset_concat_sum: "mset (concat (map f xs)) = sum_list (map (\<lambda>x. mset (f x)) xs)"
  by (induction xs) simp_all

text \<open>C12. The audit log of concurrent requests, at a moment when every request that has arrived is answered: whatever
  the order of its records, they can be matched one to one with
  requests that were rejected with the same statement, reason and identifier; no record is torn, doubled or
  about a statement that was forwarded.\<close>

theorem concurrent_audit_sound:
  assumes "main_setup read_file decode parse_url path port = Inr proc"
    and "sys_run x (serving proc content) ls s" and "answered s"
  shows "mset (map audit_key (sys_Audit s)) \<subseteq># mset (concat (map rejection_keys (sys_Threads s)))"
proof -
  have ok: "system_ok x s" by (rule reachable_ok [OF assms(2,1)])
  have "image_mset audit_key (mset (audits (th_Trace th))) \<subseteq># mset (rejection_keys th)"
    if "th \<in> set (sys_Threads s)" for th
  proof -
    from that ok assms(3) obtain reply where "thread_ok x th" "th_Reply th = Some reply"
      by (auto simp: system_ok_def answered_def list_all_iff)
    then show ?thesis using ended_audits by (fastforce simp: rejection_keys_def audit_key_def)
  qed
  then show ?thesis
    using ok by (simp add: system_ok_def logged_def image_mset_sum_list mset_concat_sum sum_list_mono_mset)
qed

lemma concurrent_audit_sound_witness:
  "\<exists>s. sys_run demo_x (serving demo_proc None) (demo_run @ demo_rest) s \<and>
    mset (map audit_key (sys_Audit s)) \<subseteq># {#(''drop table t'', ReasonStatementBlocklist, ''id-1'')#}"
proof -
  obtain s t0 t1 where run: "sys_run demo_x (serving demo_proc None) (demo_run @ demo_rest) s"
    and ts: "sys_Threads s = [t0, t1]" "th_Request t0 = demo_request ''drop table t;''"
    and t0: "th_Reply t0 = Some (reject (WithRequestID ''id-1'' (demo_request ''drop table t;''))
      ReasonStatementBlocklist (Tier1Message (StatementBlocked StatementDrop)))"
    and t1: "th_Reply t1 \<noteq> None" "rejection_of (the (th_Reply t1)) = None"
    using demo_finishes by blast
  have all: "answered s" using ts t0 t1 by (simp add: answered_def)
  have "rejection_keys t0 = [(''drop table t'', ReasonStatementBlocklist, ''id-1'')]" "rejection_keys t1 = []"
    using ts(2) t0 t1 by (auto simp: rejection_keys_def demo_drop_query)
  with concurrent_audit_sound [OF demo_setup run all] run ts(1) show ?thesis by auto
qed

section \<open>Causes\<close>

text \<open>C6. A rejection of a concurrent request has a cause in a policy that the process served at some moment between
  the arrival of the request and its answer: the statement violates the Tier 1 stage of the reason under it, or is a
  SELECT whose own shadow EXPLAIN brought a plan beyond one of its limits.  That policy is one that was loaded, valid and
  with its defaults filled in, up to the listening port, which the command line may have replaced unchecked.\<close>

theorem concurrent_rejections_caused:
  assumes "main_setup read_file decode parse_url path port = Inr proc" and "x_decode x = decode"
    and "sys_run x (serving proc content) ls s" and "i < length (sys_Threads s)"
    and "th_Reply (sys_Threads s ! i) = Some reply" and "rejection_of reply = Some y"
    and "r = th_Request (sys_Threads s ! i)"
  shows "\<exists>pol res. served_since x (serving proc content) ls i pol \<and>
    (\<exists>p. valid_policy p \<and> setDefaults p = p \<and> (pol = p \<or> pol = override_port port p)) \<and>
    Analyze (x_parse x) (inspected_query r) = Inr res \<and>
    (tier1_verdict pol res = Some (rr_Reason y) \<or>
     rr_Reason y = ReasonCostLimitBreach \<and> Classify (inspected_query r) = StatementSelect \<and>
     (\<exists>uri q h cells bytes rows scans cpu. Shadowed uri q h (Inr cells) \<in> set (th_Trace (sys_Threads s ! i)) \<and>
        parsePlanCells (x_json x) (x_flatten x) cells = Some (bytes, rows, scans, cpu) \<and>
        \<not> list_all (within_limit bytes scans cpu) (CostLimits (Rules pol))))"
proof -
  have th: "thread_ok x (sys_Threads s ! i)"
    using reachable_ok [OF assms(3,1)] assms(4) by (simp add: system_ok_def list_all_length)
  from th assms(5) have just: "justified (x_parse x) (x_json x) (x_flatten x) r (th_Trace (sys_Threads s ! i)) (rr_Reason y)"
    using assms(6,7) by (cases rule: thread_ended) (auto simp: ending_ok_def)
  then obtain pol where read: "PolicyRead pol \<in> set (th_Trace (sys_Threads s ! i))" and cause: "\<exists>res.
      Analyze (x_parse x) (inspected_query r) = Inr res \<and> (tier1_verdict pol res = Some (rr_Reason y) \<or>
        rr_Reason y = ReasonCostLimitBreach \<and> Classify (inspected_query r) = StatementSelect \<and>
        (\<exists>uri q h cells bytes rows scans cpu. Shadowed uri q h (Inr cells) \<in> set (th_Trace (sys_Threads s ! i)) \<and>
           parsePlanCells (x_json x) (x_flatten x) cells = Some (bytes, rows, scans, cpu) \<and>
           \<not> list_all (within_limit bytes scans cpu) (CostLimits (Rules pol))))"
    unfolding justified_def by blast
  have served: "served_since x (serving proc content) ls i pol"
    by (rule policies_read [OF assms(3) _ assms(4) read]) (simp add: serving_def)
  with served_vetted [OF assms(1,2) served] cause show ?thesis unfolding vetted_def by blast
qed

lemma concurrent_rejections_caused_witness:
  "\<exists>pol res. served_since demo_x (serving demo_proc None) demo_run 0 pol \<and>
    Analyze (\<lambda>_. None) ''drop table t'' = Inr res \<and> tier1_verdict pol res = Some ReasonStatementBlocklist"
proof -
  obtain s t0 t1 where run: "sys_run demo_x (serving demo_proc None) demo_run s" and ts: "sys_Threads s = [t0, t1]"
    and r: "th_Request t0 = demo_request ''drop table t;''"
    and t0: "th_Reply t0 = Some (reject (WithRequestID ''id-1'' (demo_request ''drop table t;''))
      ReasonStatementBlocklist (Tier1Message (StatementBlocked StatementDrop)))"
    using demo_runs by blast
  have decode: "x_decode demo_x = (\<lambda>_. Some demo_policy)" and parse: "x_parse demo_x = (\<lambda>_. None)"
    by (simp_all add: demo_x_def)
  have thread: "0 < length (sys_Threads s)" and reply: "th_Reply (sys_Threads s ! 0) = Some (reject
      (WithRequestID ''id-1'' (demo_request ''drop table t;'')) ReasonStatementBlocklist
      (Tier1Message (StatementBlocked StatementDrop)))"
    using ts t0 by simp_all
  from concurrent_rejections_caused [OF demo_setup decode run thread reply rejection_of_simps(3) refl] ts r parse
  show ?thesis by (auto simp: demo_drop_query)
qed

text \<open>C7. Take a request whose body was read to its end, has at most 8 MiB, is not blank and whose class is no bypass
  class; other requests are forwarded without the tiers.  Whatever else runs, nothing of it reaches the coordinator
  before Tier 1 has passed it.  Each shadow request is sent while the request holds a slot, is the EXPLAIN of the very
  statement under its own headers, and goes to the upstream of a policy that was live; while the EXPLAIN is under way, the
  request is among the holders of the gate.  And what is forwarded, as the director leaves it, has the client's method,
  path, body and every header but \<open>X-Forwarded-For\<close> and \<open>Accept-Encoding\<close>, and is addressed to the active upstream.\<close>

theorem concurrent_sends_checked:
  assumes "main_setup read_file decode parse_url path port = Inr proc"
    and "sys_run x (serving proc content) ls s" and "i < length (sys_Threads s)"
    and "th = sys_Threads s ! i" and "r = th_Request th" and "evaluated r"
    and "Analyze (x_parse x) (inspected_query r) = Inr res"
  shows "(\<forall>es uri q h out es'. th_Trace th = es @ Shadowed uri q h out # es' \<longrightarrow>
      holds_slot es \<and> q = ''EXPLAIN (TYPE IO, FORMAT JSON) '' @ inspected_query r \<and> h = r_Header r \<and>
      (\<exists>pol. served_since x (serving proc content) ls i pol \<and> tier1_verdict pol res = None) \<and>
      (\<exists>pol. served_since x (serving proc content) ls i pol \<and>
        uri = TrimRight (URL (Upstream pol)) ''/'' @ ''/v1/statement'')) \<and>
    (explaining th \<longrightarrow> i \<in> set (sys_Holders s)) \<and>
    (\<forall>r'. th_Prog th = SendUpstream r' \<longrightarrow> relayed (live_target s) r (Director (live_target s) r') \<and>
      (\<exists>pol. served_since x (serving proc content) ls i pol \<and> tier1_verdict pol res = None))"
proof -
  have ok: "system_ok x s" by (rule reachable_ok [OF assms(2,1)])
  then have th: "thread_ok x th"
    using assms(3,4) by (simp add: system_ok_def list_all_length)
  have served: "served_since x (serving proc content) ls i pol" if "PolicyRead pol \<in> set (th_Trace th)" for pol
    by (rule policies_read [OF assms(2) _ assms(3)]) (use that assms(4) in \<open>simp_all add: serving_def\<close>)
  have passed: "\<exists>pol. served_since x (serving proc content) ls i pol \<and> tier1_verdict pol res = None"
    if "passed_tier1 (x_parse x) r tr" "set tr \<subseteq> set (th_Trace th)" for tr
    using that assms(7) served by (auto simp: passed_tier1_def)
  have sent: "holds_slot es \<and> q = explainPrefix @ inspected_query r \<and> h = r_Header r \<and>
      (\<exists>pol. served_since x (serving proc content) ls i pol \<and> tier1_verdict pol res = None) \<and>
      (\<exists>pol. served_since x (serving proc content) ls i pol \<and> uri = trim_upstream pol @ engine_statementPath)"
    if tr: "th_Trace th = es @ Shadowed uri q h out # es'" for es uri q h out es'
  proof -
    have "action_ok (x_parse x) r es (Shadowed uri q h out)" using thread_past_ok [OF th tr] assms(5) by blast
    then show ?thesis using tr passed [of es] served by (auto simp: action_ok_def)
  qed
  have flight: "i \<in> set (sys_Holders s)" if "explaining th"
    using explaining_holds [OF th that] ok assms(3,4)
    by (simp add: system_ok_def holders_ok_def) (simp add: marked_def)
  have forwarded: "relayed (live_target s) r (Director (live_target s) r') \<and>
      (\<exists>pol. served_since x (serving proc content) ls i pol \<and> tier1_verdict pol res = None)"
    if "th_Prog th = SendUpstream r'" for r'
  proof -
    have e: "ending_ok (x_parse x) (x_json x) (x_flatten x) r (th_Trace th) (Inr r')"
      using thread_ensures [OF th] assms(5) that by simp
    then have "relayed (live_target s) r (Director (live_target s) r')"
      by (intro Director_relays) (simp_all add: ending_ok_def replayed_def)
    then show ?thesis using e assms(6) passed [of "th_Trace th"] by (auto simp: ending_ok_def)
  qed
  note sent = sent [unfolded explainPrefix_def trim_upstream_def engine_statementPath_def]
  show ?thesis
  proof (rule conjI)
    show "(explaining th \<longrightarrow> i \<in> set (sys_Holders s)) \<and> (\<forall>r'. th_Prog th = SendUpstream r' \<longrightarrow>
        relayed (live_target s) r (Director (live_target s) r') \<and>
        (\<exists>pol. served_since x (serving proc content) ls i pol \<and> tier1_verdict pol res = None))"
      using flight forwarded by simp
  qed (intro allI impI, rule sent, assumption)
qed

lemma concurrent_sends_checked_witness:
  "\<exists>pol. served_since demo_x (serving demo_proc None) (demo_run @ demo_rest) 1 pol \<and>
    tier1_verdict pol (empty_result StatementSelect) = None"
proof -
  obtain s t0 t1 where run: "sys_run demo_x (serving demo_proc None) (demo_run @ demo_rest) s"
    and ts: "sys_Threads s = [t0, t1]" and r: "th_Request t1 = demo_request ''select k''"
    and sent: "demo_explain (Inl ClientError) \<in> set (th_Trace t1)"
    using demo_finishes by blast
  have th: "1 < length (sys_Threads s)" "t1 = sys_Threads s ! 1" using ts by simp_all
  have ev: "evaluated (demo_request ''select k'')" by (simp add: evaluated_def demo_select IsBypass_def)
  have res: "Analyze (x_parse demo_x) (inspected_query (demo_request ''select k'')) = Inr (empty_result StatementSelect)"
    by (simp add: demo_x_def demo_select Analyze_unparsed IsBypass_def demo_select_no_tables empty_result_def)
  have parsed: "th_Request t1 = demo_request ''select k'' \<Longrightarrow> demo_request ''select k'' = th_Request t1" by simp
  obtain es es' where tr: "th_Trace t1 = es @ demo_explain (Inl ClientError) # es'" using sent by (meson split_list)
  from concurrent_sends_checked [OF demo_setup run th parsed [OF r] ev res, THEN conjunct1, rule_format,
      OF tr [unfolded demo_explain_def]]
  show ?thesis by (elim conjE)
qed

section \<open>Progress\<close>

definition by_thread :: "nat \<Rightarrow> sys_label \<Rightarrow> bool" where
  "by_thread i l = (case l of Acts j e \<Rightarrow> j = i | Answers j \<Rightarrow> j = i | Proxies j response \<Rightarrow> j = i | _ \<Rightarrow> False)"

text \<open>At the select a request can always give up at its deadline, so no action waits for another request.\<close>

definition next_event :: "system \<Rightarrow> prog \<Rightarrow> event" where
  "next_event s p = (case p of
     ReadPolicy k \<Rightarrow> PolicyRead (live_policy s)
   | MintID k \<Rightarrow> IDMinted []
   | ReadClock k \<Rightarrow> ClockRead 0
   | Record m q \<Rightarrow> Counted m
   | LogRejection a q \<Rightarrow> Logged a
   | TakeSlot k \<Rightarrow> DeadlineHit
   | FreeSlot q \<Rightarrow> SlotFreed
   | Shadow uri q h k \<Rightarrow> Shadowed uri q h (Inl ClientError)
   | _ \<Rightarrow> Paused)"

lemma next_event:
  "(\<exists>p'. resume p (next_event s p) = Some p' \<and> enabled s (next_event s p)) \<or>
    (\<exists>reply. p = Answer reply) \<or> (\<exists>r. p = SendUpstream r)"
  by (cases p) (simp_all add: next_event_def enabled_def)

lemma exI2: "P l s \<Longrightarrow> Q l s \<Longrightarrow> \<exists>l s. P l s \<and> Q l s"
  by blast

lemma thread_advances:
  assumes "i < length (sys_Threads s)" and "th_Reply (sys_Threads s ! i) = None"
  shows "\<exists>l s'. sys_step x s l s' \<and> by_thread i l \<and> i < length (sys_Threads s') \<and>
    (th_Reply (sys_Threads s' ! i) \<noteq> None \<or>
     th_Reply (sys_Threads s' ! i) = None \<and> length (th_Trace (sys_Threads s' ! i)) = Suc (length (th_Trace (sys_Threads s ! i))))"
proof -
  let ?th = "sys_Threads s ! i"
  consider (act) e p where "resume (th_Prog ?th) e = Some p" "enabled s e"
    | (answer) reply where "th_Prog ?th = Answer reply" | (send) r where "th_Prog ?th = SendUpstream r"
    using next_event [of "th_Prog ?th" s] by blast
  then show ?thesis
  proof cases
    case act
    from sys_step.sys_acts [OF assms(1) act] show ?thesis
      by (rule exI2) (use assms in \<open>simp add: by_thread_def\<close>)
  next
    case answer
    from sys_step.sys_answers [OF assms answer] show ?thesis
      by (rule exI2) (use assms in \<open>simp add: by_thread_def\<close>)
  next
    case send
    from sys_step.sys_proxies [OF assms send refl] show ?thesis
      by (rule exI2) (use assms in \<open>simp add: by_thread_def\<close>)
  qed
qed

lemma thread_finishes:
  assumes "system_ok x s" and "i < length (sys_Threads s)" and "th_Reply (sys_Threads s ! i) = None"
  shows "\<exists>ls s'. sys_run x s ls s' \<and> list_all (by_thread i) ls \<and>
    length ls + length (th_Trace (sys_Threads s ! i)) \<le> Suc max_actions \<and> th_Reply (sys_Threads s' ! i) \<noteq> None"
  using assms
proof (induction "max_actions - length (th_Trace (sys_Threads s ! i))" arbitrary: s rule: less_induct)
  case less
  have bound: "length (th_Trace (sys_Threads t ! i)) \<le> max_actions" if "system_ok x t" "i < length (sys_Threads t)" for t
    using that by (intro thread_trace_bound [of x]) (simp add: system_ok_def list_all_length)
  from thread_advances [OF less.prems(2,3)] obtain l t where step: "sys_step x s l t" "by_thread i l"
    and i: "i < length (sys_Threads t)" and adv: "th_Reply (sys_Threads t ! i) \<noteq> None \<or>
      th_Reply (sys_Threads t ! i) = None \<and> length (th_Trace (sys_Threads t ! i)) = Suc (length (th_Trace (sys_Threads s ! i)))"
    by blast
  have run: "sys_run x s [l] t" using sys_run_one [OF step(1)] by simp
  have ok: "system_ok x t" by (rule system_step_ok [OF step(1) less.prems(1)])
  show ?case
  proof (cases "th_Reply (sys_Threads t ! i)")
    case (Some reply)
    with run step(2) bound [OF less.prems(1,2)] show ?thesis by (intro exI [of _ "[l]"] exI [of _ t]) simp
  next
    case None
    with adv have len: "length (th_Trace (sys_Threads t ! i)) = Suc (length (th_Trace (sys_Threads s ! i)))" by simp
    with bound [OF ok i] have "max_actions - length (th_Trace (sys_Threads t ! i)) < max_actions - length (th_Trace (sys_Threads s ! i))"
      by linarith
    from less.hyps [OF this ok i None] obtain ls s' where "sys_run x t ls s'" "list_all (by_thread i) ls"
      "length ls + length (th_Trace (sys_Threads t ! i)) \<le> Suc max_actions" "th_Reply (sys_Threads s' ! i) \<noteq> None" by blast
    with sys_run_append [OF _ run] step(2) len show ?thesis by (intro exI [of _ "l # ls"] exI [of _ s']) simp
  qed
qed

text \<open>C11. No request is starved or deadlocked by the others: from every state that any interleaving reaches, each
  unanswered request can be answered by at most twenty actions of its own, with every other goroutine standing
  still; a full gate costs it the cost check, not the answer.\<close>

theorem requests_answered_alone:
  assumes "main_setup read_file decode parse_url path port = Inr proc"
    and "sys_run x (serving proc content) ls s" and "i < length (sys_Threads s)" and "th_Reply (sys_Threads s ! i) = None"
  shows "\<exists>ls' s'. sys_run x s ls' s' \<and> list_all (by_thread i) ls' \<and> length ls' \<le> 20 \<and> th_Reply (sys_Threads s' ! i) \<noteq> None"
proof -
  from thread_finishes [OF reachable_ok [OF assms(2,1)] assms(3,4)] obtain ls' s' where "sys_run x s ls' s'"
    "list_all (by_thread i) ls'" "length ls' \<le> Suc max_actions" "th_Reply (sys_Threads s' ! i) \<noteq> None"
    using add_leD1 by blast
  then show ?thesis by (auto simp: max_actions_def)
qed

lemma requests_answered_alone_witness:
  "\<exists>s ls' s'. sys_run demo_x (serving demo_proc None) demo_run s \<and> sys_run demo_x s ls' s' \<and> length ls' \<le> 20 \<and>
    th_Reply (sys_Threads s' ! 1) \<noteq> None"
proof -
  obtain s t0 t1 where run: "sys_run demo_x (serving demo_proc None) demo_run s"
    and "sys_Threads s = [t0, t1]" "th_Reply t1 = None" using demo_runs by blast
  then have "1 < length (sys_Threads s)" "th_Reply (sys_Threads s ! 1) = None" by simp_all
  from requests_answered_alone [OF demo_setup run this] run show ?thesis by blast
qed

end
