(* ===== verification/Sequential_View.thy ===== *)
theory Sequential_View
  imports Request_System
begin

text \<open>
  Why the handler may be studied one request at a time.  \<open>Proxy_Handler\<close> runs a statement alone in an environment
  that may change between two reads of the live configuration; here every request of the concurrent process is
  shown to be such a run.  The world of the run is the rest of the trace of the request: reading the policy is
  reading the next policy of the trace, letting the process act is skipping to the next pause, and the shadow
  request answers what it answered in the trace.
\<close>

section \<open>The oracle\<close>

datatype kind = PolicyKind | IDKind | ClockKind | SlotKind

primrec reads :: "event \<Rightarrow> kind option" where
  "reads (PolicyRead pol) = Some PolicyKind"
| "reads (IDMinted i) = Some IDKind"
| "reads (ClockRead d) = Some ClockKind"
| "reads SlotTaken = Some SlotKind"
| "reads DeadlineHit = Some SlotKind"
| "reads Paused = None" | "reads (Counted m) = None" | "reads (Logged a) = None" | "reads SlotFreed = None"
| "reads (Shadowed u q h x) = None"

primrec is_sync :: "event \<Rightarrow> bool" where
  "is_sync Paused = True" | "is_sync (Shadowed u q h x) = True"
| "is_sync (PolicyRead pol) = False" | "is_sync (IDMinted i) = False" | "is_sync (ClockRead d) = False"
| "is_sync SlotTaken = False" | "is_sync DeadlineHit = False" | "is_sync (Counted m) = False"
| "is_sync (Logged a) = False" | "is_sync SlotFreed = False"

text \<open>The next event of a kind.\<close>

definition next_read :: "kind \<Rightarrow> event list \<Rightarrow> event option" where
  "next_read k w = List.find (\<lambda>e. reads e = Some k) w"

fun after_pause :: "event list \<Rightarrow> event list" where
  "after_pause [] = []"
| "after_pause (e # es) = (if e = Paused then es else after_pause es)"

fun next_shadow :: "event list shadow" where
  "next_shadow u q h [] = None"
| "next_shadow u q h (e # es) = (case e of Shadowed u' q' h' x \<Rightarrow> Some (x, es) | _ \<Rightarrow> next_shadow u q h es)"

text \<open>A policy that the trace does not hold is replaced by \<open>fallback\<close>, so that only policies of the trace are read.\<close>

definition trace_env :: "externals \<Rightarrow> Policy \<Rightarrow> event list \<Rightarrow> Target \<Rightarrow> ProxyResponse option \<Rightarrow> event list Env" where
  "trace_env x fallback trace target response = \<lparr>
     policy_of = (\<lambda>w. case next_read PolicyKind w of
       Some (PolicyRead pol) \<Rightarrow> if PolicyRead pol \<in> set trace then pol else fallback | _ \<Rightarrow> fallback),
     target_of = (\<lambda>w. target), interfere = after_pause, transport = (\<lambda>out w. (response, w)),
     media_type = x_media_type x, parse_sql = x_parse x, evaluator = None,
     gate_open = (\<lambda>w. next_read SlotKind w = Some SlotTaken),
     elapsed = (\<lambda>w. case next_read ClockKind w of Some (ClockRead d) \<Rightarrow> d | _ \<Rightarrow> 0),
     minted_id = (\<lambda>w. case next_read IDKind w of Some (IDMinted i) \<Rightarrow> i | _ \<Rightarrow> []),
     engine_label = []\<rparr>"

section \<open>Programs that read each thing once between two pauses\<close>

primrec single_reads :: "prog \<Rightarrow> kind set \<Rightarrow> bool" where
  "single_reads (Answer reply) S = True"
| "single_reads (SendUpstream r) S = True"
| "single_reads (Pause p) S = single_reads p {}"
| "single_reads (ReadPolicy k) S = (PolicyKind \<notin> S \<and> (\<forall>pol. single_reads (k pol) (insert PolicyKind S)))"
| "single_reads (MintID k) S = (IDKind \<notin> S \<and> (\<forall>i. single_reads (k i) (insert IDKind S)))"
| "single_reads (ReadClock k) S = (ClockKind \<notin> S \<and> (\<forall>d. single_reads (k d) (insert ClockKind S)))"
| "single_reads (Record m p) S = single_reads p S"
| "single_reads (LogRejection a p) S = single_reads p S"
| "single_reads (TakeSlot k) S = (SlotKind \<notin> S \<and> single_reads (k True) (insert SlotKind S) \<and>
     single_reads (k False) (insert SlotKind S))"
| "single_reads (FreeSlot p) S = single_reads p S"
| "single_reads (Shadow u q h k) S = (\<forall>x. single_reads (k x) {})"

lemma forward_single: "single_reads (forward_prog engine status r body) S"
  by (simp add: forward_prog_def)

lemma reject_single: "single_reads (reject_prog engine r query res cost reason msg) S"
  by (simp add: reject_prog_def Let_def)

lemma costed_single: "ClockKind \<notin> S \<Longrightarrow> single_reads (costed_prog engine r body query res result) S"
  by (cases result) (simp_all add: costed_prog_def forward_single reject_single)

lemma verdict_single:
  "(\<And>e. single_reads (k e) {}) \<Longrightarrow> (\<And>e. single_reads (k e) {PolicyKind}) \<Longrightarrow> single_reads (verdict_prog json flatten k result) {}"
  by (simp add: verdict_prog_def Let_def split_beta split: sum.split option.split)

lemma tier2_single: "single_reads (tier2_prog json flatten engine r body query res) {}"
  by (simp add: tier2_prog_def evaluate_prog_def verdict_single costed_single)

lemma tiers_single: "single_reads (tiers_prog json flatten engine r body query res) {}"
  by (simp add: tiers_prog_def tier2_single forward_single reject_single split: prod.split)

lemma body_single: "single_reads (body_prog parse json flatten engine r) S"
  by (simp add: body_prog_def query_prog_def Let_def forward_single tiers_single split: sum.split)

lemma statement_single: "single_reads (statement_prog parse json flatten engine r) {}"
  by (simp add: statement_prog_def Let_def body_single)

section \<open>Running against the oracle\<close>

text \<open>The world lags behind the trace by reads, and not by a pause.\<close>

definition lags :: "kind set \<Rightarrow> event list \<Rightarrow> event list \<Rightarrow> bool" where
  "lags S w tr \<longleftrightarrow> (\<exists>pre. w = pre @ tr \<and> (\<forall>e\<in>set pre. \<not> is_sync e \<and> (\<forall>k. reads e = Some k \<longrightarrow> k \<in> S)))"

lemma lags_refl [simp]: "lags S w w"
  by (simp add: lags_def)

lemma lags_step:
  "lags S w (e # tr) \<Longrightarrow> \<not> is_sync e \<Longrightarrow> (\<And>k. reads e = Some k \<Longrightarrow> k \<in> S') \<Longrightarrow> S \<subseteq> S' \<Longrightarrow> lags S' w tr"
  unfolding lags_def by (elim exE conjE, rule exI [of _ "_ @ [e]"]) fastforce

lemma lags_read:
  assumes "lags S w (e # tr)" and "reads e = Some k" and "k \<notin> S"
  shows "next_read k w = Some e"
proof -
  from assms(1) obtain pre where w: "w = pre @ e # tr" and pre: "\<forall>e\<in>set pre. \<forall>k. reads e = Some k \<longrightarrow> k \<in> S"
    unfolding lags_def by blast
  from pre assms(3) have "List.find (\<lambda>e. reads e = Some k) (pre @ e # tr) = Some e"
    by (induction pre) (use assms(2) in auto)
  then show ?thesis by (simp add: next_read_def w)
qed

lemma lags_pause:
  assumes "lags S w (Paused # tr)"
  shows "after_pause w = tr"
proof -
  from assms obtain pre where w: "w = pre @ Paused # tr" and pre: "\<forall>e\<in>set pre. \<not> is_sync e"
    unfolding lags_def by blast
  from pre have "after_pause (pre @ Paused # tr) = tr" by (induction pre) auto
  with w show ?thesis by simp
qed

lemma lags_shadow:
  assumes "lags S w (Shadowed u q h x # tr)"
  shows "next_shadow u' q' h' w = Some (x, tr)"
proof -
  from assms obtain pre where w: "w = pre @ Shadowed u q h x # tr" and pre: "\<forall>e\<in>set pre. \<not> is_sync e"
    unfolding lags_def by blast
  from pre have "next_shadow u' q' h' (pre @ Shadowed u q h x # tr) = Some (x, tr)"
    by (induction pre) (auto split: event.split)
  with w show ?thesis by simp
qed

definition counts :: "event list \<Rightarrow> Metrics option \<Rightarrow> Metrics option" where
  "counts tr m = fold (\<lambda>e m. case e of Counted me \<Rightarrow> apply_metric me m | _ \<Rightarrow> m) tr m"

lemma counts_simps [simp]:
  "counts [] m = m" "counts (e # tr) m = counts tr (case e of Counted me \<Rightarrow> apply_metric me m | _ \<Rightarrow> m)"
  by (simp_all add: counts_def)

text \<open>One action: a pause or a shadow request brings the world up to date, a read finds its event in the lag.\<close>

lemma trace_sync:
  assumes env: "E = shadow_env next_shadow json flatten (trace_env x fallback trace target response)"
    and step: "resume p e = Some p'" "single_reads p S" "lags S (st_World st) (e # tr)" and sync: "is_sync e"
  shows "run next_shadow E p st = run next_shadow E p' (st\<lparr>st_World := tr\<rparr>) \<and> single_reads p' {}"
proof (cases p)
  case (Pause p1)
  with step(1) have "e = Paused" "p' = p1" by (simp_all split: event.splits)
  with step Pause lags_pause show ?thesis by (simp add: yield_world_def env trace_env_def)
next
  case (Shadow u q h k)
  with step(1) obtain y where "e = Shadowed u q h y" "p' = k y" by (auto split: event.splits if_splits)
  with step Shadow lags_shadow show ?thesis by simp
qed (use step(1) sync in \<open>auto split: event.splits if_splits\<close>)

lemma trace_read:
  assumes env: "E = shadow_env next_shadow json flatten (trace_env x fallback trace target response)"
    and step: "resume p e = Some p'" "single_reads p S" "lags S (st_World st) (e # tr)"
    and read: "reads e = Some k" and mem: "e \<in> set trace"
  shows "run next_shadow E p st = run next_shadow E p' st \<and> single_reads p' (insert k S)"
proof -
  have "k \<notin> S" using step(1,2) read by (cases p) (auto split: event.splits if_splits)
  with lags_read [OF step(3) read] have found: "next_read k (st_World st) = Some e" by simp
  show ?thesis
    using step(1,2) read found mem by (cases p) (auto simp: env trace_env_def split: event.splits if_splits)
qed

lemma trace_local:
  assumes step: "resume p e = Some p'" "single_reads p S" and "\<not> is_sync e" and "reads e = None"
  shows "run f E p st = run f E p' (st\<lparr>st_Metrics := counts [e] (st_Metrics st), st_Audit := st_Audit st @ audits [e]\<rparr>) \<and>
    single_reads p' S"
  using assms by (cases p) (auto split: event.splits if_splits)

lemma trace_step:
  assumes env: "E = shadow_env next_shadow json flatten (trace_env x fallback trace target response)"
    and step: "resume p e = Some p'" "single_reads p S" "lags S (st_World st) (e # tr)" and mem: "e \<in> set trace"
  shows "\<exists>w S'. run next_shadow E p st = run next_shadow E p'
      (st\<lparr>st_World := w, st_Metrics := counts [e] (st_Metrics st), st_Audit := st_Audit st @ audits [e]\<rparr>) \<and>
    single_reads p' S' \<and> lags S' w tr"
proof -
  have quiet: "counts [e] m = m" "audits [e] = []" if "is_sync e \<or> reads e \<noteq> None" for m
    using that by (cases e; simp)+
  consider (sync) "is_sync e" | (read) k where "\<not> is_sync e" "reads e = Some k" | (local) "\<not> is_sync e" "reads e = None"
    by (cases "reads e") auto
  then show ?thesis
  proof cases
    case sync
    with trace_sync [OF env step sync] quiet show ?thesis by (intro exI [of _ tr] exI [of _ "{}"]) simp
  next
    case read
    have "lags (insert k S) (st_World st) tr" using lags_step [OF step(3) read(1)] read(2) by auto
    with trace_read [OF env step read(2) mem] quiet read show ?thesis
      by (intro exI [of _ "st_World st"] exI [of _ "insert k S"]) simp
  next
    case local
    have "lags S (st_World st) tr" using lags_step [OF step(3) local(1)] local(2) by auto
    with trace_local [OF step(1,2) local] show ?thesis
      by (intro exI [of _ "st_World st"] exI [of _ S]) simp
  qed
qed

lemma counts_Cons: "counts (e # tr) m = counts tr (counts [e] m)"
  by simp

lemma trace_run:
  assumes env: "E = shadow_env next_shadow json flatten (trace_env x fallback trace target response)"
  shows "follow p tr = Some q \<Longrightarrow> single_reads p S \<Longrightarrow> lags S (st_World st) tr \<Longrightarrow> set tr \<subseteq> set trace \<Longrightarrow>
    \<exists>w. run next_shadow E p st = run next_shadow E q
      (st\<lparr>st_World := w, st_Metrics := counts tr (st_Metrics st), st_Audit := st_Audit st @ audits tr\<rparr>)"
proof (induction tr arbitrary: p S st)
  case Nil
  then show ?case by (intro exI [of _ "st_World st"]) simp
next
  case (Cons e tr)
  then obtain p' where step: "resume p e = Some p'" and rest: "follow p' tr = Some q" by (auto split: bind_splits)
  from trace_step [OF env step Cons.prems(2,3)] Cons.prems(4) obtain w S' where
    one: "run next_shadow E p st = run next_shadow E p'
      (st\<lparr>st_World := w, st_Metrics := counts [e] (st_Metrics st), st_Audit := st_Audit st @ audits [e]\<rparr>)"
    and "single_reads p' S'" "lags S' w tr" by auto
  with Cons.IH [OF rest, of S' "st\<lparr>st_World := w, st_Metrics := counts [e] (st_Metrics st), st_Audit := st_Audit st @ audits [e]\<rparr>"]
    Cons.prems(4) show ?case unfolding one by simp
qed

section \<open>Property\<close>

lemma proxy_serve_world:
  "fst (proxy_serve m (\<lambda>out w. (response, w)) target r w) = fst (proxy_serve m (\<lambda>out w. (response, w)) target r ())"
  by (simp add: proxy_serve_def Let_def split: option.split)

lemma handler_trace:
  assumes "E = shadow_env next_shadow (x_json x) (x_flatten x) (trace_env x fallback tr target response)"
    and "follow (handler_prog x r) tr = Some q"
  shows "\<exists>w. handleStatement E r \<lparr>st_World = tr, st_Metrics = m, st_Audit = as\<rparr> =
    run next_shadow E q \<lparr>st_World = w, st_Metrics = counts tr m, st_Audit = as @ audits tr\<rparr>"
proof -
  have parse: "parse_sql E = x_parse x" using assms(1) by (simp add: trace_env_def)
  have "single_reads (handler_prog x r) {}" by (simp add: handler_prog_def statement_single)
  from trace_run [OF assms(1,2) this, of "\<lparr>st_World = tr, st_Metrics = m, st_Audit = as\<rparr>"]
  obtain w where "run next_shadow E (handler_prog x r) \<lparr>st_World = tr, st_Metrics = m, st_Audit = as\<rparr> =
      run next_shadow E q \<lparr>st_World = w, st_Metrics = counts tr m, st_Audit = as @ audits tr\<rparr>" by auto
  with run_statement [OF assms(1), of r] parse show ?thesis
    using assms(1) by (auto simp: handler_prog_def)
qed

text \<open>C2. Every request of the concurrent process is a sequential run of the handler: the reply a client gets in any
  interleaving of requests and reloads, with what it adds to the metrics and the audit log, is what
  \<open>handleStatement\<close> returns for its request in some environment whose policies were all served by the process
  since the request arrived and whose evaluator is Trino's.\<close>

theorem concurrent_is_sequential:
  assumes "main_setup read_file decode parse_url path port = Inr proc"
    and "sys_run x (serving proc content) ls s" and "i < length (sys_Threads s)" and "th = sys_Threads s ! i"
    and "th_Reply th = Some reply"
  shows "\<exists>env w'. parse_sql env = x_parse x \<and> (\<forall>w. served_since x (serving proc content) ls i (policy_of env w)) \<and>
    handleStatement (shadow_env next_shadow (x_json x) (x_flatten x) env) (th_Request th)
      \<lparr>st_World = th_Trace th, st_Metrics = m, st_Audit = as\<rparr> =
    Some (reply, \<lparr>st_World = w', st_Metrics = counts (th_Trace th) m, st_Audit = as @ audits (th_Trace th)\<rparr>)"
proof -
  have th: "thread_ok x th"
    using reachable_ok [OF assms(2,1)] assms(3,4) by (simp add: system_ok_def list_all_length)
  have follow: "follow (handler_prog x (th_Request th)) (th_Trace th) = Some (th_Prog th)"
    using th by (simp add: thread_ok_def)
  let ?env = "\<lambda>target response. trace_env x (live_policy s) (th_Trace th) target response"
  have live: "served_since x (serving proc content) ls i (live_policy s)"
    using assms(2,3) unfolding served_since_def by (intro exI [of _ ls] exI [of _ "[]"] exI [of _ s]) simp
  have read: "served_since x (serving proc content) ls i pol" if "PolicyRead pol \<in> set (th_Trace th)" for pol
    by (rule policies_read [OF assms(2) _ assms(3)]) (use that assms(4) in \<open>simp_all add: serving_def\<close>)
  have served: "served_since x (serving proc content) ls i (policy_of (?env target response) w)" for target response w
    using live read by (auto simp: trace_env_def split: option.split event.split)
  from th assms(5) consider "th_Prog th = Answer reply"
    | r response target where "th_Prog th = SendUpstream r"
        "reply = fst (proxy_serve (x_media_type x) (\<lambda>out w. (response, w)) target r ())"
    by (auto simp: thread_ok_def)
  then show ?thesis
  proof cases
    case 1
    from handler_trace [OF refl follow, of "live_policy s" "live_target s" None m as] 1 served show ?thesis
      by (intro exI [of _ "?env (live_target s) None"]) (auto simp: trace_env_def)
  next
    case 2
    from handler_trace [OF refl follow, of "live_policy s" target response m as] obtain w where
      "handleStatement (shadow_env next_shadow (x_json x) (x_flatten x) (?env target response)) (th_Request th)
        \<lparr>st_World = th_Trace th, st_Metrics = m, st_Audit = as\<rparr> =
       Some (serve_upstream (shadow_env next_shadow (x_json x) (x_flatten x) (?env target response)) r
         \<lparr>st_World = w, st_Metrics = counts (th_Trace th) m, st_Audit = as @ audits (th_Trace th)\<rparr>)"
      using 2(1) by auto
    moreover have "\<exists>w'. serve_upstream (shadow_env next_shadow (x_json x) (x_flatten x) (?env target response)) r
         \<lparr>st_World = w, st_Metrics = mm, st_Audit = aa\<rparr> = (reply, \<lparr>st_World = w', st_Metrics = mm, st_Audit = aa\<rparr>)" for mm aa
      using 2(2) proxy_serve_world [of "x_media_type x" response target r w]
      by (cases "proxy_serve (x_media_type x) (\<lambda>out w. (response, w)) target r w")
        (simp add: serve_upstream_def trace_env_def)
    ultimately have "\<exists>w'. handleStatement (shadow_env next_shadow (x_json x) (x_flatten x) (?env target response)) (th_Request th)
        \<lparr>st_World = th_Trace th, st_Metrics = m, st_Audit = as\<rparr> =
       Some (reply, \<lparr>st_World = w', st_Metrics = counts (th_Trace th) m, st_Audit = as @ audits (th_Trace th)\<rparr>)"
      by metis
    moreover have "parse_sql (?env target response) = x_parse x" by (simp add: trace_env_def)
    ultimately show ?thesis using served by blast
  qed
qed

lemma concurrent_is_sequential_witness:
  "\<exists>env tr w'. parse_sql env = (\<lambda>_. None) \<and>
    handleStatement (shadow_env next_shadow (demo_json (demo_io [])) id env) (demo_request ''drop table t;'')
      \<lparr>st_World = tr, st_Metrics = None, st_Audit = []\<rparr> =
    Some (reject (WithRequestID ''id-1'' (demo_request ''drop table t;'')) ReasonStatementBlocklist
      (Tier1Message (StatementBlocked StatementDrop)),
      \<lparr>st_World = w', st_Metrics = counts tr None, st_Audit = audits tr\<rparr>)"
proof -
  obtain s t0 t1 where run: "sys_run demo_x (serving demo_proc None) demo_run s" and ts: "sys_Threads s = [t0, t1]"
    and r: "th_Request t0 = demo_request ''drop table t;''"
    and t0: "th_Reply t0 = Some (reject (WithRequestID ''id-1'' (demo_request ''drop table t;''))
      ReasonStatementBlocklist (Tier1Message (StatementBlocked StatementDrop)))"
    using demo_runs by blast
  have i: "0 < length (sys_Threads s)" "t0 = sys_Threads s ! 0" using ts by simp_all
  have x: "x_parse demo_x = (\<lambda>_. None)" "x_json demo_x = demo_json (demo_io [])" "x_flatten demo_x = id"
    by (simp_all add: demo_x_def)
  from concurrent_is_sequential [OF demo_setup run i t0, of None "[]"] r show ?thesis
    by (auto simp: x)
qed

end
