(* ===== verification/Process_Lifecycle.thy ===== *)
theory Process_Lifecycle
  imports Request_System
begin

text \<open>
  The life of the process behind its set-up: \<open>cmd/queryguard/main.go\<close> from the HTTP server it builds to its exit.
  The listener, the signal handler, the cancelled watcher, \<open>Shutdown\<close> with its grace period and the two exit
  codes are a labelled step relation around \<open>Request_System\<close>.  What \<open>net/http\<close> documents of \<open>Shutdown\<close> is part
  of the steps: the listeners are closed first, and it returns when no connection is left or its context ends.
\<close>

section \<open>The server\<close>

datatype listener = PlainListener | TLSListener string string

record http_server =
  srv_Addr :: string
  srv_ReadTimeout :: int64
  srv_WriteTimeout :: int64
  srv_Listener :: listener
  srv_HSTS :: bool
  srv_Grace :: int64

definition http_server :: "Policy \<Rightarrow> http_server" where
  "http_server p = \<lparr>srv_Addr = CHR '':'' # go_decimal (Port (Server p)),
     srv_ReadTimeout = ReadTimeout (Server p), srv_WriteTimeout = WriteTimeout (Server p),
     srv_Listener = (if TLS_Enabled (TLS (Server p)) then TLSListener (CertFile (TLS (Server p))) (KeyFile (TLS (Server p)))
       else PlainListener),
     srv_HSTS = TLS_Enabled (TLS (Server p)), srv_Grace = ShutdownGrace (Server p)\<rparr>"

section \<open>The state\<close>

text \<open>
  \<open>Signalled\<close>: the main goroutine has received the signal; \<open>Draining\<close>: it is in \<open>Shutdown\<close>.  \<open>lc_Conns\<close> counts the
  accepted connections that have no request under way.
\<close>

datatype phase = Serving | Signalled | Draining | Exited nat

record lifecycle =
  lc_System :: system
  lc_Server :: http_server
  lc_Phase :: phase
  lc_Listening :: bool
  lc_Conns :: nat

definition alive :: "lifecycle \<Rightarrow> bool" where
  "alive c = (case lc_Phase c of Exited n \<Rightarrow> False | _ \<Rightarrow> True)"

text \<open>
  The main goroutine starts the watcher in a goroutine: if \<open>Start\<close> fails before its loop, a warning is all that
  happens, and nothing is watched.
\<close>

definition launch :: "Process \<Rightarrow> byte list option \<Rightarrow> (start_error, string) go_result \<Rightarrow> lifecycle" where
  "launch proc content start = \<lparr>lc_System = (serving proc content)
       \<lparr>sys_Watch := (started proc content)\<lparr>running := \<not> isl start\<rparr>\<rparr>,
     lc_Server = http_server (Get (w_cfg (proc_watcher proc))), lc_Phase = Serving, lc_Listening = False, lc_Conns = 0\<rparr>"

text \<open>What a client gets: the reply of the handler, behind the wrapper.\<close>

definition delivered :: "lifecycle \<Rightarrow> nat \<Rightarrow> Reply option" where
  "delivered c i = map_option (hstsHandler (srv_HSTS (lc_Server c))) (th_Reply (sys_Threads (lc_System c) ! i))"

section \<open>Steps\<close>

datatype lc_label =
    Listens | Accepts | Disconnects | Requests ProxyRequest | Runs sys_label
  | Signals | Cancels | Drains | GraceExpires | ServerFails

text \<open>
  Requests come in over a connection, and only \<open>main\<close> cancels the watcher; nobody calls its \<open>Shutdown\<close>.  A server
  that is shut down returns \<open>ErrServerClosed\<close>, but the failure of a listener that was about to start can still
  overtake the shutdown, so \<open>ServerFails\<close> is possible until the exit.
\<close>

definition inner :: "sys_label \<Rightarrow> bool" where
  "inner l = (case l of Arrives r \<Rightarrow> False | Reconfigures wl \<Rightarrow> wl \<noteq> Cancel \<and> wl \<noteq> CallShutdown | _ \<Rightarrow> True)"

inductive lc_step :: "externals \<Rightarrow> lifecycle \<Rightarrow> lc_label \<Rightarrow> lifecycle \<Rightarrow> bool" for x where
  lc_listens: "lc_Phase c \<in> {Serving, Signalled} \<Longrightarrow> \<not> lc_Listening c \<Longrightarrow>
     lc_step x c Listens (c\<lparr>lc_Listening := True\<rparr>)"
| lc_accepts: "alive c \<Longrightarrow> lc_Listening c \<Longrightarrow> lc_step x c Accepts (c\<lparr>lc_Conns := Suc (lc_Conns c)\<rparr>)"
| lc_disconnects: "alive c \<Longrightarrow> 0 < lc_Conns c \<Longrightarrow> lc_step x c Disconnects (c\<lparr>lc_Conns := lc_Conns c - 1\<rparr>)"
| lc_requests: "alive c \<Longrightarrow> 0 < lc_Conns c \<Longrightarrow> sys_step x (lc_System c) (Arrives r) s \<Longrightarrow>
     lc_step x c (Requests r) (c\<lparr>lc_System := s, lc_Conns := lc_Conns c - 1\<rparr>)"
| lc_runs: "alive c \<Longrightarrow> inner l \<Longrightarrow> sys_step x (lc_System c) l s \<Longrightarrow> lc_step x c (Runs l) (c\<lparr>lc_System := s\<rparr>)"
| lc_signals: "lc_Phase c = Serving \<Longrightarrow> lc_step x c Signals (c\<lparr>lc_Phase := Signalled\<rparr>)"
| lc_cancels: "lc_Phase c = Signalled \<Longrightarrow> sys_step x (lc_System c) (Reconfigures Cancel) s \<Longrightarrow>
     lc_step x c Cancels (c\<lparr>lc_System := s, lc_Phase := Draining, lc_Listening := False\<rparr>)"
| lc_drains: "lc_Phase c = Draining \<Longrightarrow> lc_Conns c = 0 \<Longrightarrow> answered (lc_System c) \<Longrightarrow>
     lc_step x c Drains (c\<lparr>lc_Phase := Exited 0\<rparr>)"
| lc_expires: "lc_Phase c = Draining \<Longrightarrow> lc_step x c GraceExpires (c\<lparr>lc_Phase := Exited 0\<rparr>)"
| lc_fails: "alive c \<Longrightarrow>
     lc_step x c ServerFails (c\<lparr>lc_Phase := Exited 1, lc_Listening := False\<rparr>)"

abbreviation lc_run :: "externals \<Rightarrow> lifecycle \<Rightarrow> lc_label list \<Rightarrow> lifecycle \<Rightarrow> bool" where
  "lc_run x \<equiv> steps (lc_step x)"

lemmas lc_run_Nil = steps_Nil [of "lc_step x" for x]
lemmas lc_run_one = steps_one [of "lc_step x" for x]
lemmas lc_run_snoc = steps_snoc [of "lc_step x" for x]
lemmas lc_run_append = steps_append [of "lc_step x" for x]

inductive_cases lc_stepE: "lc_step x c l c'"

text \<open>The label determines the step.\<close>

definition lc_exec :: "externals \<Rightarrow> lc_label \<Rightarrow> lifecycle \<Rightarrow> lifecycle option" where
  "lc_exec x l c = (case l of
     Listens \<Rightarrow> if lc_Phase c \<in> {Serving, Signalled} \<and> \<not> lc_Listening c then Some (c\<lparr>lc_Listening := True\<rparr>) else None
   | Accepts \<Rightarrow> if alive c \<and> lc_Listening c then Some (c\<lparr>lc_Conns := Suc (lc_Conns c)\<rparr>) else None
   | Disconnects \<Rightarrow> if alive c \<and> 0 < lc_Conns c then Some (c\<lparr>lc_Conns := lc_Conns c - 1\<rparr>) else None
   | Requests r \<Rightarrow>
       if alive c \<and> 0 < lc_Conns c
       then map_option (\<lambda>s. c\<lparr>lc_System := s, lc_Conns := lc_Conns c - 1\<rparr>) (sys_exec x (Arrives r) (lc_System c))
       else None
   | Runs sl \<Rightarrow> if alive c \<and> inner sl then map_option (\<lambda>s. c\<lparr>lc_System := s\<rparr>) (sys_exec x sl (lc_System c)) else None
   | Signals \<Rightarrow> if lc_Phase c = Serving then Some (c\<lparr>lc_Phase := Signalled\<rparr>) else None
   | Cancels \<Rightarrow>
       if lc_Phase c = Signalled
       then map_option (\<lambda>s. c\<lparr>lc_System := s, lc_Phase := Draining, lc_Listening := False\<rparr>)
         (sys_exec x (Reconfigures Cancel) (lc_System c))
       else None
   | Drains \<Rightarrow>
       if lc_Phase c = Draining \<and> lc_Conns c = 0 \<and> answered (lc_System c) then Some (c\<lparr>lc_Phase := Exited 0\<rparr>) else None
   | GraceExpires \<Rightarrow> if lc_Phase c = Draining then Some (c\<lparr>lc_Phase := Exited 0\<rparr>) else None
   | ServerFails \<Rightarrow>
       if alive c then Some (c\<lparr>lc_Phase := Exited 1, lc_Listening := False\<rparr>) else None)"

lemma lc_step_exec: "lc_step x c l c' \<longleftrightarrow> lc_exec x l c = Some c'"
  by (cases l) (auto simp: lc_exec_def lc_step.simps sys_step_exec)

interpretation lc: executable_steps "lc_step x" "lc_exec x" for x
  by unfold_locales (rule lc_step_exec)

lemma alive_phase [simp]: "lc_Phase c = Exited n \<Longrightarrow> \<not> alive c" "lc_Phase c = Draining \<Longrightarrow> alive c"
  by (simp_all add: alive_def)

section \<open>The process inside\<close>

text \<open>What the requests and the watcher do in the process is a run of \<open>Request_System\<close>.\<close>

lemma launch_system:
  "\<exists>sls. sys_run x (serving proc content) sls (lc_System (launch proc content start))"
proof (cases "isl start")
  case True
  have "watch_step (x_decode x) (started proc content) Closed ((started proc content)\<lparr>running := False\<rparr>)"
    by (rule step_closed) (simp add: started_def start_state_def)
  then have "sys_step x (serving proc content) (Reconfigures Closed) (lc_System (launch proc content start))"
    using sys_reconfigures [of x "serving proc content" Closed] True by (simp add: launch_def serving_def)
  then show ?thesis using sys_run_one by blast
next
  case False
  then have "lc_System (launch proc content start) = serving proc content"
    by (simp add: launch_def serving_def started_def start_state_def)
  then show ?thesis using sys_run_Nil by metis
qed

lemma lc_step_system:
  "lc_step x c l c' \<Longrightarrow> lc_System c' = lc_System c \<or> (\<exists>sl. sys_step x (lc_System c) sl (lc_System c'))"
  by (induction rule: lc_step.induct) auto

lemma lc_run_system: "lc_run x c ls c' \<Longrightarrow> \<exists>sls. sys_run x (lc_System c) sls (lc_System c')"
proof (induction rule: steps.induct)
  case (steps_Nil c)
  then show ?case using sys_run_Nil by blast
next
  case (steps_snoc c ls c' l c'')
  with lc_step_system [OF steps_snoc(2)] sys_run_snoc show ?case by metis
qed

lemma launched_system:
  "lc_run x (launch proc content start) ls c \<Longrightarrow> \<exists>sls. sys_run x (serving proc content) sls (lc_System c)"
  using lc_run_system launch_system sys_run_append by blast

lemma launched_ok:
  "main_setup read_file decode parse_url path port = Inr proc \<Longrightarrow> lc_run x (launch proc content start) ls c \<Longrightarrow>
    system_ok x (lc_System c)"
  using launched_system reachable_ok by blast

section \<open>Invariants\<close>

definition requests :: "lc_label list \<Rightarrow> nat" where
  "requests ls = length (filter (\<lambda>l. case l of Requests r \<Rightarrow> True | _ \<Rightarrow> False) ls)"

text \<open>The phase, the listener, the watcher and the exit code agree with what has happened.\<close>

definition phase_ok :: "lc_label list \<Rightarrow> lifecycle \<Rightarrow> bool" where
  "phase_ok ls c \<longleftrightarrow> length (sys_Threads (lc_System c)) = requests ls \<and>
     (cancelled (sys_Watch (lc_System c)) \<longleftrightarrow> Cancels \<in> set ls) \<and>
     (lc_Phase c \<noteq> Serving \<longleftrightarrow> Signals \<in> set ls \<or> ServerFails \<in> set ls) \<and>
     (case lc_Phase c of
        Serving \<Rightarrow> Cancels \<notin> set ls \<and> ServerFails \<notin> set ls
      | Signalled \<Rightarrow> Cancels \<notin> set ls \<and> ServerFails \<notin> set ls
      | Draining \<Rightarrow> Cancels \<in> set ls \<and> ServerFails \<notin> set ls \<and> Signals \<in> set ls \<and> \<not> lc_Listening c
      | Exited n \<Rightarrow> \<not> lc_Listening c \<and> (n = 0 \<and> Cancels \<in> set ls \<and> Signals \<in> set ls \<and> ServerFails \<notin> set ls \<or>
          n = 1 \<and> ServerFails \<in> set ls)) \<and>
     (lc_Phase c = Exited 0 \<longleftrightarrow> Drains \<in> set ls \<or> GraceExpires \<in> set ls)"

lemma sys_step_threads:
  "sys_step x s l s' \<Longrightarrow> length (sys_Threads s') = length (sys_Threads s) + (case l of Arrives r \<Rightarrow> 1 | _ \<Rightarrow> 0)"
  by (induction rule: sys_step.induct) simp_all

lemma sys_step_cancelled:
  "sys_step x s l s' \<Longrightarrow> cancelled (sys_Watch s') \<longleftrightarrow> cancelled (sys_Watch s) \<or> l = Reconfigures Cancel"
proof (induction rule: sys_step.induct)
  case (sys_reconfigures s l w)
  then show ?case
    by (cases rule: watch_step.cases)
      (auto simp: handle_event_def fire_timer_def swap_in_def notify_def split: sum.split)
qed simp_all

lemma phase_step: "lc_step x c l c' \<Longrightarrow> phase_ok ls c \<Longrightarrow> phase_ok (ls @ [l]) c'"
proof (induction rule: lc_step.induct)
  case (lc_requests c r s)
  then show ?case using sys_step_threads [OF lc_requests(3)] sys_step_cancelled [OF lc_requests(3)]
    by (cases "lc_Phase c") (auto simp: phase_ok_def requests_def)
next
  case (lc_runs c l s)
  have "length (sys_Threads s) = length (sys_Threads (lc_System c))"
    "cancelled (sys_Watch s) \<longleftrightarrow> cancelled (sys_Watch (lc_System c))"
    using lc_runs(2) sys_step_threads [OF lc_runs(3)] sys_step_cancelled [OF lc_runs(3)]
    by (auto simp: inner_def split: sys_label.splits)
  with lc_runs(4) show ?case by (cases "lc_Phase c") (auto simp: phase_ok_def requests_def)
next
  case (lc_cancels c s)
  then show ?case using sys_step_threads [OF lc_cancels(2)] sys_step_cancelled [OF lc_cancels(2)]
    by (auto simp: phase_ok_def requests_def)
next
  case (lc_listens c)
  then show ?case by (cases "lc_Phase c") (auto simp: phase_ok_def requests_def)
next
  case (lc_accepts c)
  then show ?case by (cases "lc_Phase c") (auto simp: phase_ok_def requests_def)
next
  case (lc_disconnects c)
  then show ?case by (cases "lc_Phase c") (auto simp: phase_ok_def requests_def)
next
  case (lc_fails c)
  then show ?case by (cases "lc_Phase c") (auto simp: phase_ok_def requests_def)
qed (auto simp: phase_ok_def requests_def)

lemma launch_phase: "phase_ok [] (launch proc content start)"
  by (simp add: phase_ok_def launch_def serving_def requests_def started_def start_state_def)

lemma run_phase: "lc_run x c ls c' \<Longrightarrow> phase_ok [] c \<Longrightarrow> phase_ok ls c'"
  by (erule steps_history) (auto intro: phase_step)

lemma run_server: "lc_run x c ls c' \<Longrightarrow> lc_Server c' = lc_Server c"
proof (induction rule: steps.induct)
  case (steps_snoc c ls c' l c'')
  from steps_snoc(2,3) show ?case by (auto elim: lc_stepE)
qed simp

text \<open>Without the end of the grace period, the process leaves only when nobody waits.\<close>

lemma drained_answered:
  "lc_run x c ls c' \<Longrightarrow> lc_Phase c = Serving \<Longrightarrow> GraceExpires \<notin> set ls \<Longrightarrow> lc_Phase c' = Exited 0 \<Longrightarrow>
    answered (lc_System c')"
proof (induction rule: steps.induct)
  case (steps_snoc c ls c' l c'')
  from steps_snoc(2) steps_snoc.prems steps_snoc.IH show ?case by (cases rule: lc_step.cases) auto
qed simp

section \<open>Draining\<close>

lemma by_thread_frame:
  "sys_run x s ls s' \<Longrightarrow> list_all (by_thread i) ls \<Longrightarrow>
    length (sys_Threads s') = length (sys_Threads s) \<and> (\<forall>j. j \<noteq> i \<longrightarrow> sys_Threads s' ! j = sys_Threads s ! j)"
proof (induction rule: steps.induct)
  case (steps_snoc s ls s' l s'')
  then have "by_thread i l" and IH: "length (sys_Threads s') = length (sys_Threads s)"
    "\<forall>j. j \<noteq> i \<longrightarrow> sys_Threads s' ! j = sys_Threads s ! j" by simp_all
  from steps_snoc.hyps(2) this(1) have "length (sys_Threads s'') = length (sys_Threads s')"
    "\<forall>j. j \<noteq> i \<longrightarrow> sys_Threads s'' ! j = sys_Threads s' ! j"
    by (cases rule: sys_step.cases; simp add: by_thread_def)+
  with IH show ?case by simp
qed simp

text \<open>What a request does, the process can do as long as it lives.\<close>

lemma lc_runs_thread:
  "sys_run x s ls s' \<Longrightarrow> lc_System c = s \<Longrightarrow> lc_Phase c = Draining \<Longrightarrow> list_all (by_thread i) ls \<Longrightarrow>
    lc_run x c (map Runs ls) (c\<lparr>lc_System := s'\<rparr>)"
proof (induction rule: steps.induct)
  case (steps_Nil s)
  then have "c\<lparr>lc_System := s\<rparr> = c" by simp
  then show ?case using lc_run_Nil [of x c] by simp
next
  case (steps_snoc s ls s' l s'')
  then have run: "lc_run x c (map Runs ls) (c\<lparr>lc_System := s'\<rparr>)" and "inner l"
    by (auto simp: by_thread_def inner_def split: sys_label.splits)
  with steps_snoc have "lc_step x (c\<lparr>lc_System := s'\<rparr>) (Runs l) (c\<lparr>lc_System := s'\<rparr>\<lparr>lc_System := s''\<rparr>)"
    by (intro lc_runs) simp_all
  from lc_run_snoc [OF run this] show ?case by simp
qed

definition unanswered :: "system \<Rightarrow> nat set" where
  "unanswered s = {i. i < length (sys_Threads s) \<and> th_Reply (sys_Threads s ! i) = None}"

lemma answered_iff: "answered s \<longleftrightarrow> unanswered s = {}"
  by (auto simp: answered_def unanswered_def list_all_length)

lemma finite_unanswered [simp]: "finite (unanswered s)"
  by (simp add: unanswered_def)

lemma drains_threads:
  assumes "system_ok x (lc_System c)" and "lc_Phase c = Draining"
  shows "\<exists>ls c'. lc_run x c ls c' \<and> GraceExpires \<notin> set ls \<and> length ls \<le> 20 * card (unanswered (lc_System c)) \<and>
    answered (lc_System c') \<and> lc_Phase c' = Draining \<and> lc_Conns c' = lc_Conns c"
  using assms
proof (induction "card (unanswered (lc_System c))" arbitrary: c rule: less_induct)
  case less
  show ?case
  proof (cases "unanswered (lc_System c) = {}")
    case True
    with less.prems lc_run_Nil [of x c] show ?thesis
      by (intro exI [of _ "[]"] exI [of _ c]) (simp add: answered_iff)
  next
    case False
    then obtain i where i: "i \<in> unanswered (lc_System c)" by blast
    then have "i < length (sys_Threads (lc_System c))" "th_Reply (sys_Threads (lc_System c) ! i) = None"
      by (simp_all add: unanswered_def)
    from thread_finishes [OF less.prems(1) this] obtain ls s where run: "sys_run x (lc_System c) ls s"
      and own: "list_all (by_thread i) ls" and len: "length ls \<le> 20" and reply: "th_Reply (sys_Threads s ! i) \<noteq> None"
      by (auto simp: max_actions_def)
    have lc: "lc_run x c (map Runs ls) (c\<lparr>lc_System := s\<rparr>)"
      by (rule lc_runs_thread [OF run refl less.prems(2) own])
    have "unanswered s \<subseteq> unanswered (lc_System c) - {i}"
    proof
      fix j
      assume "j \<in> unanswered s"
      then have j: "j < length (sys_Threads s)" "th_Reply (sys_Threads s ! j) = None" by (simp_all add: unanswered_def)
      with reply have "j \<noteq> i" by auto
      with j by_thread_frame [OF run own] show "j \<in> unanswered (lc_System c) - {i}" by (simp add: unanswered_def)
    qed
    then have "card (unanswered s) \<le> card (unanswered (lc_System c) - {i})"
      by (intro card_mono) simp_all
    also have "\<dots> < card (unanswered (lc_System c))" using i by (intro card_Diff1_less) simp_all
    finally have card: "card (unanswered s) < card (unanswered (lc_System c))" .
    have "system_ok x s" by (rule system_run_ok [OF run less.prems(1)])
    with less.hyps [of "c\<lparr>lc_System := s\<rparr>"] card less.prems(2) obtain ls' c' where
      run': "lc_run x (c\<lparr>lc_System := s\<rparr>) ls' c'" and rest: "GraceExpires \<notin> set ls'"
      "length ls' \<le> 20 * card (unanswered s)" "answered (lc_System c')" "lc_Phase c' = Draining" "lc_Conns c' = lc_Conns c"
      by auto
    have "length (map Runs ls @ ls') \<le> 20 * card (unanswered (lc_System c))" using len card rest(2) by simp
    moreover have "GraceExpires \<notin> set (map Runs ls @ ls')" using rest(1) by auto
    ultimately show ?thesis using lc_run_append [OF run' lc] rest by blast
  qed
qed

lemma drains_conns:
  assumes "lc_Phase c = Draining"
  shows "\<exists>ls. lc_run x c ls (c\<lparr>lc_Conns := 0\<rparr>) \<and> GraceExpires \<notin> set ls \<and> length ls = lc_Conns c"
  using assms
proof (induction "lc_Conns c" arbitrary: c)
  case 0
  then have same: "c\<lparr>lc_Conns := 0\<rparr> = c" by (cases c) simp
  with 0 show ?case unfolding same using lc_run_Nil [of x c] by (intro exI [of _ "[]"]) simp
next
  case (Suc n)
  from Suc(1) [of "c\<lparr>lc_Conns := n\<rparr>"] Suc.prems obtain ls where
    "lc_run x (c\<lparr>lc_Conns := n\<rparr>) ls (c\<lparr>lc_Conns := 0\<rparr>)" "GraceExpires \<notin> set ls" "length ls = n" by auto
  moreover have "lc_step x c Disconnects (c\<lparr>lc_Conns := n\<rparr>)"
    using lc_disconnects [of c x] Suc.prems by (simp add: Suc(2) [symmetric])
  ultimately have "lc_run x c ([Disconnects] @ ls) (c\<lparr>lc_Conns := 0\<rparr>)"
    using lc_run_append [OF _ lc_run_one] by blast
  then show ?case using \<open>GraceExpires \<notin> set ls\<close> \<open>length ls = n\<close> Suc(2)
    by (intro exI [of _ "[Disconnects] @ ls"]) simp
qed

lemma drains_all:
  assumes ok: "system_ok x (lc_System c)" and phase: "lc_Phase c = Draining"
  shows "\<exists>ls' c'. lc_run x c ls' c' \<and> GraceExpires \<notin> set ls' \<and> lc_Phase c' = Exited 0 \<and> answered (lc_System c') \<and>
    length ls' \<le> 20 * card (unanswered (lc_System c)) + lc_Conns c + 1"
proof -
  from drains_threads [OF ok phase] obtain ls1 c1 where
    run1: "lc_run x c ls1 c1" and c1: "GraceExpires \<notin> set ls1" "length ls1 \<le> 20 * card (unanswered (lc_System c))"
      "answered (lc_System c1)" "lc_Phase c1 = Draining" "lc_Conns c1 = lc_Conns c" by blast
  from drains_conns [OF c1(4), of x] obtain ls2 where
    run2: "lc_run x c1 ls2 (c1\<lparr>lc_Conns := 0\<rparr>)" and ls2: "GraceExpires \<notin> set ls2" "length ls2 = lc_Conns c" using c1 by auto
  have "lc_step x (c1\<lparr>lc_Conns := 0\<rparr>) Drains (c1\<lparr>lc_Conns := 0\<rparr>\<lparr>lc_Phase := Exited 0\<rparr>)"
    using c1 by (intro lc_drains) simp_all
  from lc_run_append [OF lc_run_one [OF this] lc_run_append [OF run2 run1]]
  have "lc_run x c ((ls1 @ ls2) @ [Drains]) (c1\<lparr>lc_Conns := 0, lc_Phase := Exited 0\<rparr>)" by simp
  with c1 ls2 show ?thesis
    by (intro exI [of _ "(ls1 @ ls2) @ [Drains]"] exI [of _ "c1\<lparr>lc_Conns := 0, lc_Phase := Exited 0\<rparr>"]) simp
qed

section \<open>A concrete life\<close>

definition demo_start :: "(start_error, string) go_result" where
  "demo_start = Inl PolicyFileMissing"

text \<open>The watcher fails to start, a request comes in, the process is told to stop, and drains.\<close>

definition demo_life :: "lc_label list" where
  "demo_life = [Runs (Reconfigures (WriteFile None)), Listens, Accepts, Requests (demo_request ''drop table t;''), Signals, Cancels]"

lemma demo_life_run:
  "\<exists>c. lc_run demo_x (launch demo_proc None demo_start) demo_life c \<and> lc_Phase c = Draining \<and> lc_Conns c = 0 \<and>
    length (sys_Threads (lc_System c)) = 1"
  by (simp add: lc.steps_execs demo_life_def lc_exec_def launch_def serving_def alive_def inner_def sys_exec_def
      demo_request_ok watch_exec_def)

section \<open>Properties\<close>

text \<open>The exit code of a process that has been launched (a failed set-up exits with 1 before that): 0 after a
  shutdown that drained or ran out of its grace period, which takes a signal and a cancelled watcher, 1 after the
  server failed.\<close>

lemma exit_codes:
  assumes "lc_run x (launch proc content start) ls c"
  shows "(lc_Phase c = Exited 0 \<longleftrightarrow> Drains \<in> set ls \<or> GraceExpires \<in> set ls) \<and>
    (lc_Phase c = Exited 1 \<longleftrightarrow> ServerFails \<in> set ls) \<and>
    (lc_Phase c = Exited 0 \<longrightarrow> Signals \<in> set ls \<and> cancelled (sys_Watch (lc_System c)) \<and> \<not> lc_Listening c) \<and>
    (\<forall>n. lc_Phase c = Exited n \<longrightarrow> n \<in> {0, 1} \<and> (\<nexists>l c'. lc_step x c l c'))"
proof -
  have ok: "phase_ok ls c" by (rule run_phase [OF assms launch_phase])
  have "\<nexists>l c'. lc_step x c l c'" if "lc_Phase c = Exited n" for n
    using that by (auto elim: lc_stepE)
  with ok show ?thesis by (cases "lc_Phase c") (auto simp: phase_ok_def)
qed

text \<open>C14. A shutdown that drains loses nothing: when the process has left with code 0 and the grace period did not run
  out, every request that came in over an accepted connection has been answered, behind the wrapper, and the
  counters of the three outcomes add up to the number of requests.\<close>

theorem graceful_exit_complete:
  assumes "main_setup read_file decode parse_url path port = Inr proc"
    and "lc_run x (launch proc content start) ls c" and "lc_Phase c = Exited 0" and "GraceExpires \<notin> set ls"
  shows "length (sys_Threads (lc_System c)) = requests ls \<and> (\<forall>i<requests ls. delivered c i \<noteq> None) \<and>
    query_count (sys_Metrics (lc_System c)) StatusBlocked ''trino'' +
    query_count (sys_Metrics (lc_System c)) StatusAllowed ''trino'' +
    query_count (sys_Metrics (lc_System c)) StatusBypassed ''trino'' = requests ls"
proof -
  have n: "length (sys_Threads (lc_System c)) = requests ls"
    using run_phase [OF assms(2) launch_phase] by (simp add: phase_ok_def)
  have all: "answered (lc_System c)"
    by (rule drained_answered [OF assms(2) _ assms(4,3)]) (simp add: launch_def)
  have count: "query_count (sys_Metrics (lc_System c)) st ''trino'' = length (filter (\<lambda>th.
      status_of_reply (evaluated (th_Request th)) (the (th_Reply th)) = st) (sys_Threads (lc_System c)))" for st
    by (rule answered_counts [OF launched_ok [OF assms(1,2)] all])
  have "length (filter (\<lambda>y. f y = StatusBlocked) ys) + length (filter (\<lambda>y. f y = StatusAllowed) ys) +
      length (filter (\<lambda>y. f y = StatusBypassed) ys) = length ys" for f :: "thread \<Rightarrow> QueryStatus" and ys
    by (induction ys) (auto, metis QueryStatus.exhaust)
  with n all show ?thesis by (simp add: count answered_def list_all_length delivered_def)
qed

lemma graceful_exit_complete_witness:
  "\<exists>ls c. lc_run demo_x (launch demo_proc None demo_start) ls c \<and> lc_Phase c = Exited 0 \<and> 0 < requests ls \<and>
    delivered c 0 \<noteq> None"
proof -
  obtain c where run: "lc_run demo_x (launch demo_proc None demo_start) demo_life c" and phase: "lc_Phase c = Draining"
    using demo_life_run by blast
  from drains_all [OF launched_ok [OF demo_setup run] phase] obtain ls' c' where run': "lc_run demo_x c ls' c'"
    and c': "GraceExpires \<notin> set ls'" "lc_Phase c' = Exited 0" by blast
  have all: "lc_run demo_x (launch demo_proc None demo_start) (demo_life @ ls') c'" by (rule lc_run_append [OF run' run])
  have "GraceExpires \<notin> set (demo_life @ ls')" "0 < requests (demo_life @ ls')"
    using c'(1) by (simp_all add: demo_life_def requests_def)
  with graceful_exit_complete [OF demo_setup all c'(2)] all c'(2) show ?thesis by blast
qed

text \<open>C15. A shutdown can always be completed cleanly: from every state in which the main goroutine waits in
  \<open>Shutdown\<close>, with any requests in flight and any reloads pending, the process can answer them all and leave
  within a number of actions that is linear in the requests and connections that are left.\<close>

theorem shutdown_completes:
  assumes "main_setup read_file decode parse_url path port = Inr proc"
    and "lc_run x (launch proc content start) ls c" and "lc_Phase c = Draining"
  shows "\<exists>ls' c'. lc_run x c ls' c' \<and> GraceExpires \<notin> set ls' \<and> lc_Phase c' = Exited 0 \<and> answered (lc_System c') \<and>
    length ls' \<le> 20 * card (unanswered (lc_System c)) + lc_Conns c + 1"
  by (rule drains_all [OF launched_ok [OF assms(1,2)] assms(3)])

lemma shutdown_completes_witness:
  "\<exists>c ls' c'. lc_run demo_x (launch demo_proc None demo_start) demo_life c \<and> lc_run demo_x c ls' c' \<and>
    lc_Phase c' = Exited 0 \<and> answered (lc_System c')"
proof -
  obtain c where run: "lc_run demo_x (launch demo_proc None demo_start) demo_life c" and "lc_Phase c = Draining"
    using demo_life_run by blast
  from shutdown_completes [OF demo_setup this] run show ?thesis by blast
qed

text \<open>The transport is fixed when the process starts, whatever is reloaded later: with both TLS files in the policy of
  the start there is only a TLS listener, and every reply carries the \<open>Strict-Transport-Security\<close> value in
  front of those of the handler; without them there is only a plain listener and replies go out as the
  handler made them.\<close>

lemma transport_fixed:
  assumes "lc_run x (launch proc content start) ls c" and "p = Get (w_cfg (proc_watcher proc))"
  shows "(TLS_Enabled (TLS (Server p)) \<longrightarrow>
      srv_Listener (lc_Server c) = TLSListener (CertFile (TLS (Server p))) (KeyFile (TLS (Server p))) \<and>
      (\<forall>i reply. delivered c i = Some reply \<longrightarrow>
        (\<exists>vs. header_values (reply_Header reply) ''Strict-Transport-Security'' = hsts_value # vs))) \<and>
    (\<not> TLS_Enabled (TLS (Server p)) \<longrightarrow> srv_Listener (lc_Server c) = PlainListener \<and>
      (\<forall>i. delivered c i = th_Reply (sys_Threads (lc_System c) ! i)))"
proof -
  have srv: "lc_Server c = http_server p" using run_server [OF assms(1)] assms(2) by (simp add: launch_def)
  show ?thesis
    by (auto simp: delivered_def srv http_server_def hsts_twice hstsHandler_def [of False] map_option_idI)
qed

lemma exit_codes_witness:
  "\<exists>c. lc_run demo_x (launch demo_proc None demo_start) [ServerFails] c \<and> lc_Phase c = Exited 1 \<and>
    (\<nexists>l c'. lc_step demo_x c l c')"
proof -
  obtain c where run: "lc_run demo_x (launch demo_proc None demo_start) [ServerFails] c" and phase: "lc_Phase c = Exited 1"
    by (auto simp: lc.steps_execs lc_exec_def launch_def alive_def)
  from exit_codes [OF run] phase run show ?thesis by blast
qed

lemma transport_fixed_witness:
  "\<exists>c. lc_run demo_x (launch demo_proc None demo_start) demo_life c \<and> srv_Listener (lc_Server c) = PlainListener"
proof -
  obtain c where run: "lc_run demo_x (launch demo_proc None demo_start) demo_life c" using demo_life_run by blast
  have "Get (w_cfg (proc_watcher demo_proc)) = demo_live"
    using demo_live [of "serving demo_proc None"] by (simp add: live_policy_def serving_def)
  then have "\<not> TLS_Enabled (TLS (Server (Get (w_cfg (proc_watcher demo_proc)))))"
    by (simp add: demo_live_def setDefaults_def demo_policy_def TLS_Enabled_def)
  with transport_fixed [OF run refl] run show ?thesis by blast
qed

section \<open>What the shutdown allows\<close>

text \<open>
  The policy can still change after the watcher is cancelled: the armed debounce timer is not stopped, and its
  reload runs while the requests drain.
\<close>

lemma reload_while_draining:
  assumes "lc_Phase c = Draining" and "pending (sys_Watch (lc_System c))"
  shows "\<exists>c'. lc_step x c (Runs (Reconfigures TimerFires)) c' \<and>
    sys_Watch (lc_System c') = fire_timer (x_decode x) (sys_Watch (lc_System c))"
proof -
  have "sys_step x (lc_System c) (Reconfigures TimerFires)
      ((lc_System c)\<lparr>sys_Watch := fire_timer (x_decode x) (sys_Watch (lc_System c))\<rparr>)"
    by (intro sys_reconfigures step_fire assms(2))
  then have "lc_step x c (Runs (Reconfigures TimerFires))
      (c\<lparr>lc_System := (lc_System c)\<lparr>sys_Watch := fire_timer (x_decode x) (sys_Watch (lc_System c))\<rparr>\<rparr>)"
    using assms(1) by (intro lc_runs) (simp_all add: inner_def)
  then show ?thesis by (intro exI conjI, assumption) simp
qed

text \<open>The grace period cuts off what is still running: the process leaves with code 0 and a client without an answer.\<close>

lemma grace_abandons:
  "\<exists>c. lc_run demo_x (launch demo_proc None demo_start) (demo_life @ [GraceExpires]) c \<and> lc_Phase c = Exited 0 \<and>
    \<not> answered (lc_System c)"
  by (simp add: lc.steps_execs demo_life_def lc_exec_def launch_def serving_def alive_def inner_def sys_exec_def
      demo_request_ok watch_exec_def answered_def new_thread_def)

end
