(* ===== verification/Rejection_Text.thy ===== *)
theory Rejection_Text
  imports Proxy_Properties
begin

text \<open>
  What a client of a rejected statement receives, byte by byte: the messages of \<open>handler.go\<close> and \<open>trino.go\<close>, formatted
  as \<open>fmt.Sprintf\<close> formats them, inside the JSON body that \<open>response.go\<close> hands to \<open>encoding/json\<close>.  The record
  \<open>Formats\<close> holds the two tables of the standard library that are arguments: which runes above Latin-1 are
  printable, and the text of a floating-point number (\<open>%g\<close>).  The readers are the client's side.
\<close>

section \<open>Messages\<close>

record Formats =
  printable :: "rune \<Rightarrow> bool"
  float_text :: "float64 \<Rightarrow> string"

primrec tier1_text :: "Formats \<Rightarrow> tier1_message \<Rightarrow> string" where
  "tier1_text f NoMessage = []"
| "tier1_text f (StatementBlocked c) = ''statement type '' @ class_String c @ '' is blocked by policy''"
| "tier1_text f (TableBlocked table entry) =
     ''table '' @ Quote (printable f) table @ '' is blocked by policy (matched '' @ Quote (printable f) entry @ '')''"
| "tier1_text f (FunctionBlocked fn) = ''function '' @ Quote (printable f) fn @ '' is blocked by policy''"
| "tier1_text f (SelectStarBlocked table) =
     ''SELECT * on table '' @ Quote (printable f) table @ '' is blocked (specify explicit columns)''"
| "tier1_text f (FilterRequired table missing mode) =
     ''query on table '' @ Quote (printable f) table @ '' must filter on column(s) '' @ join_with '', '' missing
       @ '' (required filter, mode '' @ mode @ '')''"

primrec limit_text :: "Formats \<Rightarrow> limit_reason \<Rightarrow> string" where
  "limit_text f NoReason = []"
| "limit_text f (PerQueryBytes bytes limit) =
     ''estimated scan bytes '' @ go_decimal bytes @ '' exceeds per-query limit '' @ go_decimal limit"
| "limit_text f (CPUCost cost limit) =
     ''estimated cpu cost '' @ float_text f cost @ '' exceeds limit '' @ float_text f limit"
| "limit_text f (TableBytes table bytes limit) =
     ''table '' @ table @ '' estimated scan bytes '' @ go_decimal bytes @ '' exceeds limit '' @ go_decimal limit"
| "limit_text f (TableRows table rows limit) =
     ''table '' @ table @ '' estimated rows '' @ go_decimal rows @ '' exceeds limit '' @ go_decimal limit"

primrec message_text :: "Formats \<Rightarrow> rejection_message \<Rightarrow> string" where
  "message_text f (Tier1Message m) = tier1_text f m"
| "message_text f (CostMessage m) = limit_text f m"

section \<open>The body\<close>

definition json_member :: "string \<times> string \<Rightarrow> string" where
  "json_member m = json_string (fst m) @ CHR '':'' # json_string (snd m)"

definition json_object :: "(string \<times> string) list \<Rightarrow> string" where
  "json_object ms = CHR 0x7B # join_with '','' (map json_member ms) @ [CHR 0x7D]"

text \<open>The fields in the order of the struct; \<open>omitempty\<close> drops an empty identifier.\<close>

definition rejection_members :: "Formats \<Rightarrow> rejectionResponse \<Rightarrow> (string \<times> string) list" where
  "rejection_members f y =
     [(''error_code'', rr_ErrorCode y), (''reason'', reason_label (rr_Reason y)),
      (''message'', message_text f (rr_Message y))]
     @ (if rr_RequestID y = [] then [] else [(''request_id'', rr_RequestID y)])"

text \<open>\<open>Encode\<close> ends the value with a newline.\<close>

definition rejection_bytes :: "Formats \<Rightarrow> rejectionResponse \<Rightarrow> string" where
  "rejection_bytes f y = json_object (rejection_members f y) @ [CHR 0x0A]"

definition reply_text :: "Formats \<Rightarrow> string \<Rightarrow> Reply \<Rightarrow> string" where
  "reply_text f metrics_page reply =
     (case reply_Body reply of
        Bytes b \<Rightarrow> stream_data b | RejectionBody y \<Rightarrow> rejection_bytes f y | MetricsText \<Rightarrow> metrics_page)"

section \<open>The client's readers\<close>

definition read_member :: "string \<Rightarrow> ((string \<times> string) \<times> string) option" where
  "read_member s =
     (case read_string json_unit s of
        Some (k, b # t) \<Rightarrow>
          if b = CHR '':'' then (case read_string json_unit t of None \<Rightarrow> None | Some (v, u) \<Rightarrow> Some ((k, v), u)) else None
      | _ \<Rightarrow> None)"

definition read_members :: "string \<Rightarrow> ((string \<times> string) list \<times> string) option" where
  "read_members = read_sequence read_member (CHR '','') (CHR 0x7D)"

definition read_object :: "string \<Rightarrow> ((string \<times> string) list \<times> string) option" where
  "read_object s =
     (case s of
        b # c # t \<Rightarrow>
          if b \<noteq> CHR 0x7B then None else if c = CHR 0x7D then Some ([], t) else read_members (c # t)
      | _ \<Rightarrow> None)"

definition body_field :: "string \<Rightarrow> string \<Rightarrow> string option" where
  "body_field k body = (case read_object body of None \<Rightarrow> None | Some (ms, rest) \<Rightarrow> map_of ms k)"

text \<open>The table and the entry of a message that a table is blocked.\<close>

definition blocked_names :: "string \<Rightarrow> (string \<times> string) option" where
  "blocked_names m =
     (case read_string go_unit (drop (length ''table '') m) of
        None \<Rightarrow> None
      | Some (table, t) \<Rightarrow>
          (case read_string go_unit (drop (length '' is blocked by policy (matched '') t) of
             None \<Rightarrow> None | Some (entry, u) \<Rightarrow> Some (table, entry)))"

section \<open>Reading back an object\<close>

definition read_as :: "string \<times> string \<Rightarrow> string \<times> string" where
  "read_as m = (coerce_utf8 (fst m), coerce_utf8 (snd m))"

lemma read_json_member: "read_member (json_member m @ t) = Some (read_as m, t)"
  by (simp add: read_member_def json_member_def read_json_string read_as_def)

interpretation members: separated json_member read_member read_as "\<lambda>m. True" "CHR '',''" "CHR 0x7D"
  by unfold_locales (simp_all add: read_json_member)

lemma json_member_start: "\<exists>u. json_member m = CHR 0x22 # u"
  by (simp add: json_member_def json_string_def)

lemma read_json_object: "ms \<noteq> [] \<Longrightarrow> read_object (json_object ms @ t) = Some (map read_as ms, t)"
proof -
  assume "ms \<noteq> []"
  then obtain m ns where ms: "ms = m # ns" by (cases ms) auto
  obtain u where u: "join_with '','' (map json_member ms) = CHR 0x22 # u"
    using json_member_start [of m] ms by (cases ns) auto
  then show ?thesis
    using members.read_written [of m ns t] by (simp add: read_object_def json_object_def read_members_def ms list_all_iff)
qed

lemma json_object_bytes: "b \<in> set (json_object ms) \<Longrightarrow> 32 \<le> byte_val b"
  using json.quoted_bytes [of b]
  by (auto simp: json_object_def json_member_def dest!: join_with_bytes)
lemma coerce_ascii: "is_ascii s \<Longrightarrow> coerce_utf8 s = s"
  by (simp add: coerce_valid valid_utf8_ascii)

lemma coerce_literals [simp]:
  "coerce_utf8 ''error_code'' = ''error_code''" "coerce_utf8 ''reason'' = ''reason''"
  "coerce_utf8 ''message'' = ''message''" "coerce_utf8 ''request_id'' = ''request_id''"
  "coerce_utf8 errorCodeLimitBreach = errorCodeLimitBreach" "coerce_utf8 (reason_label r) = reason_label r"
  by (simp_all add: coerce_ascii errorCodeLimitBreach_def) (cases r; simp add: coerce_ascii)

lemma reply_text_rejection: "rejection_of reply = Some y \<Longrightarrow> reply_text f page reply = rejection_bytes f y"
  by (simp add: rejection_of_def reply_text_def split: payload.splits)

lemma read_rejection: "read_object (rejection_bytes f y) = Some (map read_as (rejection_members f y), [CHR 0x0A])"
  by (simp add: rejection_bytes_def read_json_object rejection_members_def)

section \<open>Properties\<close>

text \<open>C17. The body of a rejection can always be read: whatever the statement, the policy and the identifier of the
  request contain, it is one JSON object on one line, with the error code, the label of the reason, the message and,
  unless it is empty, the identifier, each as it was written up to bytes that are no UTF-8.\<close>

theorem rejection_body_roundtrip:
  "read_object (reply_text f page (WriteRejection status reason message requestID)) =
     Some ([(''error_code'', ''QUERY_GUARD_LIMIT_BREACH''), (''reason'', reason_label reason),
            (''message'', coerce_utf8 (message_text f message))]
           @ (if requestID = [] then [] else [(''request_id'', coerce_utf8 requestID)]), [CHR 0x0A]) \<and>
   list_all (\<lambda>b. 32 \<le> byte_val b) (butlast (reply_text f page (WriteRejection status reason message requestID)))"
proof -
  have body: "reply_text f page (WriteRejection status reason message requestID) =
      rejection_bytes f \<lparr>rr_ErrorCode = errorCodeLimitBreach, rr_Reason = reason, rr_Message = message,
        rr_RequestID = requestID\<rparr>"
    by (simp add: reply_text_def WriteRejection_def)
  show ?thesis
    unfolding body read_rejection
    by (auto simp: rejection_members_def read_as_def errorCodeLimitBreach_def [symmetric] rejection_bytes_def
        list_all_iff dest: json_object_bytes)
qed

lemma tier1_text_utf8: "valid_utf8 (tier1_text f (TableBlocked table entry))"
  by (simp add: valid_utf8_append Quote_utf8 valid_utf8_ascii_Cons)

lemma blocked_names_text: "blocked_names (tier1_text f (TableBlocked table entry)) = Some (table, entry)"
  by (simp add: blocked_names_def read_Quote)

lemma body_field_message:
  "rejection_of reply = Some y \<Longrightarrow> body_field ''message'' (reply_text f page reply) = Some (coerce_utf8 (message_text f (rr_Message y)))"
  by (simp add: body_field_def reply_text_rejection read_rejection rejection_members_def read_as_def)

lemma forward_no_rejection: "(reply, st') = forward env r body st \<Longrightarrow> rejection_of reply = None"
  by (metis fst_conv rejection_of_simps(2))

lemma tier1_table_message:
  assumes "tier1 p res = (ReasonTableBlocklist, msg, False)"
  shows "\<exists>t\<in>set (Tables res). \<exists>e\<in>set (TableBlocklist (Rules p)). tableBlocklisted t e \<and> msg = TableBlocked t e"
proof -
  from assms have "check_tables p res = Some (ReasonTableBlocklist, msg)"
    using check_reasons(1) [of p res] check_reasons(3) [of p res] check_reasons(4) [of p res] check_reasons(5) [of p res]
    by (fastforce simp: tier1_def split: option.splits)
  then show ?thesis
    by (auto simp: check_tables_def dest!: first_error_SomeD split: if_splits)
qed

text \<open>C18. A client whose statement was rejected over a blocklisted table learns which: the message in the body
  names, readably whatever bytes the names have, a table of the statement and an entry of the blocklist
  that match.\<close>

theorem blocked_table_named:
  assumes "handleStatement env r st = Some (reply, st')" and "rejection_of reply = Some y"
    and "rr_Reason y = ReasonTableBlocklist"
  shows "\<exists>res t e m. Analyze (parse_sql env) (inspected_query r) = Inr res \<and> t \<in> set (Tables res) \<and>
    e \<in> set (TableBlocklist (Rules (policy_of env (interfere env (st_World st))))) \<and> tableBlocklisted t e \<and>
    body_field ''message'' (reply_text f page reply) = Some m \<and> blocked_names m = Some (t, e)"
proof -
  from assms(1,2) obtain res where res: "Analyze (parse_sql env) (inspected_query r) = Inr res"
    and out: "tiers_outcome env (WithRequestID (request_id env r st) r) (stream_data (r_Body r)) (inspected_query r) res
      (yield_world env st) (reply, st')"
    by (elim rejected_in_tiers)
  from out obtain msg where "tier1 (policy_of env (interfere env (st_World st))) res = (ReasonTableBlocklist, msg, False)"
    and msg: "rr_Message y = Tier1Message msg"
    using assms(2,3) by cases (auto simp: yield_world_def dest: forward_no_rejection)
  then obtain t e where "t \<in> set (Tables res)" "e \<in> set (TableBlocklist (Rules (policy_of env (interfere env (st_World st)))))"
    "tableBlocklisted t e" and te: "msg = TableBlocked t e"
    using tier1_table_message by blast
  moreover have "body_field ''message'' (reply_text f page reply) = Some (tier1_text f (TableBlocked t e))"
    using body_field_message [OF assms(2)] coerce_valid [OF tier1_text_utf8] by (simp only: msg te message_text.simps)
  ultimately show ?thesis using res blocked_names_text by blast
qed

definition demo_formats :: Formats where
  "demo_formats = \<lparr>printable = (\<lambda>r. False), float_text = (\<lambda>x. ''0'')\<rparr>"

lemma blocked_table_named_witness:
  "\<exists>reply st' m. handleStatement demo_env (demo_request ''select k from hive.secret.keys'') demo_state = Some (reply, st') \<and>
    body_field ''message'' (reply_text demo_formats [] reply) = Some m \<and>
    blocked_names m = Some (''hive.secret.keys'', ''hive.secret.keys'')"
proof -
  let ?r = "demo_request ''select k from hive.secret.keys''"
  have ev: "evaluated ?r" by (simp add: evaluated_def demo_select_query IsBypass_def)
  have res: "Analyze (parse_sql demo_env) (inspected_query ?r) =
      Inr ((empty_result StatementSelect)\<lparr>Tables := [''hive.secret.keys'']\<rparr>)"
    by (simp add: demo_select_query demo_select_tables Analyze_unparsed IsBypass_def demo_env_def)
  have "tier1_verdict (policy_of demo_env (interfere demo_env (st_World demo_state)))
      ((empty_result StatementSelect)\<lparr>Tables := [''hive.secret.keys'']\<rparr>) = Some ReasonTableBlocklist"
    by (simp add: tier1_verdict_def statement_blocked_def table_blocked_def demo_policy_def tableBlocklisted_def
        EqualFold_refl empty_result_def go_eval)
  from rejected_by_tier1 [OF ev res this] obtain reply st' y
    where run: "handleStatement demo_env ?r demo_state = Some (reply, st')" "rejection_of reply = Some y"
      "rr_Reason y = ReasonTableBlocklist" by blast
  from blocked_table_named [OF run, of demo_formats "[]"] run(1) res show ?thesis
    by (auto simp: demo_policy_def)
qed

end
