(* ===== verification/Audit_Text.thy ===== *)
theory Audit_Text
  imports Rejection_Text
begin

text \<open>
  The audit log as bytes: the attributes that \<open>auditRejection\<close> hands to the logger, in its order, and the line that
  the logger of \<open>main.go\<close>, a \<open>slog.TextHandler\<close>, writes for them.  A value is written as it is, or quoted when it is
  empty or has a byte that could be mistaken for the syntax of the line.  The reader is the log's consumer.
\<close>

section \<open>Attributes\<close>

text \<open>The verb \<open>%+v\<close> on a list of strings and on the maps of a snapshot, whose keys are printed in order.\<close>

definition list_text :: "string list \<Rightarrow> string" where
  "list_text xs = CHR ''['' # join_with '' '' xs @ '']''"

definition scan_text :: "TableScan \<Rightarrow> string" where
  "scan_text s = ''map[rows:'' @ go_decimal (Rows s) @ '' scan_bytes:'' @ go_decimal (ScanBytes s)
     @ '' table:'' @ scan_Table s @ '']''"

definition snapshot_text :: "Formats \<Rightarrow> CostResult \<Rightarrow> string" where
  "snapshot_text f cost = ''map[estimated_bytes:'' @ go_decimal (EstimatedScanBytes cost)
     @ '' estimated_cpu:'' @ float_text f (EstimatedCPUCost cost)
     @ '' estimated_rows:'' @ go_decimal (EstimatedRows cost)
     @ '' table_scans:'' @ list_text (map scan_text (TableScans cost)) @ '']''"

definition audit_attrs :: "Formats \<Rightarrow> audit_record \<Rightarrow> (string \<times> string) list" where
  "audit_attrs f a =
     [(''query'', au_Query a), (''reason'', reason_label (au_Reason a)), (''tables'', list_text (au_Tables a)),
      (''where_columns'', list_text (au_WhereColumns a)), (''user'', au_User a), (''client_tags'', au_ClientTags a),
      (''request_id'', au_RequestID a)]
     @ (case au_Snapshot a of None \<Rightarrow> [] | Some cost \<Rightarrow> [(''snapshot'', snapshot_text f cost)])"

section \<open>The text handler\<close>

definition quoting_chunk :: "Formats \<Rightarrow> chunk \<Rightarrow> bool" where
  "quoting_chunk f c \<longleftrightarrow>
     (if fst c < 128 then fst c = 32 \<or> fst c = 61 \<or> fst c < 32 \<or> fst c = 34
      else fst c = RuneError \<or> unicode_IsSpace (fst c) \<or> \<not> IsPrint (printable f) (fst c))"

definition needsQuoting :: "Formats \<Rightarrow> string \<Rightarrow> bool" where
  "needsQuoting f s \<longleftrightarrow> s = [] \<or> list_ex (quoting_chunk f) (rune_chunks s)"

definition attr_text :: "Formats \<Rightarrow> string \<times> string \<Rightarrow> string" where
  "attr_text f a = fst a @ CHR ''='' # (if needsQuoting f (snd a) then Quote (printable f) (snd a) else snd a)"

text \<open>The time of a line is written as it is; the level and the message are attributes like the others.\<close>

definition audit_line :: "Formats \<Rightarrow> string \<times> audit_record \<Rightarrow> string" where
  "audit_line f e = ''time='' @ fst e @ concat (map (\<lambda>a. CHR '' '' # attr_text f a)
     ([(''level'', ''INFO''), (''msg'', ''audit_rejection'')] @ audit_attrs f (snd e))) @ [CHR 0x0A]"

section \<open>Reading a log\<close>

definition bare :: "byte \<Rightarrow> bool" where
  "bare b \<longleftrightarrow> b \<noteq> CHR '' '' \<and> b \<noteq> CHR 0x0A"

definition read_value :: "string \<Rightarrow> (string \<times> string) option" where
  "read_value s =
     (case s of [] \<Rightarrow> None
      | b # t \<Rightarrow> if b = CHR 0x22 then read_string go_unit s else Some (takeWhile bare s, dropWhile bare s))"

definition read_attr :: "string \<Rightarrow> ((string \<times> string) \<times> string) option" where
  "read_attr s =
     (case dropWhile (\<lambda>b. b \<noteq> CHR ''='') s of [] \<Rightarrow> None
      | b # t \<Rightarrow> (case read_value t of None \<Rightarrow> None | Some (v, u) \<Rightarrow> Some ((takeWhile (\<lambda>b. b \<noteq> CHR ''='') s, v), u)))"

definition read_line :: "string \<Rightarrow> ((string \<times> string) list \<times> string) option" where
  "read_line = read_sequence read_attr (CHR '' '') (CHR 0x0A)"

function read_log :: "string \<Rightarrow> (string \<times> string) list list option" where
  "read_log s =
     (if s = [] then Some []
      else (case read_line s of None \<Rightarrow> None
            | Some (as, t) \<Rightarrow>
                if length t < length s then (case read_log t of None \<Rightarrow> None | Some ls \<Rightarrow> Some (as # ls)) else None))"
  by pat_completeness auto
termination
  by (relation "measure length") auto

declare read_log.simps [simp del]

section \<open>A line is read back\<close>

lemma bare_value:
  assumes "\<not> needsQuoting f s"
  shows "s \<noteq> []" and "hd s \<noteq> CHR 0x22" and "\<forall>b\<in>set s. bare b"
proof -
  show "s \<noteq> []" using assms by (simp add: needsQuoting_def)
  have plain: "b \<noteq> CHR 0x22 \<and> bare b" if "c \<in> set (rune_chunks s)" and "b \<in> set (snd c)" for c b
  proof -
    from that(1) have chunk: "is_chunk c" by (rule rune_chunks_ok)
    from that(1) assms have no: "\<not> quoting_chunk f c" by (auto simp: needsQuoting_def list_ex_iff)
    have "32 < byte_val b \<and> byte_val b \<noteq> 34"
    proof (cases "fst c < 128")
      case True
      with chunk that(2) ascii_chunk [of "fst c" "snd c"] no show ?thesis by (auto simp: quoting_chunk_def)
    next
      case False
      with chunk that(2) chunk_bytes [of "fst c" "snd c" b] show ?thesis by simp
    qed
    then show ?thesis by (auto simp: bare_def)
  qed
  have "\<forall>b\<in>set (concat (map snd (rune_chunks s))). b \<noteq> CHR 0x22 \<and> bare b" using plain by auto
  then have all: "\<forall>b\<in>set s. b \<noteq> CHR 0x22 \<and> bare b" by (simp only: concat_chunks)
  then show "\<forall>b\<in>set s. bare b" by blast
  show "hd s \<noteq> CHR 0x22" using all \<open>s \<noteq> []\<close> by (cases s) auto
qed

lemma read_value_text:
  assumes "\<not> bare b"
  shows "read_value ((if needsQuoting f s then Quote (printable f) s else s) @ b # t) = Some (s, b # t)"
proof (cases "needsQuoting f s")
  case True
  then show ?thesis
    using read_Quote [of "printable f" s "b # t"] by (simp add: read_value_def Quote_def)
next
  case False
  note s = bare_value [OF False]
  then obtain a u where a: "s = a # u" "a \<noteq> CHR 0x22" by (cases s) auto
  have "read_value (s @ b # t) = Some (takeWhile bare (s @ b # t), dropWhile bare (s @ b # t))"
    using a by (simp add: read_value_def)
  with False s(3) assms show ?thesis by (simp add: takeWhile_append2 dropWhile_append2)
qed

lemma key_split:
  "CHR ''='' \<notin> set k \<Longrightarrow> takeWhile (\<lambda>b. b \<noteq> CHR ''='') (k @ CHR ''='' # t) = k \<and>
    dropWhile (\<lambda>b. b \<noteq> CHR ''='') (k @ CHR ''='' # t) = CHR ''='' # t"
  by (induction k) auto

lemma read_attr_text:
  assumes "CHR ''='' \<notin> set (fst a)" and "\<not> bare b"
  shows "read_attr (attr_text f a @ b # t) = Some (a, b # t)"
  using key_split [OF assms(1)] read_value_text [OF assms(2), of f "snd a" t]
  by (simp add: read_attr_def attr_text_def)

interpretation attrs: separated "attr_text f" read_attr "\<lambda>a. a" "\<lambda>a. CHR ''='' \<notin> set (fst a)" "CHR '' ''" "CHR 0x0A" for f
  by unfold_locales (auto simp: read_attr_text bare_def)
definition line_attrs :: "Formats \<Rightarrow> string \<times> audit_record \<Rightarrow> (string \<times> string) list" where
  "line_attrs f e = (''time'', fst e) # (''level'', ''INFO'') # (''msg'', ''audit_rejection'') # audit_attrs f (snd e)"

lemma join_with_concat: "join_with [d] (p # ps) = p @ concat (map (\<lambda>q. d # q) ps)"
  by (induction ps arbitrary: p) auto

lemma audit_line_attrs:
  assumes "\<not> needsQuoting f (fst e)"
  shows "audit_line f e = join_with '' '' (map (attr_text f) (line_attrs f e)) @ [CHR 0x0A]"
proof -
  have "attr_text f (''time'', fst e) = ''time='' @ fst e" using assms by (simp add: attr_text_def)
  then show ?thesis by (simp add: audit_line_def line_attrs_def join_with_concat comp_def del: join_with.simps)
qed

lemma audit_keys: "list_all (\<lambda>a. CHR ''='' \<notin> set (fst a)) (line_attrs f e)"
  by (simp add: line_attrs_def audit_attrs_def split: option.split)

lemma read_audit_line:
  assumes "\<not> needsQuoting f (fst e)"
  shows "read_line (audit_line f e @ t) = Some (line_attrs f e, t)"
proof -
  obtain a as where as: "line_attrs f e = a # as" by (simp add: line_attrs_def)
  have "read_line (join_with '' '' (map (attr_text f) (a # as)) @ CHR 0x0A # t) = Some (map (\<lambda>a. a) (a # as), t)"
    unfolding read_line_def using audit_keys [of f e] as by (intro attrs.read_written) simp
  then show ?thesis unfolding audit_line_attrs [OF assms] as by simp
qed

lemma audit_line_nonempty: "audit_line f e \<noteq> []"
  by (simp add: audit_line_def)

lemma read_log_lines:
  "list_all (\<lambda>e. \<not> needsQuoting f (fst e)) es \<Longrightarrow>
    read_log (concat (map (audit_line f) es)) = Some (map (line_attrs f) es)"
proof (induction es)
  case Nil
  then show ?case by (subst read_log.simps) simp
next
  case (Cons e es)
  then show ?case
    using read_audit_line [of f e "concat (map (audit_line f) es)"] audit_line_nonempty [of f e]
    by (subst read_log.simps) simp
qed

text \<open>What a line tells of the rejection it was written for.\<close>

definition tells :: "audit_record \<Rightarrow> (string \<times> string) list \<Rightarrow> bool" where
  "tells a l \<longleftrightarrow> map_of l ''msg'' = Some ''audit_rejection'' \<and> map_of l ''query'' = Some (au_Query a) \<and>
     map_of l ''reason'' = Some (reason_label (au_Reason a)) \<and> map_of l ''user'' = Some (au_User a) \<and>
     map_of l ''client_tags'' = Some (au_ClientTags a) \<and> map_of l ''request_id'' = Some (au_RequestID a) \<and>
     (map_of l ''snapshot'' = None \<longleftrightarrow> au_Snapshot a = None)"

lemma line_tells: "tells (snd e) (line_attrs f e)"
  by (simp add: tells_def line_attrs_def audit_attrs_def split: option.split)

section \<open>Properties\<close>

text \<open>C13. The audit log cannot be forged: whatever clients put into their statements, user names, tags or request
  identifiers, the log of any sequence of rejections reads back as one line for each, in order, and each line
  tells the query, the reason, the user, the tags and the identifier of its rejection unchanged.\<close>

theorem audit_log_readable:
  assumes "list_all (\<lambda>e. \<not> needsQuoting f (fst e)) es"
  shows "\<exists>ls. read_log (concat (map (audit_line f) es)) = Some ls \<and> list_all2 (\<lambda>e l. tells (snd e) l) es ls"
  using read_log_lines [OF assms] line_tells by (simp add: list_all2_conv_all_nth)

text \<open>Of the client's headers only the user and the tags reach the log, never an Authorization value.\<close>

lemma audit_without_credentials:
  assumes "header_Get h ''X-Trino-User'' = header_Get (r_Header r) ''X-Trino-User''"
    and "header_Get h ''X-Trino-Client-Tags'' = header_Get (r_Header r) ''X-Trino-Client-Tags''"
  shows "auditRejection env (r\<lparr>r_Header := h\<rparr>) query reason res cost st = auditRejection env r query reason res cost st"
  using assms by (simp add: auditRejection_def FromContext_def Let_def)

text \<open>A statement whose text imitates the end of a line and a record of its own.\<close>

definition demo_forgery :: audit_record where
  "demo_forgery = \<lparr>au_Query = ''drop table t'' @ [CHR 0x0A] @ ''time=0 level=INFO msg=audit_rejection query=x'',
     au_Reason = ReasonStatementBlocklist, au_Tables = [''t''], au_WhereColumns = [], au_User = ''eve'',
     au_ClientTags = [], au_RequestID = ''id-1'', au_Snapshot = None\<rparr>"

lemma demo_stamp: "\<not> needsQuoting demo_formats ''12:00''"
proof -
  have "rune_chunks ''12:00'' = map (\<lambda>b. (byte_val b, [b])) ''12:00''"
    by (simp add: rune_chunks.simps decode_rune_def)
  then show ?thesis by (simp add: needsQuoting_def quoting_chunk_def)
qed

lemma audit_log_readable_witness:
  "\<exists>l. read_log (audit_line demo_formats (''12:00'', demo_forgery)) = Some [l] \<and> map_of l ''user'' = Some ''eve''"
  using audit_log_readable [of demo_formats "[(''12:00'', demo_forgery)]"] demo_stamp
  by (auto simp: list_all2_Cons1 tells_def demo_forgery_def)

end
