(* ===== verification/Spec2Isabelle.thy ===== *)
theory Spec2Isabelle
  imports Sequential_View Process_Lifecycle Audit_Text
begin

text \<open>
  query-guard, a guarding HTTP proxy for Trino.

  The program sits between clients and a Trino coordinator.  A POST to \<open>/v1/statement\<close> is inspected: its SQL
  is classified and analysed (\<open>internal/parser\<close>), checked against the policy (Tier 1, \<open>internal/proxy\<close>), and a
  SELECT that passes is costed by a shadow EXPLAIN on the coordinator (Tier 2, \<open>internal/engine\<close>).  It is then
  rejected with a 400 or forwarded through a reverse proxy; everything that cannot be inspected or costed is
  forwarded (fail-open).  The policy is a file that is reloaded when it changes (\<open>internal/config\<close>).

  The theories, from the bottom up.

    \<open>Go_Prelude\<close>, \<open>Go_Strings\<close>, \<open>Go_Numbers\<close>, \<open>Go_Format\<close>, \<open>Go_Http\<close>: what the source uses of Go and its library.
      Strings are byte lists; runes are decoded as Go does; \<open>TrimSpace\<close>, \<open>EqualFold\<close>, \<open>Split\<close>, \<open>Index\<close> and the
      like are executable.  Integers are 64-bit words read with \<open>sint\<close>, floats are rationals rounded to 53
      bits with infinities and NaN, and \<open>int64_of_float\<close> is the conversion of amd64.  The locale
      \<open>name_equivalence\<close> says what the checks need of a comparison of names; \<open>EqualFold\<close> is an instance.
      \<open>strconv.Quote\<close> and the strings of \<open>encoding/json\<close> are instances of \<open>quoted_text\<close>, which reads back
      what was escaped; JSON members and the attributes of a log line are instances of \<open>separated\<close>.
    \<open>Parser_Tokenizer\<close>, \<open>Parser_Classifier\<close>, \<open>Parser_Tables\<close>, \<open>Parser_Normalize\<close>, \<open>Parser_Ast\<close>: \<open>tables.go\<close>,
      \<open>classifier.go\<close>, \<open>normalize.go\<close> and \<open>ast.go\<close>, function by function.  A loop index is the suffix it points
      at.  The SQL parser (vitess) is an argument of \<open>Analyze\<close>; its syntax trees are datatypes with the
      constructors the walkers distinguish.  The walkers are passes over a SELECT (locale \<open>select_pass\<close>).
      Shown: the tokens are those of the rules \<open>lexes\<close>, which cut a statement into regions without any scanner;
      normalisation acts on tokens; which tables, columns, functions and stars an analysis reports, where only
      the bodies of CTEs and direct derived tables are entered; and how the class of a statement is found.
    \<open>Config_Policy\<close>, \<open>Config_Watcher\<close>: \<open>config.go\<close> and \<open>watcher.go\<close>.  \<open>Config\<close> is a cell (locale \<open>config_cell\<close>).
      The watcher is a labelled step relation: the branches of its select, the parts of a reload (load, swap
      in, and each atomic part of the callback), and what the environment does.  Shown: validation is exact,
      and every reachable state serves a valid policy with its defaults filled in.
    \<open>Labelled_Steps\<close>: runs of a labelled step relation, their invariants, and the locale \<open>executable_steps\<close> for
      relations whose label determines the step: the watcher, the serving process and its life are instances.
    \<open>Telemetry\<close>: the collectors and the recording methods of \<open>metrics.go\<close>, on an optional record of counters.
    \<open>Engine_Limits\<close>, \<open>Engine_Plan\<close>, \<open>Engine_Trino\<close>, \<open>Engine_Gate\<close>: \<open>engine.go\<close> and \<open>trino.go\<close>.  Decoded JSON is
      data, the decoder an argument; an object is the list of its entries in the order a range visits them,
      so what holds of all lists holds for every order.  Polling is a partial function whose value is
      \<open>None\<close> when it does not return; it returns when the client has a deadline.  The interface
      \<open>CostEvaluator\<close> is the locale \<open>cost_evaluator\<close>, with Trino's as its instance.  The gate is a step
      relation.  Shown: a statement succeeds exactly on a complete chain of good pages (\<open>page_chain\<close>, stated
      without the functions of the loop), an evaluation ends in one of four ways and no failure is a
      rejection, verdicts compare the estimates with the limits exactly, sums are exact while they fit
      into 64 bits, no order matters, at most the configured number of evaluations run.
    \<open>Proxy_Tier1\<close>, \<open>Proxy_Reverse\<close>, \<open>Ctxlog\<close>, \<open>Proxy_Handler\<close>: \<open>handler.go\<close>, \<open>reverse.go\<close>, \<open>response.go\<close> and
      \<open>ctxlog.go\<close>.  The handler acts on a world \<open>'w\<close> through the record \<open>Env\<close>: reading the live policy and
      target, the transport, the evaluator, and \<open>interfere\<close>, what the rest of the process does between two
      reads of the live configuration.  Metrics and audit log are state passed along.  Shown of the parts:
      Tier 1 reports its first violated stage, a required filter needs a reference that may stand for the table,
      and the rewriting of a response is the relation \<open>rewritten\<close>, which uses neither matcher nor replacement.
    \<open>Proxy_Properties\<close>: what the handler guarantees, for every \<open>cost_evaluator\<close> and then for Trino's: every
      statement is answered and counted once, rejections have a cause, Tier 1 is enforced before anything is
      sent, the transport is given the client's statement without two headers (\<open>relayed\<close>), and the decision is
      that of \<open>guard_spec\<close>.
    \<open>QueryGuard_Main\<close>: \<open>main.go\<close>, the set-up, the reload callback and the HSTS wrapper, and the composition of
      watcher and handler: the proxy's target and the policies enforced in every reachable state.  The callback
      compares, swaps the proxy and records the upstream in three steps, since callbacks can overlap;
      \<open>serial_step\<close> leaves the overlapping schedules out, \<open>racing_callbacks\<close> is one that loses an update.
    \<open>Rejection_Text\<close>, \<open>Audit_Text\<close>: what leaves the process as bytes.  The messages formatted as \<open>fmt.Sprintf\<close> does,
      the JSON body of a rejection (\<open>response.go\<close>), and the line that the logger of \<open>main.go\<close> writes for an audit
      record.  Shown: whatever clients send, a body reads back as its fields and a log as its records.

    \<open>Handler_Program\<close>, \<open>Handler_Steps\<close>: \<open>handleStatement\<close> and \<open>Evaluate\<close> once more, as a tree of the accesses a
      statement makes to what the goroutines share (\<open>prog\<close>).  \<open>program_is_handler\<close> shows that running the tree is
      \<open>handleStatement\<close>.  \<open>resume\<close> takes one action; \<open>ensures\<close> is the weakest precondition over all traces of
      actions, and \<open>statement_ensures\<close> what every trace keeps: one count, at most one audit record, a slot that is
      given back, Tier 1 before anything is sent, a cause for a rejection, at most \<open>max_actions\<close> actions.
    \<open>Request_System\<close>: the serving process.  Each request is a thread with a program and its trace; the threads are
      interleaved with each other and with the steps of the watcher.  The gate's capacity guards \<open>SlotTaken\<close>, the
      policy that is read is the live one.  \<open>system_ok\<close> ties the gate, the metrics and the audit log to the traces.
      Shown: at most the configured number of EXPLAINs in flight, that the actions at the gate, in their order, are a
      run of \<open>Engine_Gate\<close> (\<open>gate_word\<close>), exact counts, a sound audit log, causes in policies that were served, and
      that no request needs another one to move.
    \<open>Sequential_View\<close>: each request of the concurrent process is a run of \<open>handleStatement\<close> in an environment made of
      its trace, so that what \<open>Proxy_Properties\<close> shows of the handler alone holds of every request.
    \<open>Process_Lifecycle\<close>: the rest of \<open>main.go\<close> around \<open>Request_System\<close>: the listener, connections, the signal, the
      cancelled watcher, \<open>Shutdown\<close> with its grace period, the exit codes.  Shown: what each exit code means, that a
      drained process has answered and counted every request, and that draining can always be completed.

  Bounds.  There is no fuel: every loop is structural or has a proved measure, except the polling of a
  statement, whose only bound in the code is the deadline of its context.  A request takes at most 19 actions
  (\<open>max_actions\<close>, the way to a logged Tier 2 rejection), in which a shadow EXPLAIN is one action.  The hypothesis \<open>deadline\<close> states
  that bound: a round trip that succeeds uses up some of a budget.  Caps of the code (8 MiB of a body, 64 KiB
  of a response prefix) are the numbers of the source.

  Parameters stand for code outside the repository: vitess' parser, the JSON and YAML decoders, \<open>url.Parse\<close>,
  \<open>mime.ParseMediaType\<close>, the HTTP transport and client, fsnotify, the random source and the clock, and the library's
  tables of printable runes and of the text of floating-point numbers (\<open>Formats\<close>).

  Not modelled: the flag package, the connections inside \<open>net/http\<close> (a connection is a counter, \<open>Shutdown\<close> is what its
  documentation says), the Prometheus library and the text of the metrics page, log lines other than the audit
  record, and the text of errors that are only logged (a value of a datatype stands for each).
  Requests to the probes, the metrics page and paths that are only proxied are in \<open>ServeHTTP\<close>, not in
  \<open>Request_System\<close>: they change nothing the threads share.
\<close>

end
